(* ===== verification/Prelude.thy ===== *)
theory Prelude
  imports Main "HOL-Library.State_Monad" "HOL-Library.Word" "HOL-Library.Char_ord"
    "HOL-Library.List_Lexorder" "HOL-Library.Product_Lexorder"
begin

text \<open>
  Shared groundwork of the development: the collections of rewrite rules that the
  component proofs use, the programs of the model as state transformers (the state monad
  of the library, with one way to write \<open>return\<close>), and generic facts on lists and
  association lists that several components need.
\<close>

section \<open>Collections of rewrite rules\<close>

named_theorems prog_defs \<open>definitions of the model's programs, unfolded on demand\<close>
named_theorems run_simps \<open>how the programs of the model run\<close>
named_theorems key_simps \<open>which Redis keys of the model differ\<close>

section \<open>Programs as state transformers\<close>

abbreviation ret :: "'a \<Rightarrow> ('s, 'a) state" where
  "ret \<equiv> State_Monad.return"

abbreviation read_state :: "('s, 's) state" where
  "read_state \<equiv> State_Monad.get"

abbreviation modify_state :: "('s \<Rightarrow> 's) \<Rightarrow> ('s, unit) state" where
  "modify_state \<equiv> State_Monad.update"

lemma run_modify [run_simps, simp]: "run_state (modify_state f) s = ((), f s)"
  by (simp add: State_Monad.update_def)

lemma run_if [run_simps]:
  "run_state (if b then m else n) s = (if b then run_state m s else run_state n s)"
  by simp

lemma run_case_sum [run_simps]:
  "run_state (case x of Inl a \<Rightarrow> f a | Inr b \<Rightarrow> g b) s =
     (case x of Inl a \<Rightarrow> run_state (f a) s | Inr b \<Rightarrow> run_state (g b) s)"
  by (simp split: sum.split)

lemma run_case_option [run_simps]:
  "run_state (case x of None \<Rightarrow> m | Some a \<Rightarrow> f a) s =
     (case x of None \<Rightarrow> run_state m s | Some a \<Rightarrow> run_state (f a) s)"
  by (simp split: option.split)

section \<open>Results of fallible code\<close>

text \<open>The Go result pair \<open>(value, error)\<close> is a sum: \<open>Inl\<close> carries the error.\<close>

fun result_of_option :: "'e \<Rightarrow> 'a option \<Rightarrow> 'e + 'a" where
  "result_of_option e None = Inl e"
| "result_of_option e (Some a) = Inr a"

lemma result_of_option_Inr [simp]: "result_of_option e x = Inr a \<longleftrightarrow> x = Some a"
  by (cases x) auto

text \<open>
  \<open>if err != nil \<open>{\<close> return f(err) \<open>}\<close>\<close>: run a step, leave with the wrapped error when it fails and
  go on with its value otherwise.
\<close>

definition or_return :: "('s, 'e + 'a) state \<Rightarrow> ('e \<Rightarrow> 'f) \<Rightarrow> ('a \<Rightarrow> ('s, 'f + 'b) state) \<Rightarrow>
    ('s, 'f + 'b) state" where
  "or_return m f k = do { r \<leftarrow> m; case r of Inl e \<Rightarrow> ret (Inl (f e)) | Inr a \<Rightarrow> k a }"

lemma run_or_return [run_simps]:
  "run_state (or_return m f k) s =
     (case run_state m s of (r, s') \<Rightarrow>
        (case r of Inl e \<Rightarrow> (Inl (f e), s') | Inr a \<Rightarrow> run_state (k a) s'))"
  by (simp add: or_return_def split: prod.split sum.split)

section \<open>Lists\<close>

text \<open>\<open>LREM key 1 v\<close> and the like: drop the first occurrence only, that is \<open>remove1\<close>.\<close>

lemma length_remove1_in: "x \<in> set xs \<Longrightarrow> Suc (length (remove1 x xs)) = length xs"
  by (metis One_nat_def Suc_pred length_pos_if_in_set length_remove1)

lemma butlast_last_snoc: "xs \<noteq> [] \<Longrightarrow> butlast xs @ [last xs] = xs"
  by simp

lemma takeWhile_hd_False: "\<not> P x \<Longrightarrow> takeWhile P (x # xs) = []"
  by simp

section \<open>Finite maps with a canonical form\<close>

text \<open>
  A Go map with string keys is kept as an association list sorted strictly by key, so
  that equal maps are equal lists. It is the order in which \<open>encoding/json\<close> writes a
  map.
\<close>

type_synonym gomap = "(string \<times> string) list"

definition gomap_wf :: "gomap \<Rightarrow> bool" where
  "gomap_wf m \<longleftrightarrow> sorted_wrt (<) (map fst m)"

fun gomap_update :: "string \<Rightarrow> string \<Rightarrow> gomap \<Rightarrow> gomap" where
  "gomap_update k v [] = [(k, v)]"
| "gomap_update k v ((k', v') # m) =
     (if k < k' then (k, v) # (k', v') # m
      else if k = k' then (k, v) # m
      else (k', v') # gomap_update k v m)"

definition gomap_get :: "gomap \<Rightarrow> string \<Rightarrow> string" where
  "gomap_get m k = (case map_of m k of None \<Rightarrow> '''' | Some v \<Rightarrow> v)"

lemma map_of_gomap_update: "map_of (gomap_update k v m) = (map_of m)(k \<mapsto> v)"
  by (induction k v m rule: gomap_update.induct) auto

lemma fst_set_gomap_update: "fst ` set (gomap_update k v m) = insert k (fst ` set m)"
  by (induction k v m rule: gomap_update.induct) auto

lemma gomap_wf_update: "gomap_wf m \<Longrightarrow> gomap_wf (gomap_update k v m)"
proof (induction k v m rule: gomap_update.induct)
  case (1 k v)
  then show ?case by (simp add: gomap_wf_def)
next
  case (2 k v k' v' m)
  have "\<forall>x \<in> fst ` set (gomap_update k v m). k' < x" if "k' < k"
    using that 2 by (auto simp: gomap_wf_def fst_set_gomap_update)
  with 2 show ?case by (auto simp: gomap_wf_def)
qed

lemma gomap_update_append:
  "sorted_wrt (<) (map fst m @ [k]) \<Longrightarrow> gomap_update k v m = m @ [(k, v)]"
  by (induction m) (auto simp: sorted_wrt_append)

end
