(* ===== verification/Go_Base.thy ===== *)
theory Go_Base
  imports Prelude
begin

text \<open>
  What the program uses of the Go language and its standard library outside encoding:
  error values and their wrapping, 64-bit integers, decimal formatting and parsing,
  instants and durations.
\<close>

section \<open>Error values\<close>

text \<open>
  A Go error is compared by identity (\<open>err == redis.ErrNotFound\<close>) and wrapped by
  \<open>fmt.Errorf("...: %w", err)\<close>. A package-level error variable is a \<open>Sentinel\<close> with
  its (unique) text, an error built on the spot without \<open>%w\<close> is \<open>Errorf\<close>, one built with
  \<open>%w\<close> is \<open>Wrapf\<close> with the text before the colon, and an error that third-party code
  returns is \<open>RedisNil\<close> (go-redis' \<open>redis.Nil\<close>) or \<open>Extern\<close>.
\<close>

datatype goerror = Sentinel string | Errorf string | Wrapf string goerror | RedisNil
  | Extern string

fun error_text :: "goerror \<Rightarrow> string" where
  "error_text (Sentinel t) = t"
| "error_text (Errorf t) = t"
| "error_text (Wrapf p e) = p @ '': '' @ error_text e"
| "error_text RedisNil = ''redis: nil''"
| "error_text (Extern t) = t"

text \<open>\<open>errors.Is\<close>: the error itself or one it wraps.\<close>

fun errors_is :: "goerror \<Rightarrow> goerror \<Rightarrow> bool" where
  "errors_is (Wrapf p e) t \<longleftrightarrow> Wrapf p e = t \<or> errors_is e t"
| "errors_is e t \<longleftrightarrow> e = t"

text \<open>
  A call of code that can panic returns, or it panics with a value: an error (a runtime error is one),
  a string, or a value of another type, kept as its formatted text.
\<close>

datatype panic_value = PanicError goerror | PanicString string | PanicOther string

datatype 'a outcome = Returned 'a | Panicked panic_value

text \<open>Closing a channel that is closed is a runtime error.\<close>

definition close_of_closed :: panic_value where
  "close_of_closed = PanicError (Extern ''close of closed channel'')"

section \<open>Machine integers\<close>

text \<open>\<open>int\<close> and \<open>int64\<close> are kept as \<open>int\<close>, with the two's complement wrap of 64 bits
  written out where the code adds.\<close>

definition i64 :: "int \<Rightarrow> int" where
  "i64 x = (x + 2 ^ 63) mod 2 ^ 64 - 2 ^ 63"

definition int64_range :: "int \<Rightarrow> bool" where
  "int64_range x \<longleftrightarrow> - (2 ^ 63) \<le> x \<and> x < 2 ^ 63"

lemma i64_id [simp]: "int64_range x \<Longrightarrow> i64 x = x"
  by (auto simp: i64_def int64_range_def)

lemma i64_range [simp, intro]: "int64_range (i64 x)"
proof -
  have "0 \<le> (x + 2 ^ 63) mod 2 ^ 64" "(x + 2 ^ 63) mod 2 ^ 64 < (2 :: int) ^ 64"
    by simp_all
  then show ?thesis unfolding i64_def int64_range_def by simp
qed

text \<open>Go's integer division truncates towards zero.\<close>

definition go_div :: "int \<Rightarrow> int \<Rightarrow> int" where
  "go_div a b = sgn a * sgn b * (\<bar>a\<bar> div \<bar>b\<bar>)"

lemma go_div_nonneg: "0 \<le> a \<Longrightarrow> 0 < b \<Longrightarrow> go_div a b = a div b"
  by (cases "a = 0") (auto simp: go_div_def)

section \<open>Decimal text\<close>

definition digit_char :: "nat \<Rightarrow> char" where
  "digit_char d = char_of (48 + d)"

definition char_digit :: "char \<Rightarrow> nat option" where
  "char_digit c = (if 48 \<le> (of_char c :: nat) \<and> (of_char c :: nat) \<le> 57
     then Some (of_char c - 48) else None)"

lemma char_digit_digit_char [simp]: "d < 10 \<Longrightarrow> char_digit (digit_char d) = Some d"
  by (simp add: char_digit_def digit_char_def)

fun format_nat :: "nat \<Rightarrow> string" where
  "format_nat n = (if n < 10 then [digit_char n]
     else format_nat (n div 10) @ [digit_char (n mod 10)])"

declare format_nat.simps [simp del]

definition format_int :: "int \<Rightarrow> string" where
  "format_int i = (if i < 0 then CHR ''-'' # format_nat (nat (- i)) else format_nat (nat i))"

text \<open>All characters are read as decimal digits, most significant first.\<close>

fun parse_digits :: "nat \<Rightarrow> string \<Rightarrow> nat option" where
  "parse_digits acc [] = Some acc"
| "parse_digits acc (c # cs) =
     (case char_digit c of None \<Rightarrow> None | Some d \<Rightarrow> parse_digits (10 * acc + d) cs)"

definition parse_nat :: "string \<Rightarrow> nat option" where
  "parse_nat s = (if s = [] then None else parse_digits 0 s)"

lemma parse_digits_append:
  "parse_digits acc (xs @ ys) =
     (case parse_digits acc xs of None \<Rightarrow> None | Some a \<Rightarrow> parse_digits a ys)"
  by (induction acc xs rule: parse_digits.induct) (auto split: option.split)

lemma parse_digits_format_nat: "parse_digits 0 (format_nat n) = Some n"
proof (induction n rule: format_nat.induct)
  case (1 n)
  then show ?case
    by (subst format_nat.simps) (auto simp: parse_digits_append)
qed

lemma format_nat_not_Nil [simp]: "format_nat n \<noteq> []"
  by (subst format_nat.simps) simp

lemma parse_format_nat [simp]: "parse_nat (format_nat n) = Some n"
  by (simp add: parse_nat_def parse_digits_format_nat)

lemma format_nat_digits: "c \<in> set (format_nat n) \<Longrightarrow> char_digit c \<noteq> None"
proof (induction n rule: format_nat.induct)
  case (1 n)
  then show ?case
    by (subst (asm) format_nat.simps) (auto split: if_splits)
qed

text \<open>\<open>strconv.ParseInt(s, 10, 64)\<close>: an optional sign, then digits, within 64 bits.\<close>

definition in_int64 :: "int \<Rightarrow> int option" where
  "in_int64 x = (if int64_range x then Some x else None)"

definition parse_int :: "string \<Rightarrow> int option" where
  "parse_int s = (case s of
     [] \<Rightarrow> None
   | c # cs \<Rightarrow>
       if c = CHR ''-'' then
         (case parse_nat cs of None \<Rightarrow> None | Some n \<Rightarrow> in_int64 (- int n))
       else if c = CHR ''+'' then
         (case parse_nat cs of None \<Rightarrow> None | Some n \<Rightarrow> in_int64 (int n))
       else (case parse_nat s of None \<Rightarrow> None | Some n \<Rightarrow> in_int64 (int n)))"

lemma char_digit_sign [simp]: "char_digit CHR ''-'' = None" "char_digit CHR ''+'' = None"
  by (simp_all add: char_digit_def)

lemma format_nat_hd: "hd (format_nat n) \<noteq> CHR ''-'' \<and> hd (format_nat n) \<noteq> CHR ''+''"
  using format_nat_digits [of "hd (format_nat n)" n] by auto

lemma parse_format_int: "int64_range i \<Longrightarrow> parse_int (format_int i) = Some i"
proof (cases "i < 0")
  case True
  assume "int64_range i"
  with True show ?thesis by (simp add: parse_int_def format_int_def in_int64_def)
next
  case False
  assume r: "int64_range i"
  obtain c cs where c: "format_nat (nat i) = c # cs"
    using format_nat_not_Nil [of "nat i"] by (cases "format_nat (nat i)") auto
  then have "c \<noteq> CHR ''-''" "c \<noteq> CHR ''+''"
    using format_nat_hd [of "nat i"] by auto
  moreover have "parse_nat (c # cs) = Some (nat i)"
    using parse_format_nat [of "nat i"] c by simp
  ultimately show ?thesis using False r c
    by (simp add: parse_int_def format_int_def in_int64_def)
qed

section \<open>Instants and durations\<close>

text \<open>
  \<open>time.Duration\<close> is a count of nanoseconds. A \<open>time.Time\<close> is an instant, in
  nanoseconds since 1970-01-01T00:00:00Z, with the offset of its zone in seconds.
\<close>

datatype gotime = Time (t_ns: int) (t_off: int)

abbreviation second :: int where "second \<equiv> 1000000000"
abbreviation millisecond :: int where "millisecond \<equiv> 1000000"
abbreviation minute :: int where "minute \<equiv> 60 * second"
abbreviation hour :: int where "hour \<equiv> 60 * minute"

definition time_UTC :: "gotime \<Rightarrow> gotime" where
  "time_UTC t = Time (t_ns t) 0"

definition time_Unix :: "gotime \<Rightarrow> int" where
  "time_Unix t = t_ns t div second"

definition time_UnixMilli :: "gotime \<Rightarrow> int" where
  "time_UnixMilli t = t_ns t div millisecond"

definition time_Add :: "gotime \<Rightarrow> int \<Rightarrow> gotime" where
  "time_Add t d = Time (t_ns t + d) (t_off t)"

text \<open>The zero value of \<open>time.Time\<close> is 0001-01-01T00:00:00Z.\<close>

definition zero_time :: gotime where
  "zero_time = Time (- 62135596800 * second) 0"

definition time_IsZero :: "gotime \<Rightarrow> bool" where
  "time_IsZero t \<longleftrightarrow> t_ns t = - 62135596800 * second"

end
