(* ===== verification/Go_Text.thy ===== *)
theory Go_Text
  imports Go_Base
begin

text \<open>
  Text encodings of the Go standard library that \<open>encoding/json\<close> rests on: UTF-8 (a Go
  string is a sequence of bytes, here of \<open>char\<close>s), the quoting and unquoting of JSON string
  literals as \<open>encoding/json\<close> does them (HTML escaping on, invalid UTF-8 replaced by U+FFFD),
  and standard base64, which is the JSON form of \<open>[]byte\<close>.
\<close>

abbreviation code :: "char \<Rightarrow> nat" where
  "code c \<equiv> of_char c"

abbreviation dquote :: char where "dquote \<equiv> CHR 0x22"
abbreviation backslash :: char where "backslash \<equiv> CHR 0x5C"

section \<open>UTF-8\<close>

definition is_cont :: "char \<Rightarrow> bool" where
  "is_cont c \<longleftrightarrow> 128 \<le> code c \<and> code c < 192"

text \<open>The second byte of a three- or four-byte sequence is further restricted: no overlong
  forms, no surrogates, nothing beyond U+10FFFF.\<close>

definition second_ok :: "char \<Rightarrow> char \<Rightarrow> bool" where
  "second_ok a b \<longleftrightarrow> is_cont b \<and>
     (code a = 224 \<longrightarrow> 160 \<le> code b) \<and> (code a = 237 \<longrightarrow> code b < 160) \<and>
     (code a = 240 \<longrightarrow> 144 \<le> code b) \<and> (code a = 244 \<longrightarrow> code b < 144)"

text \<open>Bytes of the valid encoding of a rune at the head of a string; 0 if there is none.\<close>

fun utf8_size :: "string \<Rightarrow> nat" where
  "utf8_size [] = 0"
| "utf8_size (a # s) =
    (if code a < 128 then 1
     else if 194 \<le> code a \<and> code a < 224 then
       (case s of b # _ \<Rightarrow> if is_cont b then 2 else 0 | _ \<Rightarrow> 0)
     else if 224 \<le> code a \<and> code a < 240 then
       (case s of b # c # _ \<Rightarrow> if second_ok a b \<and> is_cont c then 3 else 0 | _ \<Rightarrow> 0)
     else if 240 \<le> code a \<and> code a < 245 then
       (case s of b # c # d # _ \<Rightarrow> if second_ok a b \<and> is_cont c \<and> is_cont d then 4 else 0
        | _ \<Rightarrow> 0)
     else 0)"

declare utf8_size.simps [simp del]

fun valid_utf8 :: "string \<Rightarrow> bool" where
  "valid_utf8 [] \<longleftrightarrow> True"
| "valid_utf8 (a # s) \<longleftrightarrow> utf8_size (a # s) \<noteq> 0 \<and> valid_utf8 (drop (utf8_size (a # s) - 1) s)"

definition encode_rune :: "nat \<Rightarrow> string" where
  "encode_rune r =
    (if r < 128 then [char_of r]
     else if r < 2048 then [char_of (192 + r div 64), char_of (128 + r mod 64)]
     else if r < 65536 then
       [char_of (224 + r div 4096), char_of (128 + r div 64 mod 64), char_of (128 + r mod 64)]
     else [char_of (240 + r div 262144), char_of (128 + r div 4096 mod 64),
           char_of (128 + r div 64 mod 64), char_of (128 + r mod 64)])"

abbreviation rune_error :: nat where "rune_error \<equiv> 0xFFFD"

section \<open>JSON string literals\<close>

definition hex_char :: "nat \<Rightarrow> char" where
  "hex_char d = (if d < 10 then char_of (48 + d) else char_of (87 + d))"

definition hex_value :: "char \<Rightarrow> nat option" where
  "hex_value c =
    (if 48 \<le> code c \<and> code c \<le> 57 then Some (code c - 48)
     else if 97 \<le> code c \<and> code c \<le> 102 then Some (code c - 87)
     else if 65 \<le> code c \<and> code c \<le> 70 then Some (code c - 55)
     else None)"

definition hex4 :: "char \<Rightarrow> char \<Rightarrow> char \<Rightarrow> char \<Rightarrow> nat option" where
  "hex4 a b c d =
    (case (hex_value a, hex_value b, hex_value c, hex_value d) of
       (Some w, Some x, Some y, Some z) \<Rightarrow> Some (4096 * w + 256 * x + 16 * y + z)
     | _ \<Rightarrow> None)"

definition escape_ascii :: "char \<Rightarrow> string" where
  "escape_ascii c =
    (if c = dquote \<or> c = backslash then [backslash, c]
     else if c = CHR 0x08 then [backslash, CHR ''b'']
     else if c = CHR 0x0C then [backslash, CHR ''f'']
     else if c = CHR 0x0A then [backslash, CHR ''n'']
     else if c = CHR 0x0D then [backslash, CHR ''r'']
     else if c = CHR 0x09 then [backslash, CHR ''t'']
     else if code c < 32 \<or> c = CHR ''<'' \<or> c = CHR ''>'' \<or> c = CHR ''&'' then
       [backslash, CHR ''u'', CHR ''0'', CHR ''0'', hex_char (code c div 16), hex_char (code c mod 16)]
     else [c])"

text \<open>The body of the literal that \<open>encoding/json\<close> writes for a string, without its quotes.\<close>

fun json_quote :: "string \<Rightarrow> string" where
  "json_quote [] = []"
| "json_quote (a # s) =
    (if code a < 128 then escape_ascii a @ json_quote s
     else let n = utf8_size (a # s) in
       if n = 0 then backslash # ''ufffd'' @ json_quote s
       else if take n (a # s) = [CHR 0xE2, CHR 0x80, CHR 0xA8] then
         backslash # ''u2028'' @ json_quote (drop (n - 1) s)
       else if take n (a # s) = [CHR 0xE2, CHR 0x80, CHR 0xA9] then
         backslash # ''u2029'' @ json_quote (drop (n - 1) s)
       else take n (a # s) @ json_quote (drop (n - 1) s))"

text \<open>A literal's body up to the closing quote, and what follows; the scanner's grammar.\<close>

definition simple_escape :: "char \<Rightarrow> char option" where
  "simple_escape e =
    (if e = dquote \<or> e = backslash \<or> e = CHR ''/'' then Some e
     else if e = CHR ''b'' then Some CHR 0x08
     else if e = CHR ''f'' then Some CHR 0x0C
     else if e = CHR ''n'' then Some CHR 0x0A
     else if e = CHR ''r'' then Some CHR 0x0D
     else if e = CHR ''t'' then Some CHR 0x09
     else None)"

text \<open>A \<open>\u\<close> escape at the head of a string.\<close>

definition u_escape :: "string \<Rightarrow> nat option" where
  "u_escape s =
    (case s of
       b # u # h1 # h2 # h3 # h4 # _ \<Rightarrow>
         if b = backslash \<and> u = CHR ''u'' then hex4 h1 h2 h3 h4 else None
     | _ \<Rightarrow> None)"

text \<open>Bytes of the next unit of a body: a plain byte, a simple escape or a \<open>\u\<close> escape.\<close>

definition unit_size :: "string \<Rightarrow> nat option" where
  "unit_size s =
    (case s of
       [] \<Rightarrow> None
     | c # t \<Rightarrow>
        if c = backslash then
          (if t \<noteq> [] \<and> simple_escape (hd t) \<noteq> None then Some 2
           else if u_escape s \<noteq> None then Some 6 else None)
        else if c = dquote \<or> code c < 32 then None else Some 1)"

fun scan_string :: "string \<Rightarrow> (string \<times> string) option" where
  "scan_string [] = None"
| "scan_string (c # t) =
    (if c = dquote then Some ([], t)
     else case unit_size (c # t) of
       None \<Rightarrow> None
     | Some n \<Rightarrow>
         map_option (map_prod ((@) (take n (c # t))) id) (scan_string (drop (n - 1) t)))"

text \<open>\<open>unquote\<close>: the string a literal's body stands for.\<close>

function json_unquote :: "string \<Rightarrow> string option" where
  "json_unquote s =
    (case s of
       [] \<Rightarrow> Some []
     | c # t \<Rightarrow>
        if c = backslash then
          (case t of
             [] \<Rightarrow> None
           | e # t' \<Rightarrow>
              (case simple_escape e of
                 Some x \<Rightarrow> map_option ((#) x) (json_unquote t')
               | None \<Rightarrow>
                  (case u_escape s of
                     None \<Rightarrow> None
                   | Some r \<Rightarrow>
                      if 0xD800 \<le> r \<and> r < 0xE000 then
                        (case u_escape (drop 6 s) of
                           Some r2 \<Rightarrow>
                             if r < 0xDC00 \<and> 0xDC00 \<le> r2 \<and> r2 < 0xE000 then
                               map_option ((@) (encode_rune (0x10000 + (r - 0xD800) * 1024 + (r2 - 0xDC00))))
                                 (json_unquote (drop 12 s))
                             else map_option ((@) (encode_rune rune_error)) (json_unquote (drop 6 s))
                         | None \<Rightarrow>
                             map_option ((@) (encode_rune rune_error)) (json_unquote (drop 6 s)))
                      else map_option ((@) (encode_rune r)) (json_unquote (drop 6 s)))))
        else if c = dquote \<or> code c < 32 then None
        else if code c < 128 then map_option ((#) c) (json_unquote t)
        else
          let n = utf8_size s in
          if n = 0 then map_option ((@) (encode_rune rune_error)) (json_unquote t)
          else map_option ((@) (take n s)) (json_unquote (drop n s)))"
  by pat_completeness auto
termination
  by (relation "measure length") (auto split: if_splits)

declare json_unquote.simps [simp del]

section \<open>Base64\<close>

definition b64_alphabet :: string where
  "b64_alphabet = ''ABCDEFGHIJKLMNOPQRSTUVWXYZabcdefghijklmnopqrstuvwxyz0123456789+/''"

definition b64_char :: "nat \<Rightarrow> char" where
  "b64_char n =
    (if n < 26 then char_of (65 + n) else if n < 52 then char_of (71 + n)
     else if n < 62 then char_of (n - 4) else if n = 62 then CHR ''+'' else CHR ''/'')"

definition b64_value :: "char \<Rightarrow> nat option" where
  "b64_value c =
    (if 65 \<le> code c \<and> code c \<le> 90 then Some (code c - 65)
     else if 97 \<le> code c \<and> code c \<le> 122 then Some (code c - 71)
     else if 48 \<le> code c \<and> code c \<le> 57 then Some (code c + 4)
     else if c = CHR ''+'' then Some 62 else if c = CHR ''/'' then Some 63 else None)"

fun b64_encode :: "string \<Rightarrow> string" where
  "b64_encode [] = []"
| "b64_encode [a] = [b64_char (code a div 4), b64_char (code a mod 4 * 16), CHR ''='', CHR ''='']"
| "b64_encode [a, b] =
    [b64_char (code a div 4), b64_char (code a mod 4 * 16 + code b div 16),
     b64_char (code b mod 16 * 4), CHR ''='']"
| "b64_encode (a # b # c # s) =
    [b64_char (code a div 4), b64_char (code a mod 4 * 16 + code b div 16),
     b64_char (code b mod 16 * 4 + code c div 64), b64_char (code c mod 64)] @ b64_encode s"

fun b64_quads :: "string \<Rightarrow> string option" where
  "b64_quads [] = Some []"
| "b64_quads (a # b # c # d # s) =
    (case (b64_value a, b64_value b) of
       (Some w, Some x) \<Rightarrow>
         if c = CHR ''='' then
           (if d = CHR ''='' \<and> s = [] then Some [char_of (4 * w + x div 16)] else None)
         else (case b64_value c of
            None \<Rightarrow> None
          | Some y \<Rightarrow>
              if d = CHR ''='' then
                (if s = [] then Some [char_of (4 * w + x div 16), char_of (x mod 16 * 16 + y div 4)]
                 else None)
              else (case (b64_value d, b64_quads s) of
                 (Some z, Some r) \<Rightarrow>
                   Some ([char_of (4 * w + x div 16), char_of (x mod 16 * 16 + y div 4),
                          char_of (y mod 4 * 64 + z)] @ r)
               | _ \<Rightarrow> None))
     | _ \<Rightarrow> None)"
| "b64_quads _ = None"

text \<open>The decoder skips line ends wherever they stand.\<close>

definition b64_decode :: "string \<Rightarrow> string option" where
  "b64_decode s = b64_quads (filter (\<lambda>c. code c \<noteq> 10 \<and> code c \<noteq> 13) s)"

section \<open>Quoting and unquoting are inverse\<close>

declare json_quote.simps(2) [simp del]

lemma hex_value_hex_char [simp]: "d < 16 \<Longrightarrow> hex_value (hex_char d) = Some d"
  by (auto simp: hex_value_def hex_char_def)

lemma hex_value_zero [simp]: "hex_value CHR ''0'' = Some 0"
  by (simp add: hex_value_def)

lemma code_less_256: "code c < 256"
  using of_char_mod_256 [of c, where ?'a = nat] mod_less_divisor [of 256 "code c"] by linarith

lemma utf8_size_le: "utf8_size s \<le> length s"
  by (cases s) (auto simp: utf8_size.simps split: list.split)

lemma utf8_size_prefix:
  "utf8_size (a # s) = n \<Longrightarrow> n \<noteq> 0 \<Longrightarrow> utf8_size (take n (a # s) @ r) = n"
  by (auto simp: utf8_size.simps split: list.splits if_splits)

lemma utf8_multibyte: "\<not> code a < 128 \<Longrightarrow> utf8_size (a # s) \<noteq> 0 \<Longrightarrow> 2 \<le> utf8_size (a # s)"
  by (auto simp: utf8_size.simps split: list.splits if_splits)

text \<open>The bytes after the first of a multi-byte rune are continuation bytes.\<close>

lemma utf8_tail_cont:
  "\<not> code a < 128 \<Longrightarrow> c \<in> set (take (utf8_size (a # s)) (a # s)) \<Longrightarrow> 128 \<le> code c"
  by (auto simp: utf8_size.simps second_ok_def is_cont_def split: list.splits if_splits)

lemma json_unquote_Nil [simp]: "json_unquote [] = Some []"
  by (subst json_unquote.simps) simp

lemma json_unquote_plain:
  "c \<noteq> backslash \<Longrightarrow> c \<noteq> dquote \<Longrightarrow> 32 \<le> code c \<Longrightarrow> code c < 128 \<Longrightarrow>
     json_unquote (c # r) = map_option ((#) c) (json_unquote r)"
  by (subst json_unquote.simps) simp

lemma json_unquote_simple:
  "simple_escape e = Some x \<Longrightarrow>
     json_unquote (backslash # e # r) = map_option ((#) x) (json_unquote r)"
  by (subst json_unquote.simps) simp

lemma json_unquote_u:
  "hex4 h1 h2 h3 h4 = Some n \<Longrightarrow> n < 0xD800 \<Longrightarrow>
     json_unquote (backslash # CHR ''u'' # h1 # h2 # h3 # h4 # r) =
       map_option ((@) (encode_rune n)) (json_unquote r)"
  by (subst json_unquote.simps) (simp add: simple_escape_def u_escape_def)

lemma json_unquote_bytes:
  assumes "\<not> code a < 128" "utf8_size (a # s) \<noteq> 0"
  shows "json_unquote (take (utf8_size (a # s)) (a # s) @ r) =
    map_option ((@) (take (utf8_size (a # s)) (a # s))) (json_unquote r)"
proof -
  define n where "n = utf8_size (a # s)"
  define t where "t = take (n - 1) s"
  have t: "take n (a # s) = a # t" using assms by (cases n) (auto simp: t_def n_def)
  have "length (take n (a # s)) = n" using utf8_size_le [of "a # s"] by (simp add: n_def)
  then have n: "n = Suc (length t)" unfolding t by simp
  have "utf8_size ((a # t) @ r) = n"
    using utf8_size_prefix [of a s n r] assms(2) t by (simp add: n_def)
  moreover have "a \<noteq> backslash" "a \<noteq> dquote" using assms(1) by auto
  ultimately have "json_unquote ((a # t) @ r) = map_option ((@) (a # t)) (json_unquote r)"
    using assms n by (subst json_unquote.simps) (simp add: n_def [symmetric])
  then show ?thesis unfolding n_def [symmetric] t .
qed

lemma append_singleton: "(@) [c] = (#) c"
  by (simp add: fun_eq_iff)

lemma escape_ascii_unquote:
  assumes "code c < 128"
  shows "json_unquote (escape_ascii c @ r) = map_option ((#) c) (json_unquote r)"
proof -
  have hx: "hex4 CHR ''0'' CHR ''0'' (hex_char (code c div 16)) (hex_char (code c mod 16)) = Some (code c)"
    if "code c < 128"
    using that by (simp add: hex4_def)
  have "encode_rune (code c) = [c]" using assms by (simp add: encode_rune_def)
  then show ?thesis using assms json_unquote_u [OF hx, of r]
    by (auto simp: escape_ascii_def json_unquote_plain json_unquote_simple simple_escape_def
        append_singleton)
qed

lemma line_separators_unquote:
  "json_unquote (backslash # ''u2028'' @ r) =
     map_option ((@) [CHR 0xE2, CHR 0x80, CHR 0xA8]) (json_unquote r)"
  "json_unquote (backslash # ''u2029'' @ r) =
     map_option ((@) [CHR 0xE2, CHR 0x80, CHR 0xA9]) (json_unquote r)"
proof -
  have "hex4 CHR ''2'' CHR ''0'' CHR ''2'' CHR ''8'' = Some 0x2028"
    "hex4 CHR ''2'' CHR ''0'' CHR ''2'' CHR ''9'' = Some 0x2029"
    by (simp_all add: hex4_def hex_value_def)
  moreover have "encode_rune 0x2028 = [CHR 0xE2, CHR 0x80, CHR 0xA8]"
    "encode_rune 0x2029 = [CHR 0xE2, CHR 0x80, CHR 0xA9]"
    by (simp_all add: encode_rune_def char_of_eq_iff)
  ultimately show "json_unquote (backslash # ''u2028'' @ r) =
     map_option ((@) [CHR 0xE2, CHR 0x80, CHR 0xA8]) (json_unquote r)"
    "json_unquote (backslash # ''u2029'' @ r) =
     map_option ((@) [CHR 0xE2, CHR 0x80, CHR 0xA9]) (json_unquote r)"
    by (simp_all add: json_unquote_u)
qed

lemma json_unquote_quote: "valid_utf8 s \<Longrightarrow> json_unquote (json_quote s) = Some s"
proof (induction s rule: length_induct)
  case (1 s)
  show ?case
  proof (cases s)
    case (Cons a t)
    define n where "n = utf8_size (a # t)"
    have n: "n \<noteq> 0" "valid_utf8 (drop (n - 1) t)" using 1(2) Cons by (simp_all add: n_def)
    have "length (drop (n - 1) t) < length s" using Cons by simp
    with 1(1) n(2) have IH: "json_unquote (json_quote (drop (n - 1) t)) = Some (drop (n - 1) t)"
      by blast
    show ?thesis
    proof (cases "code a < 128")
      case True
      then have "n = 1" by (simp add: n_def utf8_size.simps)
      with IH True Cons show ?thesis
        by (simp add: json_quote.simps escape_ascii_unquote)
    next
      case False
      have ts: "take n (a # t) @ drop (n - 1) t = a # t" using n(1) by (cases n) auto
      have "json_unquote (json_quote (a # t)) = Some (take n (a # t) @ drop (n - 1) t)"
        using False n(1) IH json_unquote_bytes [OF False, of t]
        by (simp add: json_quote.simps Let_def n_def [symmetric] line_separators_unquote [simplified]
            del: take_Suc_Cons)
      then show ?thesis unfolding ts Cons .
    qed
  qed simp
qed

text \<open>What \<open>json_quote\<close> writes is the body of a literal: the scanner stops at the quote after it.\<close>

definition body_ok :: "string \<Rightarrow> bool" where
  "body_ok r \<longleftrightarrow> (\<forall>rest. scan_string (r @ dquote # rest) = Some (r, rest))"

lemma body_ok_Nil [simp]: "body_ok []"
  by (simp add: body_ok_def)

declare scan_string.simps(2) [simp del]

lemma body_ok_append:
  assumes "u \<noteq> []" "hd u \<noteq> dquote" "\<And>r. unit_size (u @ r) = Some (length u)" "body_ok s"
  shows "body_ok (u @ s)"
proof -
  obtain c t where u: "u = c # t" "c \<noteq> dquote" using assms(1,2) by (cases u) auto
  show ?thesis using assms(3,4) unfolding body_ok_def u(1)
    by (simp add: scan_string.simps(2) u(2))
qed

lemma unit_size_plain: "128 \<le> code c \<Longrightarrow> unit_size (c # r) = Some 1"
  by (auto simp: unit_size_def)

lemma body_ok_bytes: "(\<forall>c \<in> set u. 128 \<le> code c) \<Longrightarrow> body_ok s \<Longrightarrow> body_ok (u @ s)"
proof (induction u)
  case (Cons c u)
  then have "body_ok ([c] @ u @ s)"
    by (intro body_ok_append [of "[c]"]) (auto simp: unit_size_plain)
  then show ?case by simp
qed simp

lemma body_ok_u: "hex4 h1 h2 h3 h4 \<noteq> None \<Longrightarrow> body_ok s \<Longrightarrow>
    body_ok ([backslash, CHR ''u'', h1, h2, h3, h4] @ s)"
  by (rule body_ok_append) (auto simp: unit_size_def u_escape_def simple_escape_def)

lemma body_ok_simple: "simple_escape e \<noteq> None \<Longrightarrow> body_ok s \<Longrightarrow> body_ok ([backslash, e] @ s)"
  by (rule body_ok_append) (auto simp: unit_size_def)

lemma escape_ascii_cases:
  obtains (simple) e where "escape_ascii c = [backslash, e]" "simple_escape e \<noteq> None"
  | (hex) "escape_ascii c = [backslash, CHR ''u'', CHR ''0'', CHR ''0'',
      hex_char (code c div 16), hex_char (code c mod 16)]"
  | (plain) "escape_ascii c = [c]" "c \<noteq> dquote" "c \<noteq> backslash" "\<not> code c < 32"
proof -
  consider "c = dquote \<or> c = backslash" | "c = CHR 0x08" | "c = CHR 0x0C" | "c = CHR 0x0A"
    | "c = CHR 0x0D" | "c = CHR 0x09"
    | "\<not> (c = dquote \<or> c = backslash)" "c \<noteq> CHR 0x08" "c \<noteq> CHR 0x0C" "c \<noteq> CHR 0x0A"
      "c \<noteq> CHR 0x0D" "c \<noteq> CHR 0x09" by blast
  then show thesis
  proof cases
    case 1
    then show thesis by (intro simple [of c]) (auto simp: escape_ascii_def simple_escape_def)
  next
    case 2
    then show thesis using simple [of "CHR ''b''"] by (simp add: escape_ascii_def simple_escape_def)
  next
    case 3
    then show thesis using simple [of "CHR ''f''"] by (simp add: escape_ascii_def simple_escape_def)
  next
    case 4
    then show thesis using simple [of "CHR ''n''"] by (simp add: escape_ascii_def simple_escape_def)
  next
    case 5
    then show thesis using simple [of "CHR ''r''"] by (simp add: escape_ascii_def simple_escape_def)
  next
    case 6
    then show thesis using simple [of "CHR ''t''"] by (simp add: escape_ascii_def simple_escape_def)
  next
    case 7
    then show thesis using hex plain unfolding escape_ascii_def by presburger
  qed
qed

lemma body_ok_escape_ascii:
  assumes "code c < 128" "body_ok s"
  shows "body_ok (escape_ascii c @ s)"
proof (cases c rule: escape_ascii_cases)
  case (simple e)
  then show ?thesis using body_ok_simple assms(2) by simp
next
  case hex
  have "hex4 CHR ''0'' CHR ''0'' (hex_char (code c div 16)) (hex_char (code c mod 16)) \<noteq> None"
    using assms(1) by (simp add: hex4_def)
  then show ?thesis using body_ok_u assms(2) hex by simp
next
  case plain
  then show ?thesis using body_ok_append [of "[c]" s] assms(2) by (simp add: unit_size_def)
qed

lemma body_ok_quote: "body_ok (json_quote s)"
proof (induction s rule: length_induct)
  case (1 s)
  show ?case
  proof (cases s)
    case (Cons a t)
    define n where "n = utf8_size (a # t)"
    have d: "body_ok (json_quote (drop k t))" for k using 1 Cons by simp
    show ?thesis
    proof (cases "code a < 128")
      case True
      with d [of 0] Cons show ?thesis by (simp add: json_quote.simps body_ok_escape_ascii)
    next
      case False
      have u: "hex4 CHR ''2'' CHR ''0'' CHR ''2'' CHR ''8'' \<noteq> None"
        "hex4 CHR ''2'' CHR ''0'' CHR ''2'' CHR ''9'' \<noteq> None"
        "hex4 CHR ''f'' CHR ''f'' CHR ''f'' CHR ''d'' \<noteq> None"
        by (simp_all add: hex4_def hex_value_def)
      have b: "\<forall>c \<in> set (take n (a # t)). 128 \<le> code c"
        using utf8_tail_cont [OF False] by (auto simp: n_def)
      show ?thesis
        using False d d [of 0] body_ok_bytes [OF b] body_ok_u [OF u(1)] body_ok_u [OF u(2)]
          body_ok_u [OF u(3)] unfolding Cons
        by (simp add: json_quote.simps Let_def n_def [symmetric] del: take_Suc_Cons)
    qed
  qed simp
qed

section \<open>Base64 round trip\<close>

lemma b64_value_char [simp]: "n < 64 \<Longrightarrow> b64_value (b64_char n) = Some n"
  by (auto simp: b64_value_def b64_char_def)

lemma b64_char_neq: "n < 64 \<Longrightarrow> b64_char n \<noteq> CHR ''='' \<and> code (b64_char n) \<noteq> 10 \<and> code (b64_char n) \<noteq> 13"
proof -
  assume "n < 64"
  then have "b64_value (b64_char n) = Some n" by simp
  then show ?thesis by (auto simp: b64_value_def split: if_splits)
qed

lemma code_div: "code c div 4 < 64" "code c div 16 < 16" "code c div 64 < 4"
  by (simp_all add: less_mult_imp_div_less)

lemma code_bounds: "code a mod 4 * 16 + code b div 16 < 64"
  "code b mod 16 * 4 + code c div 64 < 64" "code a mod 4 * 16 < 64" "code b mod 16 * 4 < 64"
proof -
  have "code a mod 4 < 4" "code b mod 16 < 16" by simp_all
  then show "code a mod 4 * 16 + code b div 16 < 64"
    "code b mod 16 * 4 + code c div 64 < 64" "code a mod 4 * 16 < 64" "code b mod 16 * 4 < 64"
    using code_div(2) [of b] code_div(3) [of c] by linarith+
qed

lemma sextets:
  "char_of (4 * (code a div 4) + (code a mod 4 * 16 + code b div 16) div 16) = a"
  "char_of ((code a mod 4 * 16 + code b div 16) mod 16 * 16 + (code b mod 16 * 4 + code c div 64) div 4) = b"
  "char_of ((code b mod 16 * 4 + code c div 64) mod 4 * 64 + code c mod 64) = c"
  "char_of (4 * (code a div 4) + code a mod 4) = a"
  "char_of ((code a mod 4 * 16 + code b div 16) mod 16 * 16 + code b mod 16) = b"
  using code_div(2) [of b] code_div(3) [of c] by simp_all

lemma b64_encode_clean: "filter (\<lambda>c. code c \<noteq> 10 \<and> code c \<noteq> 13) (b64_encode s) = b64_encode s"
  by (induction s rule: b64_encode.induct) (simp_all add: b64_char_neq code_bounds code_div)

lemma b64_quads_encode: "b64_quads (b64_encode s) = Some s"
  by (induction s rule: b64_encode.induct)
    (simp_all add: b64_char_neq code_bounds code_div sextets)

lemma b64_decode_encode [simp]: "b64_decode (b64_encode s) = Some s"
  by (simp add: b64_decode_def b64_encode_clean b64_quads_encode)

section \<open>Decoded strings are valid\<close>

lemma valid_utf8_append: "valid_utf8 x \<Longrightarrow> valid_utf8 y \<Longrightarrow> valid_utf8 (x @ y)"
proof (induction x rule: valid_utf8.induct)
  case (2 a s)
  define n where "n = utf8_size (a # s)"
  have n: "n \<noteq> 0" "n \<le> length (a # s)" using 2(2) utf8_size_le [of "a # s"] by (simp_all add: n_def)
  have "a # s @ y = take n (a # s) @ drop n (a # s) @ y" by (metis append_Cons append_assoc append_take_drop_id)
  then have "utf8_size (a # s @ y) = n" using utf8_size_prefix [of a s n "drop n (a # s) @ y"] n(1) n_def by metis
  moreover have "drop (n - 1) (s @ y) = drop (n - 1) s @ y" using n by simp
  ultimately show ?case using 2 n n_def by simp
qed simp

lemma valid_utf8_rune: "utf8_size (a # s) = n \<Longrightarrow> n \<noteq> 0 \<Longrightarrow> valid_utf8 (take n (a # s))"
proof -
  assume n: "utf8_size (a # s) = n" "n \<noteq> 0"
  then obtain m where m: "n = Suc m" by (cases n) auto
  have "utf8_size (take n (a # s)) = n" using utf8_size_prefix [OF n, of "[]"] by simp
  then show ?thesis using m by simp
qed

lemma valid_utf8_2:
  fixes a b :: nat assumes "2 \<le> a" "a < 32" "b < 64"
  shows "valid_utf8 [char_of (192 + a), char_of (128 + b)]"
  using assms by (simp add: utf8_size.simps is_cont_def)

lemma valid_utf8_3:
  fixes a b c :: nat assumes "a < 16" "b < 64" "c < 64" "a = 0 \<longrightarrow> 32 \<le> b" "a = 13 \<longrightarrow> b < 32"
  shows "valid_utf8 [char_of (224 + a), char_of (128 + b), char_of (128 + c)]"
  using assms by (simp add: utf8_size.simps is_cont_def second_ok_def)

lemma valid_utf8_4:
  fixes a b c d :: nat assumes "a < 5" "b < 64" "c < 64" "d < 64" "a = 0 \<longrightarrow> 16 \<le> b" "a = 4 \<longrightarrow> b < 16"
  shows "valid_utf8 [char_of (240 + a), char_of (128 + b), char_of (128 + c), char_of (128 + d)]"
  using assms by (simp add: utf8_size.simps is_cont_def second_ok_def)

lemma valid_encode_rune:
  assumes "r < 0x110000" "\<not> (0xD800 \<le> r \<and> r < 0xE000)"
  shows "valid_utf8 (encode_rune r)"
proof -
  have q3: "(q div 64 = 0 \<longrightarrow> 32 \<le> q mod 64) \<and> (q div 64 = 13 \<longrightarrow> q mod 64 < 32)"
    if "32 \<le> q" "q < 864 \<or> 896 \<le> q" for q :: nat
  proof -
    have "q = 64 * (q div 64) + q mod 64" "q mod 64 < 64" by simp_all
    then show ?thesis using that by linarith
  qed
  have q4: "(q div 64 = 0 \<longrightarrow> 16 \<le> q mod 64) \<and> (q div 64 = 4 \<longrightarrow> q mod 64 < 16)"
    if "16 \<le> q" "q < 272" for q :: nat
  proof -
    have "q = 64 * (q div 64) + q mod 64" by simp
    then show ?thesis using that by linarith
  qed
  consider "r < 128" | "128 \<le> r" "r < 2048" | "2048 \<le> r" "r < 65536" | "65536 \<le> r" by linarith
  then show ?thesis
  proof cases
    case 1
    then show ?thesis by (simp add: encode_rune_def utf8_size.simps)
  next
    case 2
    then have "encode_rune r = [char_of (192 + r div 64), char_of (128 + r mod 64)]" by (simp add: encode_rune_def)
    moreover have "2 \<le> r div 64" "r div 64 < 32" "r mod 64 < 64" using 2 by linarith+
    ultimately show ?thesis using valid_utf8_2 by metis
  next
    case 3
    have e: "encode_rune r = [char_of (224 + r div 64 div 64), char_of (128 + r div 64 mod 64), char_of (128 + r mod 64)]"
      using 3 by (simp add: encode_rune_def div_mult2_eq [symmetric])
    have "32 \<le> r div 64" "r div 64 < 864 \<or> 896 \<le> r div 64" "r div 64 div 64 < 16" using 3 assms(2) by linarith+
    then show ?thesis unfolding e using q3 [of "r div 64"] by (intro valid_utf8_3) simp_all
  next
    case 4
    have e: "encode_rune r = [char_of (240 + r div 4096 div 64), char_of (128 + r div 4096 mod 64),
        char_of (128 + r div 64 mod 64), char_of (128 + r mod 64)]"
      using 4 by (simp add: encode_rune_def div_mult2_eq [symmetric])
    have "16 \<le> r div 4096" "r div 4096 < 272" "r div 4096 div 64 < 5" using 4 assms(1) by linarith+
    then show ?thesis unfolding e using q4 [of "r div 4096"] by (intro valid_utf8_4) simp_all
  qed
qed

lemma hex_value_bound: "hex_value c = Some n \<Longrightarrow> n < 16"
  by (auto simp: hex_value_def split: if_splits)

lemma u_escape_bound: "u_escape s = Some r \<Longrightarrow> r < 65536"
  by (auto simp: u_escape_def hex4_def dest!: hex_value_bound split: list.splits if_splits option.splits)

lemma valid_utf8_ascii_Cons: "code c < 128 \<Longrightarrow> valid_utf8 (c # s) = valid_utf8 s"
  by (simp add: utf8_size.simps)

lemma simple_escape_ascii: "simple_escape e = Some x \<Longrightarrow> code x < 128"
  by (auto simp: simple_escape_def split: if_splits)

text \<open>One step of decoding: a valid piece of text for at least one byte of the literal.\<close>

definition unquotes_to :: "string \<Rightarrow> string \<Rightarrow> nat \<Rightarrow> bool" where
  "unquotes_to b piece n \<longleftrightarrow>
     valid_utf8 piece \<and> 0 < n \<and> json_unquote b = map_option ((@) piece) (json_unquote (drop n b))"

lemma unquotes_u_escape:
  assumes b: "b = backslash # e # t" "simple_escape e = None" "u_escape b = Some r"
  shows "\<exists>piece n. unquotes_to b piece n"
proof -
  have eq: "json_unquote b =
      (if 0xD800 \<le> r \<and> r < 0xE000 then
         (case u_escape (drop 6 b) of
            Some r2 \<Rightarrow>
              if r < 0xDC00 \<and> 0xDC00 \<le> r2 \<and> r2 < 0xE000 then
                map_option ((@) (encode_rune (0x10000 + (r - 0xD800) * 1024 + (r2 - 0xDC00)))) (json_unquote (drop 12 b))
              else map_option ((@) (encode_rune rune_error)) (json_unquote (drop 6 b))
          | None \<Rightarrow> map_option ((@) (encode_rune rune_error)) (json_unquote (drop 6 b)))
       else map_option ((@) (encode_rune r)) (json_unquote (drop 6 b)))"
    using b by (subst json_unquote.simps) simp
  show ?thesis
  proof (cases "0xD800 \<le> r \<and> r < 0xE000")
    case False
    then have "valid_utf8 (encode_rune r)" using u_escape_bound [OF b(3)] by (intro valid_encode_rune) auto
    then show ?thesis using eq False unfolding unquotes_to_def
      by (intro exI [of _ "encode_rune r"] exI [of _ 6]) auto
  next
    case surrogate: True
    show ?thesis
    proof (cases "\<exists>r2. u_escape (drop 6 b) = Some r2 \<and> r < 0xDC00 \<and> 0xDC00 \<le> r2 \<and> r2 < 0xE000")
      case True
      then obtain r2 where r2: "u_escape (drop 6 b) = Some r2" "r < 0xDC00" "0xDC00 \<le> r2" "r2 < 0xE000" by blast
      let ?x = "0x10000 + (r - 0xD800) * 1024 + (r2 - 0xDC00)"
      have "valid_utf8 (encode_rune ?x)" using r2 surrogate by (intro valid_encode_rune) auto
      then show ?thesis using eq r2 surrogate unfolding unquotes_to_def
        by (intro exI [of _ "encode_rune ?x"] exI [of _ 12]) simp
    next
      case False
      moreover have "valid_utf8 (encode_rune rune_error)" by (rule valid_encode_rune) simp_all
      ultimately show ?thesis using eq surrogate unfolding unquotes_to_def
        by (intro exI [of _ "encode_rune rune_error"] exI [of _ 6]) (cases "u_escape (drop 6 b)"; auto)
    qed
  qed
qed

lemma unquotes_step:
  assumes "json_unquote (c # t) = Some s"
  shows "\<exists>piece n. unquotes_to (c # t) piece n"
proof -
  have err: "valid_utf8 (encode_rune rune_error)" by (rule valid_encode_rune) simp_all
  have piece: "\<exists>piece n. unquotes_to (c # t) piece n"
    if "valid_utf8 p" "0 < n" "json_unquote (c # t) = map_option ((@) p) (json_unquote (drop n (c # t)))" for p n
    using that unfolding unquotes_to_def by blast
  note unfold = json_unquote.simps [of "c # t"]
  consider "c = backslash" | "c \<noteq> backslash" "code c < 128" | "c \<noteq> backslash" "\<not> code c < 128" "utf8_size (c # t) = 0" |
    "c \<noteq> backslash" "\<not> code c < 128" "0 < utf8_size (c # t)" by linarith
  then show ?thesis
  proof cases
    case 1
    then obtain e t' where t: "t = e # t'" using assms by (cases t) (simp_all add: json_unquote.simps [of "[backslash]"])
    show ?thesis
    proof (cases "simple_escape e")
      case None
      then obtain r where "u_escape (c # t) = Some r" using assms 1 t
        by (auto simp: json_unquote.simps [of "backslash # e # t'"] split: option.splits)
      then show ?thesis using unquotes_u_escape [of "c # t" e t' r] 1 t None by simp
    next
      case (Some x)
      then show ?thesis using piece [of "[x]" 2] 1 t simple_escape_ascii [OF Some]
        by (auto simp: json_unquote.simps [of "backslash # e # t'"] valid_utf8_ascii_Cons map_option_case split: option.split
            simp del: valid_utf8.simps(2))
    qed
  next
    case 2
    then show ?thesis using piece [of "[c]" 1] assms
      by (auto simp: unfold valid_utf8_ascii_Cons map_option_case split: option.splits if_splits simp del: valid_utf8.simps(2))
  next
    case 3
    then show ?thesis using piece [OF err, of 1] assms by (auto simp: unfold split: if_splits)
  next
    case 4
    then show ?thesis using piece [OF valid_utf8_rune [OF refl], of c t] assms by (auto simp: unfold Let_def split: if_splits)
  qed
qed

text \<open>Decoding yields valid UTF-8 whatever the literal holds.\<close>

lemma json_unquote_valid: "json_unquote b = Some s \<Longrightarrow> valid_utf8 s"
proof (induction b arbitrary: s rule: measure_induct_rule [where f = length])
  case (less b)
  show ?case
  proof (cases b)
    case (Cons c t)
    then obtain piece n where "valid_utf8 piece" "0 < n" "json_unquote b = map_option ((@) piece) (json_unquote (drop n b))"
      using unquotes_step [of c t s] less.prems by (auto simp: unquotes_to_def)
    then show ?thesis using less.prems less.IH [of "drop n b"] Cons by (auto intro: valid_utf8_append)
  qed (use less.prems in simp)
qed

end
