(* ===== verification/Go_Time.thy ===== *)
theory Go_Time
  imports Go_Base
begin

text \<open>
  The part of package \<open>time\<close> that a job's JSON form needs: the proleptic Gregorian
  calendar, \<open>Time.MarshalJSON\<close> (RFC 3339 with nanoseconds, years 0 to 9999) and
  \<open>Time.UnmarshalJSON\<close>, with the proof that reading what was written gives the instant back.
\<close>

section \<open>Calendar\<close>

text \<open>
  Years are counted from March, so that the leap day is the last day of a year. A cycle of
  400 years has 146097 days: \<open>year_of_cycle\<close> splits a day of the cycle into the year and the
  day of that year, \<open>month_of_year\<close> a day of a year into the month (0 for March) and the day.
\<close>

definition year_of_cycle :: "int \<Rightarrow> int \<times> int" where
  "year_of_cycle doe =
    (let c = min 3 (doe div 36524); r1 = doe - 36524 * c;
         q = r1 div 1461; r2 = r1 mod 1461; y1 = min 3 (r2 div 365)
     in (100 * c + 4 * q + y1, r2 - 365 * y1))"

definition month_of_year :: "int \<Rightarrow> int \<times> int" where
  "month_of_year doy =
    (let mp = (5 * doy + 2) div 153 in (mp, doy - (153 * mp + 2) div 5 + 1))"

definition civil_of_days :: "int \<Rightarrow> int \<times> int \<times> int" where
  "civil_of_days n =
    (case year_of_cycle ((n + 719468) mod 146097) of (yoe, doy) \<Rightarrow>
       case month_of_year doy of (mp, d) \<Rightarrow>
         let m = (if mp < 10 then mp + 3 else mp - 9);
             y = 400 * ((n + 719468) div 146097) + yoe
         in ((if m \<le> 2 then y + 1 else y), m, d))"

definition days_of_civil :: "int \<Rightarrow> int \<Rightarrow> int \<Rightarrow> int" where
  "days_of_civil y m d =
    (let y' = (if m \<le> 2 then y - 1 else y); era = y' div 400; yoe = y' mod 400;
         doy = (153 * (if m > 2 then m - 3 else m + 9) + 2) div 5 + d - 1
     in era * 146097 + (yoe * 365 + yoe div 4 - yoe div 100 + doy) - 719468)"

lemma year_of_cycle_inverse:
  assumes "0 \<le> doe" "doe < 146097" "year_of_cycle doe = (yoe, doy)"
  shows "0 \<le> yoe" "yoe < 400" "0 \<le> doy" "doy \<le> 365"
    and "yoe * 365 + yoe div 4 - yoe div 100 + doy = doe"
proof -
  define c where "c = min 3 (doe div 36524)"
  define r1 where "r1 = doe - 36524 * c"
  define q where "q = r1 div 1461"
  define r2 where "r2 = r1 mod 1461"
  define y1 where "y1 = min 3 (r2 div 365)"
  have yoe: "yoe = 100 * c + 4 * q + y1" and doy: "doy = r2 - 365 * y1"
    using assms(3) unfolding year_of_cycle_def Let_def c_def r1_def q_def r2_def y1_def
    by simp_all
  have c: "0 \<le> c" "c \<le> 3" using assms(1) by (auto simp: c_def)
  have "36524 * (doe div 36524) \<le> doe" "doe < 36524 * (doe div 36524) + 36524" by simp_all
  then have r1: "0 \<le> r1" "r1 \<le> 36524"
    using assms(1,2) unfolding r1_def c_def min_def by (smt (verit))+
  have q: "0 \<le> q" "q \<le> 24" using r1 by (auto simp: q_def)
  have r2: "0 \<le> r2" "r2 < 1461" by (auto simp: r2_def)
  have y1: "0 \<le> y1" "y1 \<le> 3" using r2 by (auto simp: y1_def)
  show "0 \<le> yoe" "yoe < 400" using c q y1 by (auto simp: yoe)
  have "365 * (r2 div 365) \<le> r2" "r2 < 365 * (r2 div 365) + 365" by simp_all
  then show "0 \<le> doy" "doy \<le> 365" using r2 unfolding doy y1_def min_def by (smt (verit))+
  have "yoe div 4 = 25 * c + q" using y1 unfolding yoe by (intro int_div_pos_eq [where r = y1]) auto
  moreover have "yoe div 100 = c"
    using q y1 unfolding yoe by (intro int_div_pos_eq [where r = "4 * q + y1"]) auto
  moreover have "r1 = 1461 * q + r2" by (simp add: q_def r2_def)
  ultimately show "yoe * 365 + yoe div 4 - yoe div 100 + doy = doe"
    by (simp add: yoe doy r1_def)
qed

lemma month_of_year_inverse:
  assumes "0 \<le> doy" "doy \<le> 365" "month_of_year doy = (mp, d)"
  shows "0 \<le> mp" "mp \<le> 11" "1 \<le> d" "d \<le> 31" "(153 * mp + 2) div 5 + d - 1 = doy"
proof -
  define k where "k = (153 * mp + 2) div 5"
  have mp: "mp = (5 * doy + 2) div 153" and d: "d = doy - k + 1"
    using assms(3) by (auto simp: month_of_year_def Let_def k_def)
  have b: "153 * mp \<le> 5 * doy + 2" "5 * doy + 2 < 153 * mp + 153" unfolding mp by simp_all
  have k: "5 * k \<le> 153 * mp + 2" "153 * mp + 2 < 5 * k + 5" unfolding k_def by simp_all
  show "0 \<le> mp" "mp \<le> 11" using assms(1,2) b by linarith+
  show "1 \<le> d" "d \<le> 31" using b k unfolding d by linarith+
  show "(153 * mp + 2) div 5 + d - 1 = doy" by (simp add: d k_def)
qed

lemma civil_of_days_inverse:
  assumes "civil_of_days n = (y, m, d)"
  shows "days_of_civil y m d = n" "1 \<le> m" "m \<le> 12" "1 \<le> d" "d \<le> 31"
proof -
  define era where "era = (n + 719468) div 146097"
  define doe where "doe = (n + 719468) mod 146097"
  obtain yoe doy where yd: "year_of_cycle doe = (yoe, doy)" by fastforce
  obtain mp d' where md: "month_of_year doy = (mp, d')" by fastforce
  note f = year_of_cycle_inverse [OF _ _ yd, unfolded doe_def, simplified, folded doe_def]
  note g = month_of_year_inverse [OF f(3,4) md]
  have m: "m = (if mp < 10 then mp + 3 else mp - 9)" and d: "d = d'"
    and y: "y = (if m \<le> 2 then 400 * era + yoe + 1 else 400 * era + yoe)"
    using assms yd md by (auto simp: civil_of_days_def Let_def doe_def era_def)
  have y': "(if m \<le> 2 then y - 1 else y) = 400 * era + yoe" using y by auto
  have mp: "(if m > 2 then m - 3 else m + 9) = mp" using m g(1,2) by auto
  have era: "(400 * era + yoe) div 400 = era" "(400 * era + yoe) mod 400 = yoe"
    using f(1,2) by auto
  have "days_of_civil y m d = era * 146097 + doe - 719468"
    unfolding days_of_civil_def Let_def y' mp era d using f(5) g(5) by linarith
  also have "\<dots> = n" by (simp add: era_def doe_def)
  finally show "days_of_civil y m d = n" .
  show "1 \<le> m" "m \<le> 12" "1 \<le> d" "d \<le> 31" using m g d by auto
qed

definition is_leap :: "int \<Rightarrow> bool" where
  "is_leap y \<longleftrightarrow> y mod 4 = 0 \<and> (y mod 100 \<noteq> 0 \<or> y mod 400 = 0)"

definition days_in :: "int \<Rightarrow> int \<Rightarrow> int" where
  "days_in m y = (if m = 2 then (if is_leap y then 29 else 28)
     else if m = 4 \<or> m = 6 \<or> m = 9 \<or> m = 11 then 30 else 31)"

lemma year_of_cycle_leap:
  assumes "0 \<le> doe" "doe < 146097" "year_of_cycle doe = (yoe, 365)"
  shows "is_leap (400 * era + yoe + 1)"
proof -
  define c where "c = min 3 (doe div 36524)"
  define r1 where "r1 = doe - 36524 * c"
  define q where "q = r1 div 1461"
  define r2 where "r2 = r1 mod 1461"
  define y1 where "y1 = min 3 (r2 div 365)"
  have yoe: "yoe = 100 * c + 4 * q + y1" and doy: "r2 - 365 * y1 = 365"
    using assms(3) unfolding year_of_cycle_def Let_def c_def r1_def q_def r2_def y1_def
    by simp_all
  have r2: "r2 < 1461" by (simp add: r2_def)
  have "365 * (r2 div 365) \<le> r2" "r2 < 365 * (r2 div 365) + 365" by simp_all
  with doy r2 have y1: "y1 = 3" "r2 = 1460" unfolding y1_def min_def by (smt (verit))+
  have d: "36524 * (doe div 36524) \<le> doe" "doe < 36524 * (doe div 36524) + 36524" by simp_all
  have r1: "r1 = 1461 * q + 1460" using y1(2) mult_div_mod_eq [of 1461 r1] unfolding q_def r2_def by linarith
  have c: "q \<le> 23 \<or> (q = 24 \<and> c = 3)" "0 \<le> q"
    using d r1 assms(1,2) unfolding r1_def c_def min_def by (smt (verit))+
  have y: "400 * era + yoe + 1 = 400 * era + 100 * c + 4 * (q + 1)" using y1 yoe by simp
  show ?thesis
  proof (cases "q = 24")
    case True
    with c have "400 * era + yoe + 1 = 400 * (era + 1)" using y by simp
    then show ?thesis by (simp add: is_leap_def)
  next
    case False
    with c have "(400 * era + yoe + 1) mod 100 = 4 * (q + 1)"
      unfolding y by (intro int_mod_pos_eq [where q = "4 * era + c"]) auto
    moreover have "(400 * era + yoe + 1) mod 4 = 0"
      unfolding y by (simp add: mod_eq_0_iff_dvd)
    ultimately show ?thesis using c by (simp add: is_leap_def)
  qed
qed

lemma month_of_year_length:
  assumes "0 \<le> doy" "doy \<le> 365" "month_of_year doy = (mp, d)"
  shows "d \<le> 30 \<or> mp \<in> {0, 2, 4, 5, 7, 9, 10}" "mp = 11 \<Longrightarrow> d = doy - 336"
proof -
  have mp: "mp = (5 * doy + 2) div 153" and d: "d = doy - (153 * mp + 2) div 5 + 1"
    using assms(3) by (auto simp: month_of_year_def Let_def)
  have b: "153 * mp \<le> 5 * doy + 2" "5 * doy + 2 < 153 * mp + 153" unfolding mp by simp_all
  have "mp \<in> {0, 1, 2, 3, 4, 5, 6, 7, 8, 9, 10, 11}"
    using month_of_year_inverse(1,2) [OF assms] by simp presburger
  then show "d \<le> 30 \<or> mp \<in> {0, 2, 4, 5, 7, 9, 10}" using b d by auto
  show "mp = 11 \<Longrightarrow> d = doy - 336" using d by simp
qed

lemma civil_of_days_valid:
  assumes "civil_of_days n = (y, m, d)"
  shows "d \<le> days_in m y"
proof -
  define era where "era = (n + 719468) div 146097"
  define doe where "doe = (n + 719468) mod 146097"
  obtain yoe doy where yd: "year_of_cycle doe = (yoe, doy)" by fastforce
  obtain mp d' where md: "month_of_year doy = (mp, d')" by fastforce
  have doe: "0 \<le> doe" "doe < 146097" by (simp_all add: doe_def)
  note f = year_of_cycle_inverse [OF doe yd]
  note g = month_of_year_inverse [OF f(3,4) md]
  note h = month_of_year_length [OF f(3,4) md]
  have m: "m = (if mp < 10 then mp + 3 else mp - 9)" and d: "d = d'"
    and y: "y = (if m \<le> 2 then 400 * era + yoe + 1 else 400 * era + yoe)"
    using assms yd md by (auto simp: civil_of_days_def Let_def doe_def era_def)
  show ?thesis
  proof (cases "mp = 11")
    case True
    then have "m = 2" "d = doy - 336" using m d h(2) by auto
    moreover have "is_leap y" if "doy = 365"
      using year_of_cycle_leap [OF doe] yd that y \<open>m = 2\<close> by simp
    ultimately show ?thesis using f(4) by (cases "doy = 365") (auto simp: days_in_def)
  next
    case False
    then show ?thesis using m d h(1) g by (auto simp: days_in_def)
  qed
qed

section \<open>RFC 3339 text\<close>

definition pad2 :: "nat \<Rightarrow> string" where
  "pad2 n = [digit_char (n div 10), digit_char (n mod 10)]"

definition pad4 :: "nat \<Rightarrow> string" where
  "pad4 n = pad2 (n div 100) @ pad2 (n mod 100)"

fun pad_digits :: "nat \<Rightarrow> nat \<Rightarrow> string" where
  "pad_digits 0 n = []"
| "pad_digits (Suc k) n = pad_digits k (n div 10) @ [digit_char (n mod 10)]"

definition trim_zeros :: "string \<Rightarrow> string" where
  "trim_zeros s = rev (dropWhile (\<lambda>c. c = CHR ''0'') (rev s))"

definition format_fraction :: "nat \<Rightarrow> string" where
  "format_fraction ns = (if ns = 0 then [] else CHR ''.'' # trim_zeros (pad_digits 9 ns))"

definition format_zone :: "int \<Rightarrow> string" where
  "format_zone off =
    (if off = 0 then ''Z''
     else let z = go_div off 60 in
       (if z < 0 then CHR ''-'' else CHR ''+'') #
         pad2 (nat (\<bar>z\<bar> div 60)) @ '':'' @ pad2 (nat (\<bar>z\<bar> mod 60)))"

text \<open>\<open>Time.Format(time.RFC3339Nano)\<close> and, without a fraction, \<open>time.RFC3339\<close>.\<close>

definition format_seconds :: "int \<Rightarrow> string" where
  "format_seconds s =
    (case civil_of_days (s div 86400) of (y, m, d) \<Rightarrow>
       pad4 (nat y) @ ''-'' @ pad2 (nat m) @ ''-'' @ pad2 (nat d) @ ''T'' @
       pad2 (nat (s mod 86400 div 3600)) @ '':'' @ pad2 (nat (s mod 3600 div 60)) @ '':'' @
       pad2 (nat (s mod 60)))"

definition format_RFC3339 :: "gotime \<Rightarrow> string" where
  "format_RFC3339 t = format_seconds (t_ns t div second + t_off t) @ format_zone (t_off t)"

definition format_RFC3339Nano :: "gotime \<Rightarrow> string" where
  "format_RFC3339Nano t =
     format_seconds (t_ns t div second + t_off t) @
     format_fraction (nat (t_ns t mod second)) @ format_zone (t_off t)"

text \<open>
  \<open>Time.MarshalJSON\<close> refuses a year outside 0 to 9999 and a zone of a day or more.
\<close>

definition time_year :: "gotime \<Rightarrow> int" where
  "time_year t = fst (civil_of_days ((t_ns t div second + t_off t) div 86400))"

definition marshal_time :: "gotime \<Rightarrow> goerror + string" where
  "marshal_time t =
    (if time_year t < 0 \<or> time_year t > 9999
     then Inl (Errorf ''Time.MarshalJSON: year outside of range [0,9999]'')
     else if \<bar>go_div (t_off t) 60\<bar> div 60 \<ge> 24
     then Inl (Errorf ''Time.MarshalJSON: timezone hour outside of range [0,23]'')
     else Inr (CHR 0x22 # format_RFC3339Nano t @ [CHR 0x22]))"

subsection \<open>Reading it back\<close>

definition expect :: "char \<Rightarrow> string \<Rightarrow> string option" where
  "expect c s = (case s of [] \<Rightarrow> None | x # xs \<Rightarrow> if x = c then Some xs else None)"

definition digits2 :: "int \<Rightarrow> int \<Rightarrow> string \<Rightarrow> (int \<times> string) option" where
  "digits2 lo hi s =
    (case s of
       a # b # rest \<Rightarrow>
         (case (char_digit a, char_digit b) of
            (Some x, Some y) \<Rightarrow>
              (let n = int (10 * x + y) in if lo \<le> n \<and> n \<le> hi then Some (n, rest) else None)
          | _ \<Rightarrow> None)
     | _ \<Rightarrow> None)"

definition digits4 :: "string \<Rightarrow> (int \<times> string) option" where
  "digits4 s = do {
     (a, s) \<leftarrow> digits2 0 99 s;
     (b, s) \<leftarrow> digits2 0 99 s;
     Some (100 * a + b, s) }"

definition is_digit :: "char \<Rightarrow> bool" where
  "is_digit c \<longleftrightarrow> char_digit c \<noteq> None"

definition parse_fraction :: "string \<Rightarrow> nat \<times> string" where
  "parse_fraction s =
    (case s of
       p # d # rest \<Rightarrow>
         if p = CHR ''.'' \<and> is_digit d
         then (let ds = takeWhile is_digit (d # rest)
               in (the (parse_digits 0 (take 9 (ds @ replicate 9 CHR ''0''))),
                   dropWhile is_digit (d # rest)))
         else (0, s)
     | _ \<Rightarrow> (0, s))"

definition parse_zone :: "string \<Rightarrow> int option" where
  "parse_zone s =
    (if s = ''Z'' then Some 0
     else case s of
       [] \<Rightarrow> None
     | c # cs \<Rightarrow>
         if c = CHR ''+'' \<or> c = CHR ''-'' then do {
           (h, cs) \<leftarrow> digits2 0 23 cs;
           cs \<leftarrow> expect CHR '':'' cs;
           (m, cs) \<leftarrow> digits2 0 59 cs;
           (if cs = [] then Some ((if c = CHR ''-'' then -1 else 1) * (h * 3600 + m * 60))
            else None) }
         else None)"

definition parse_seconds :: "string \<Rightarrow> (int \<times> string) option" where
  "parse_seconds s = do {
     (y, s) \<leftarrow> digits4 s;
     s \<leftarrow> expect CHR ''-'' s;
     (m, s) \<leftarrow> digits2 1 12 s;
     s \<leftarrow> expect CHR ''-'' s;
     (d, s) \<leftarrow> digits2 1 (days_in m y) s;
     s \<leftarrow> expect CHR ''T'' s;
     (hh, s) \<leftarrow> digits2 0 23 s;
     s \<leftarrow> expect CHR '':'' s;
     (mm, s) \<leftarrow> digits2 0 59 s;
     s \<leftarrow> expect CHR '':'' s;
     (ss, s) \<leftarrow> digits2 0 59 s;
     Some (days_of_civil y m d * 86400 + hh * 3600 + mm * 60 + ss, s) }"

definition parse_RFC3339 :: "string \<Rightarrow> gotime option" where
  "parse_RFC3339 s = do {
     (secs, s) \<leftarrow> parse_seconds s;
     (let (ns, s) = parse_fraction s in do {
        off \<leftarrow> parse_zone s;
        Some (Time ((secs - off) * second + int ns) off) }) }"

subsection \<open>What was written is read back\<close>

lemma digits2_pad2:
  "0 \<le> n \<Longrightarrow> n < 100 \<Longrightarrow> lo \<le> n \<Longrightarrow> n \<le> hi \<Longrightarrow> digits2 lo hi (pad2 (nat n) @ rest) = Some (n, rest)"
  by (simp add: digits2_def pad2_def Let_def nat_less_iff)

lemma digits4_pad4:
  assumes "0 \<le> n" "n < 10000"
  shows "digits4 (pad4 (nat n) @ rest) = Some (n, rest)"
proof -
  define a b where "a = n div 100" "b = n mod 100"
  have ab: "pad4 (nat n) = pad2 (nat a) @ pad2 (nat b)"
    using assms(1) by (simp add: pad4_def a_b_def nat_div_distrib nat_mod_distrib)
  have "0 \<le> a" "a < 100" "0 \<le> b" "b < 100" using assms by (auto simp: a_b_def)
  moreover have "100 * a + b = n" by (simp add: a_b_def)
  ultimately show ?thesis by (simp add: digits4_def ab digits2_pad2)
qed

lemma expect_Cons [simp]: "expect c (c # s) = Some s"
  by (simp add: expect_def)

lemma parse_seconds_fields:
  assumes "0 \<le> y" "y < 10000" "1 \<le> m" "m \<le> 12" "1 \<le> d" "d \<le> days_in m y" "d \<le> 31"
    "0 \<le> hh" "hh \<le> 23" "0 \<le> mm" "mm \<le> 59" "0 \<le> ss" "ss \<le> 59"
  shows "parse_seconds (pad4 (nat y) @ ''-'' @ pad2 (nat m) @ ''-'' @ pad2 (nat d) @ ''T'' @
       pad2 (nat hh) @ '':'' @ pad2 (nat mm) @ '':'' @ pad2 (nat ss) @ rest) =
     Some (days_of_civil y m d * 86400 + hh * 3600 + mm * 60 + ss, rest)"
  using assms by (simp add: parse_seconds_def digits2_pad2 digits4_pad4)

lemma seconds_of_day:
  fixes s :: int
  shows "s div 86400 * 86400 + s mod 86400 div 3600 * 3600 + s mod 3600 div 60 * 60 + s mod 60 = s"
proof -
  have "s mod 86400 mod 3600 = s mod 3600" by (simp add: mod_mod_cancel)
  moreover have "s mod 3600 mod 60 = s mod 60" by (simp add: mod_mod_cancel)
  ultimately show ?thesis
    using div_mult_mod_eq [of s 86400] div_mult_mod_eq [of "s mod 86400" 3600]
      div_mult_mod_eq [of "s mod 3600" 60] by linarith
qed

lemma parse_format_seconds:
  assumes y: "0 \<le> fst (civil_of_days (s div 86400))" "fst (civil_of_days (s div 86400)) \<le> 9999"
  shows "parse_seconds (format_seconds s @ rest) = Some (s, rest)"
proof -
  obtain y m d where c: "civil_of_days (s div 86400) = (y, m, d)" by (metis prod_cases3)
  note r = civil_of_days_inverse [OF c] civil_of_days_valid [OF c]
  have h: "0 \<le> s mod 86400 div 3600" "s mod 86400 div 3600 \<le> 23"
    "0 \<le> s mod 3600 div 60" "s mod 3600 div 60 \<le> 59" "0 \<le> s mod 60" "s mod 60 \<le> 59"
    by (simp_all add: div_le_mono pos_mod_bound)
  have y: "0 \<le> y" "y < 10000" using y c by auto
  have "parse_seconds (format_seconds s @ rest) =
      Some (days_of_civil y m d * 86400 + s mod 86400 div 3600 * 3600
        + s mod 3600 div 60 * 60 + s mod 60, rest)"
    unfolding format_seconds_def c prod.case append_assoc
    by (rule parse_seconds_fields [OF y r(2-4) r(6,5) h])
  then show ?thesis by (simp only: r(1) seconds_of_day)
qed

lemma parse_zone_fields:
  assumes "0 \<le> h" "h \<le> 23" "0 \<le> m" "m \<le> 59"
  shows "parse_zone (CHR ''-'' # pad2 (nat h) @ '':'' @ pad2 (nat m)) = Some (- (h * 3600 + m * 60))"
    and "parse_zone (CHR ''+'' # pad2 (nat h) @ '':'' @ pad2 (nat m)) = Some (h * 3600 + m * 60)"
  using assms digits2_pad2 [of m 0 59 "[]"] by (simp_all add: parse_zone_def digits2_pad2)

lemma parse_format_zone:
  assumes "off mod 60 = 0" "\<bar>off\<bar> < 86400"
  shows "parse_zone (format_zone off) = Some off"
proof (cases "off = 0")
  case True
  then show ?thesis by (simp add: parse_zone_def format_zone_def)
next
  case False
  define z where "z = \<bar>off\<bar> div 60"
  have z: "\<bar>off\<bar> = 60 * z" using assms(1) by (simp add: z_def mod_eq_0_iff_dvd)
  have gd: "go_div off 60 = sgn off * z" by (simp add: go_div_def z_def)
  have "0 < z" "z < 1440" using z False assms(2) by auto
  define h m where "h = z div 60" "m = z mod 60"
  have hm: "0 \<le> h" "h \<le> 23" "0 \<le> m" "m \<le> 59"
    using \<open>0 < z\<close> \<open>z < 1440\<close> by (auto simp: h_m_def)
  have s: "h * 3600 + m * 60 = \<bar>off\<bar>"
    using z div_mult_mod_eq [of z 60] unfolding h_m_def by linarith
  have g: "\<bar>go_div off 60\<bar> = z" "go_div off 60 < 0 \<longleftrightarrow> off < 0"
    using False \<open>0 < z\<close> by (auto simp: gd sgn_if)
  have f: "format_zone off = (if off < 0 then CHR ''-'' else CHR ''+'') #
      pad2 (nat h) @ '':'' @ pad2 (nat m)"
    unfolding format_zone_def Let_def g h_m_def using False by simp
  show ?thesis unfolding f using parse_zone_fields [OF hm] s by (cases "off < 0") auto
qed

lemma pad_digits_parse: "parse_digits a (pad_digits k n) = Some (a * 10 ^ k + n mod 10 ^ k)"
proof (induction k arbitrary: n)
  case (Suc k)
  have "10 * (n div 10 mod 10 ^ k) + n mod 10 = n mod (10 * 10 ^ k)"
    by (simp add: mod_mult2_eq)
  with Suc show ?case by (simp add: parse_digits_append algebra_simps)
qed simp

lemma pad_digits_digits: "c \<in> set (pad_digits k n) \<Longrightarrow> is_digit c"
  by (induction k arbitrary: n) (auto simp: is_digit_def)

lemma length_pad_digits [simp]: "length (pad_digits k n) = k"
  by (induction k arbitrary: n) auto

lemma trim_zeros_pad: "\<exists>k. s = trim_zeros s @ replicate k CHR ''0''"
proof -
  have "rev s = takeWhile (\<lambda>c. c = CHR ''0'') (rev s) @ dropWhile (\<lambda>c. c = CHR ''0'') (rev s)"
    by simp
  moreover have "takeWhile (\<lambda>c. c = CHR ''0'') (rev s) =
      replicate (length (takeWhile (\<lambda>c. c = CHR ''0'') (rev s))) CHR ''0''"
    by (rule replicate_length_same [symmetric]) (auto dest: set_takeWhileD)
  ultimately show ?thesis
    by (metis rev_append rev_replicate rev_rev_ident trim_zeros_def)
qed

lemma trim_zeros_not_Nil: "parse_digits 0 s = Some n \<Longrightarrow> 0 < n \<Longrightarrow> trim_zeros s \<noteq> []"
proof
  assume p: "parse_digits 0 s = Some n" "0 < n" and "trim_zeros s = []"
  then obtain k where "s = replicate k CHR ''0''" using trim_zeros_pad [of s] by auto
  moreover have "parse_digits 0 (replicate k CHR ''0'') = Some 0"
    by (induction k) (auto simp: char_digit_def)
  ultimately show False using p by simp
qed

lemma is_digit_zone: "\<not> is_digit CHR ''Z''" "\<not> is_digit CHR ''+''" "\<not> is_digit CHR ''-''"
  by (simp_all add: is_digit_def char_digit_def)

lemma format_zone_hd: "\<exists>c cs. format_zone off = c # cs \<and> c \<in> {CHR ''Z'', CHR ''+'', CHR ''-''}"
  by (auto simp: format_zone_def Let_def)

lemma parse_fraction_digits:
  "is_digit d \<Longrightarrow> parse_fraction (CHR ''.'' # d # rest) =
     (the (parse_digits 0 (take 9 (takeWhile is_digit (d # rest) @ replicate 9 CHR ''0''))),
      dropWhile is_digit (d # rest))"
  by (simp only: parse_fraction_def list.case Let_def) simp

lemma parse_format_fraction:
  assumes "ns < 1000000000" "c \<in> {CHR ''Z'', CHR ''+'', CHR ''-''}"
  shows "parse_fraction (format_fraction ns @ c # cs) = (ns, c # cs)"
proof (cases "ns = 0")
  case True
  then show ?thesis using assms(2)
    by (auto simp: parse_fraction_def format_fraction_def split: list.split)
next
  case False
  define ds where "ds = trim_zeros (pad_digits 9 ns)"
  obtain k where k: "pad_digits 9 ns = ds @ replicate k CHR ''0''"
    using trim_zeros_pad [of "pad_digits 9 ns"] by (auto simp: ds_def)
  have "ds \<noteq> []" unfolding ds_def
    using False assms(1) by (intro trim_zeros_not_Nil [OF pad_digits_parse]) simp
  then obtain d rest where d: "ds = d # rest" by (cases ds) auto
  have dig: "\<forall>x \<in> set ds. is_digit x" using pad_digits_digits [of _ 9 ns] k by auto
  have nd: "\<not> is_digit c" using assms(2) is_digit_zone by auto
  have tw: "takeWhile is_digit (ds @ c # cs) = ds" "dropWhile is_digit (ds @ c # cs) = c # cs"
    using dig nd by (auto simp: takeWhile_append dropWhile_append)
  have "length ds \<le> 9" using arg_cong [OF k, of length] by simp
  moreover have "k = 9 - length ds" using arg_cong [OF k, of length] by simp
  ultimately have "take 9 (ds @ replicate 9 CHR ''0'') = pad_digits 9 ns" using k by simp
  then have "the (parse_digits 0 (take 9 (ds @ replicate 9 CHR ''0''))) = ns"
    using assms(1) by (simp only: pad_digits_parse) simp
  moreover have "is_digit d" using dig d by simp
  then have "parse_fraction (CHR ''.'' # ds @ c # cs) =
      (the (parse_digits 0 (take 9 (ds @ replicate 9 CHR ''0''))), c # cs)"
    using parse_fraction_digits [of d "rest @ c # cs"] tw unfolding d append_Cons
    by (simp only: append_Cons)
  ultimately show ?thesis using False by (simp add: format_fraction_def ds_def)
qed

definition time_wf :: "gotime \<Rightarrow> bool" where
  "time_wf t \<longleftrightarrow> 0 \<le> time_year t \<and> time_year t \<le> 9999 \<and> t_off t mod 60 = 0 \<and> \<bar>t_off t\<bar> < 86400"

lemma parse_format_RFC3339Nano:
  assumes "time_wf t"
  shows "parse_RFC3339 (format_RFC3339Nano t) = Some t"
proof -
  obtain c cs where z: "format_zone (t_off t) = c # cs" "c \<in> {CHR ''Z'', CHR ''+'', CHR ''-''}"
    using format_zone_hd by blast
  have p: "parse_zone (c # cs) = Some (t_off t)"
    using parse_format_zone [of "t_off t"] assms z(1) by (simp add: time_wf_def)
  have "nat (t_ns t mod second) < 1000000000" by simp
  note f = parse_format_fraction [OF this z(2)]
  show ?thesis using assms p f z(1)
    by (cases t) (simp add: parse_RFC3339_def format_RFC3339Nano_def parse_format_seconds
        time_wf_def time_year_def)
qed

lemma marshal_time_wf:
  "time_wf t \<Longrightarrow> marshal_time t = Inr (CHR 0x22 # format_RFC3339Nano t @ [CHR 0x22])"
proof -
  assume t: "time_wf t"
  then have "\<bar>go_div (t_off t) 60\<bar> div 60 < 24"
    by (auto simp: time_wf_def go_div_def abs_mult abs_sgn_eq)
  with t show ?thesis by (auto simp: marshal_time_def time_wf_def)
qed

lemma time_Unix_bounds:
  "time_wf t \<Longrightarrow> - 74784902400 \<le> time_Unix t \<and> time_Unix t < 253407571200"
proof -
  assume t: "time_wf t"
  define n where "n = (t_ns t div second + t_off t) div 86400"
  obtain yoe doy where y: "year_of_cycle ((n + 719468) mod 146097) = (yoe, doy)" by (rule prod.exhaust)
  obtain mp d where m: "month_of_year doy = (mp, d)" by (rule prod.exhaust)
  have "0 \<le> yoe" "yoe < 400" using year_of_cycle_inverse(1,2) [OF _ _ y] by auto
  moreover have "0 \<le> fst (civil_of_days n)" "fst (civil_of_days n) \<le> 9999"
    using t by (simp_all add: time_wf_def time_year_def n_def)
  ultimately have "- 400 \<le> 400 * ((n + 719468) div 146097)" "400 * ((n + 719468) div 146097) \<le> 9999"
    by (auto simp: civil_of_days_def y m Let_def split: if_splits)
  then have "- 1 \<le> (n + 719468) div 146097" "(n + 719468) div 146097 \<le> 24" by linarith+
  then have "- 865565 \<le> n" "n \<le> 2932956" by linarith+
  then have "- 74784816000 \<le> t_ns t div second + t_off t" "t_ns t div second + t_off t < 253407484800"
    unfolding n_def by linarith+
  moreover have "\<bar>t_off t\<bar> < 86400" using t by (simp add: time_wf_def)
  ultimately have "- 74784902400 \<le> time_Unix t" "time_Unix t < 253407571200"
    unfolding time_Unix_def by linarith+
  then show ?thesis by simp
qed

lemma time_Unix_range: "time_wf t \<Longrightarrow> int64_range (time_Unix t)"
  using time_Unix_bounds [of t] by (simp add: int64_range_def)

lemma time_Unix_Add_range:
  assumes "time_wf (time_UTC t)" "int64_range d"
  shows "int64_range (time_Unix (time_Add t d))"
proof -
  have "- 74784902400 \<le> t_ns t div second" "t_ns t div second < 253407571200"
    using time_Unix_bounds [OF assms(1)] by (simp_all add: time_Unix_def time_UTC_def)
  moreover have "- 9223372036854775808 \<le> d" "d < 9223372036854775808" using assms(2) by (simp_all add: int64_range_def)
  ultimately have "- 9223372036854775808 \<le> (t_ns t + d) div second" "(t_ns t + d) div second < 9223372036854775808"
    by linarith+
  then show ?thesis by (simp add: int64_range_def time_Unix_def time_Add_def)
qed

end
