(* ===== verification/Go_Json.thy ===== *)
theory Go_Json
  imports Go_Text Go_Time
begin

text \<open>
  The JSON documents of \<open>encoding/json\<close>: their text, the scanner that \<open>json.Unmarshal\<close> runs
  first, and the decoding of a document into the Go types the program uses (strings,
  integers, byte slices, string maps, times, structs). The texts of the library's own error
  messages are abbreviated.
\<close>

section \<open>Documents and their text\<close>

text \<open>
  A string literal and an object key keep their body as written (escapes not resolved), a
  number its literal, and every value inside an array or object its source text next to it,
  because \<open>json.RawMessage\<close> and the \<open>UnmarshalJSON\<close> methods receive that text.
\<close>

datatype json = JNull | JTrue | JFalse | JNum string | JStr string
  | JArr "(string \<times> json) list" | JObj "(string \<times> string \<times> json) list"

fun commas :: "string list \<Rightarrow> string" where
  "commas [] = []"
| "commas [x] = x"
| "commas (x # y # zs) = x @ CHR '','' # commas (y # zs)"

text \<open>The compact text that \<open>json.Marshal\<close> writes.\<close>

fun json_text :: "json \<Rightarrow> string" where
  "json_text JNull = ''null''"
| "json_text JTrue = ''true''"
| "json_text JFalse = ''false''"
| "json_text (JNum n) = n"
| "json_text (JStr b) = dquote # b @ [dquote]"
| "json_text (JArr xs) = CHR ''['' # commas (map fst xs) @ '']''"
| "json_text (JObj ms) =
     CHR ''{'' # commas (map (\<lambda>(k, r, v). dquote # k @ [dquote] @ '':'' @ r) ms) @ ''}''"

section \<open>The scanner\<close>

definition is_space :: "char \<Rightarrow> bool" where
  "is_space c \<longleftrightarrow> c = CHR '' '' \<or> c = CHR 0x09 \<or> c = CHR 0x0A \<or> c = CHR 0x0D"

definition skip_ws :: "string \<Rightarrow> string" where
  "skip_ws s = dropWhile is_space s"

definition scan_exponent :: "string \<Rightarrow> (string \<times> string) option" where
  "scan_exponent s =
    (case s of
       c # t \<Rightarrow>
         if c = CHR ''e'' \<or> c = CHR ''E'' then
           (let sg = (if t \<noteq> [] \<and> (hd t = CHR ''+'' \<or> hd t = CHR ''-'') then [hd t] else []);
                u = drop (length sg) t; ds = takeWhile is_digit u
            in if ds = [] then None else Some (c # sg @ ds, dropWhile is_digit u))
         else Some ([], s)
     | [] \<Rightarrow> Some ([], s))"

definition scan_fraction :: "string \<Rightarrow> (string \<times> string) option" where
  "scan_fraction s =
    (case s of
       c # t \<Rightarrow>
         if c = CHR ''.'' then
           (let ds = takeWhile is_digit t
            in if ds = [] then None else Some (c # ds, dropWhile is_digit t))
         else Some ([], s)
     | [] \<Rightarrow> Some ([], s))"

definition scan_integer :: "string \<Rightarrow> (string \<times> string) option" where
  "scan_integer s =
    (let sg = (if s \<noteq> [] \<and> hd s = CHR ''-'' then ''-'' else []);
         t = drop (length sg) s; ds = takeWhile is_digit t
     in if ds = [] then None
        else if hd ds = CHR ''0'' then Some (sg @ ''0'', tl t)
        else Some (sg @ ds, dropWhile is_digit t))"

definition scan_number :: "string \<Rightarrow> (string \<times> string) option" where
  "scan_number s = do {
     (i, s) \<leftarrow> scan_integer s;
     (f, s) \<leftarrow> scan_fraction s;
     (e, s) \<leftarrow> scan_exponent s;
     Some (i @ f @ e, s) }"

definition scan_keyword :: "string \<Rightarrow> json \<Rightarrow> string \<Rightarrow> (json \<times> string) option" where
  "scan_keyword k v s = (if take (length k) s = k then Some (v, drop (length k) s) else None)"

type_synonym value_parser = "string \<Rightarrow> (json \<times> string) option"

text \<open>Elements of an array and members of an object; every one takes at least one byte, so
  the length of the input is fuel enough.\<close>

fun parse_elems :: "value_parser \<Rightarrow> nat \<Rightarrow> string \<Rightarrow> ((string \<times> json) list \<times> string) option" where
  "parse_elems p 0 s = None"
| "parse_elems p (Suc n) s =
    (case p s of
       None \<Rightarrow> None
     | Some (v, r) \<Rightarrow>
        (case skip_ws r of
           [] \<Rightarrow> None
         | c # t \<Rightarrow>
             if c = CHR '']'' then Some ([(take (length s - length r) s, v)], t)
             else if c = CHR '','' then
               (case parse_elems p n (skip_ws t) of
                  None \<Rightarrow> None
                | Some (vs, u) \<Rightarrow> Some ((take (length s - length r) s, v) # vs, u))
             else None))"

definition parse_member :: "value_parser \<Rightarrow> string \<Rightarrow> ((string \<times> string \<times> json) \<times> string) option" where
  "parse_member p s = do {
     s \<leftarrow> expect dquote s;
     (k, s) \<leftarrow> scan_string s;
     s \<leftarrow> expect CHR '':'' (skip_ws s);
     (let s = skip_ws s in do {
        (v, r) \<leftarrow> p s;
        Some ((k, take (length s - length r) s, v), r) }) }"

fun parse_members :: "value_parser \<Rightarrow> nat \<Rightarrow> string \<Rightarrow>
    ((string \<times> string \<times> json) list \<times> string) option" where
  "parse_members p 0 s = None"
| "parse_members p (Suc n) s =
    (case parse_member p s of
       None \<Rightarrow> None
     | Some (m, r) \<Rightarrow>
        (case skip_ws r of
           [] \<Rightarrow> None
         | c # t \<Rightarrow>
             if c = CHR ''}'' then Some ([m], t)
             else if c = CHR '','' then
               (case parse_members p n (skip_ws t) of
                  None \<Rightarrow> None | Some (ms, u) \<Rightarrow> Some (m # ms, u))
             else None))"

text \<open>One value; \<open>p\<close> parses the values inside it, \<open>None\<close> when no more nesting is allowed.\<close>

definition parse_with :: "value_parser option \<Rightarrow> value_parser" where
  "parse_with p s =
    (case s of
       [] \<Rightarrow> None
     | c # t \<Rightarrow>
        if c = dquote then map_option (map_prod JStr id) (scan_string t)
        else if c = CHR ''n'' then scan_keyword ''null'' JNull s
        else if c = CHR ''t'' then scan_keyword ''true'' JTrue s
        else if c = CHR ''f'' then scan_keyword ''false'' JFalse s
        else if c = CHR ''['' then
          (case p of None \<Rightarrow> None
           | Some q \<Rightarrow>
              if skip_ws t \<noteq> [] \<and> hd (skip_ws t) = CHR '']'' then Some (JArr [], tl (skip_ws t))
              else map_option (map_prod JArr id) (parse_elems q (length t) (skip_ws t)))
        else if c = CHR ''{'' then
          (case p of None \<Rightarrow> None
           | Some q \<Rightarrow>
              if skip_ws t \<noteq> [] \<and> hd (skip_ws t) = CHR ''}'' then Some (JObj [], tl (skip_ws t))
              else map_option (map_prod JObj id) (parse_members q (length t) (skip_ws t)))
        else map_option (map_prod JNum id) (scan_number s))"

primrec parse_value :: "nat \<Rightarrow> value_parser" where
  "parse_value 0 = parse_with None"
| "parse_value (Suc d) = parse_with (Some (parse_value d))"

text \<open>The library refuses documents nested deeper than 10000.\<close>

definition json_parse :: "string \<Rightarrow> json option" where
  "json_parse s =
    (case parse_value 10000 (skip_ws s) of
       None \<Rightarrow> None
     | Some (v, r) \<Rightarrow> if skip_ws r = [] then Some v else None)"

section \<open>A document is read back from its text\<close>

text \<open>Well-formed documents nested at most \<open>d\<close> deep.\<close>

definition number_stop :: "string \<Rightarrow> bool" where
  "number_stop r \<longleftrightarrow> r = [] \<or> (\<not> is_digit (hd r) \<and> hd r \<notin> set ''.eE'')"

definition number_ok :: "string \<Rightarrow> bool" where
  "number_ok n \<longleftrightarrow> n \<noteq> [] \<and> (is_digit (hd n) \<or> hd n = CHR ''-'') \<and>
     (\<forall>r. number_stop r \<longrightarrow> scan_number (n @ r) = Some (n, r))"

definition json_ok_with :: "(json \<Rightarrow> bool) option \<Rightarrow> json \<Rightarrow> bool" where
  "json_ok_with q v \<longleftrightarrow>
    (case v of
       JNum n \<Rightarrow> number_ok n
     | JStr b \<Rightarrow> body_ok b
     | JArr xs \<Rightarrow>
        (case q of None \<Rightarrow> False | Some q \<Rightarrow> \<forall>(r, w) \<in> set xs. r = json_text w \<and> q w)
     | JObj ms \<Rightarrow>
        (case q of None \<Rightarrow> False
         | Some q \<Rightarrow> \<forall>(k, r, w) \<in> set ms. body_ok k \<and> r = json_text w \<and> q w)
     | _ \<Rightarrow> True)"

primrec json_ok :: "nat \<Rightarrow> json \<Rightarrow> bool" where
  "json_ok 0 = json_ok_with None"
| "json_ok (Suc d) = json_ok_with (Some (json_ok d))"

lemma skip_ws_simps [simp]:
  "skip_ws [] = []" "\<not> is_space c \<Longrightarrow> skip_ws (c # s) = c # s"
  by (simp_all add: skip_ws_def)

lemma not_space [simp]: "\<not> is_space dquote" "\<not> is_space CHR '',''" "\<not> is_space CHR '']''"
  "\<not> is_space CHR ''}''" "\<not> is_space CHR '':''" "\<not> is_space CHR ''{''" "\<not> is_space CHR ''[''"
  by (simp_all add: is_space_def)

lemma number_stop_simps [simp]:
  "number_stop []" "number_stop (CHR '','' # r)" "number_stop (CHR '']'' # r)"
  "number_stop (CHR ''}'' # r)"
  by (simp_all add: number_stop_def is_digit_def char_digit_def)

lemma json_text_hd:
  assumes "json_ok d v"
  shows "\<exists>c s. json_text v = c # s \<and> \<not> is_space c \<and> c \<noteq> CHR '']'' \<and> c \<noteq> CHR ''}''"
proof -
  obtain q where q: "json_ok_with q v" using assms by (cases d) auto
  show ?thesis
  proof (cases v)
    case (JNum n)
    then show ?thesis using q
      by (cases n)
        (auto simp: json_ok_with_def number_ok_def is_space_def is_digit_def char_digit_def)
  qed (auto simp: is_space_def)
qed

lemma skip_ws_json_text [simp]: "json_ok d v \<Longrightarrow> skip_ws (json_text v @ s) = json_text v @ s"
  using json_text_hd [of d v] by auto

text \<open>A parser that reads the text of every document nested at most \<open>d\<close> deep.\<close>

definition reads :: "value_parser \<Rightarrow> nat \<Rightarrow> bool" where
  "reads p d \<longleftrightarrow> (\<forall>v r. json_ok d v \<longrightarrow> number_stop r \<longrightarrow> p (json_text v @ r) = Some (v, r))"

lemma readsD: "reads p d \<Longrightarrow> json_ok d v \<Longrightarrow> number_stop r \<Longrightarrow> p (json_text v @ r) = Some (v, r)"
  by (simp add: reads_def)

lemma parse_elems_reads:
  assumes p: "reads p d"
  shows "xs \<noteq> [] \<Longrightarrow> \<forall>(r, w) \<in> set xs. r = json_text w \<and> json_ok d w \<Longrightarrow> length xs \<le> n \<Longrightarrow>
    parse_elems p n (commas (map fst xs) @ CHR '']'' # rest) = Some (xs, rest)"
proof (induction n arbitrary: xs)
  case (Suc n)
  obtain r w ys where xs: "xs = (r, w) # ys" using Suc.prems(1) by (cases xs) auto
  have r: "r = json_text w" and w: "json_ok d w" using Suc.prems(2) xs by auto
  show ?case
  proof (cases ys)
    case Nil
    then show ?thesis using readsD [OF p w] by (simp add: xs r)
  next
    case (Cons y zs)
    obtain r2 w2 where y: "y = (r2, w2)" by fastforce
    have "json_ok d w2" "r2 = json_text w2" using Suc.prems(2) xs Cons y by auto
    then have "skip_ws (commas (map fst ys) @ CHR '']'' # rest) = commas (map fst ys) @ CHR '']'' # rest"
      using Cons y by (cases zs) auto
    moreover have "parse_elems p n (commas (map fst ys) @ CHR '']'' # rest) = Some (ys, rest)"
      using Suc.prems xs Cons by (intro Suc.IH) auto
    ultimately show ?thesis using readsD [OF p w] by (simp add: xs r Cons)
  qed
qed auto

abbreviation member_text :: "string \<times> string \<times> json \<Rightarrow> string" where
  "member_text \<equiv> (\<lambda>(k, r, v). dquote # k @ [dquote] @ '':'' @ r)"

lemma parse_member_reads:
  assumes "reads p d" "json_ok d w" "body_ok k" "number_stop s"
  shows "parse_member p (dquote # k @ dquote # CHR '':'' # json_text w @ s) = Some ((k, json_text w, w), s)"
  using assms(3) readsD [OF assms(1,2,4)] assms(2)
  by (simp add: parse_member_def body_ok_def Let_def)

lemma parse_members_reads:
  assumes p: "reads p d"
  shows "ms \<noteq> [] \<Longrightarrow> \<forall>(k, r, w) \<in> set ms. body_ok k \<and> r = json_text w \<and> json_ok d w \<Longrightarrow>
    length ms \<le> n \<Longrightarrow>
    parse_members p n (commas (map member_text ms) @ CHR ''}'' # rest) = Some (ms, rest)"
proof (induction n arbitrary: ms)
  case (Suc n)
  obtain k r w ys where ms: "ms = (k, r, w) # ys" using Suc.prems(1) by (cases ms) auto
  have r: "r = json_text w" and w: "json_ok d w" and k: "body_ok k" using Suc.prems(2) ms by auto
  show ?case
  proof (cases ys)
    case Nil
    then show ?thesis using parse_member_reads [OF p w k] by (simp add: ms r)
  next
    case (Cons y zs)
    have "skip_ws (commas (map member_text ys) @ CHR ''}'' # rest) = commas (map member_text ys) @ CHR ''}'' # rest"
      using Cons by (cases y; cases zs) auto
    moreover have "parse_members p n (commas (map member_text ys) @ CHR ''}'' # rest) = Some (ys, rest)"
      using Suc.prems ms Cons by (intro Suc.IH) auto
    ultimately show ?thesis using parse_member_reads [OF p w k] by (simp add: ms r Cons)
  qed
qed auto

lemma length_commas: "\<forall>x \<in> set xs. x \<noteq> [] \<Longrightarrow> length xs \<le> length (commas xs)"
proof (induction xs rule: commas.induct)
  case (3 x y zs)
  then have "length (y # zs) \<le> length (commas (y # zs))" by simp
  then show ?case by simp
qed (auto simp: Suc_le_eq)

text \<open>The scalar documents are read whatever the nesting allowed.\<close>

lemma parse_with_scalar:
  assumes "json_ok_with q v" "number_stop r" "\<And>xs. v \<noteq> JArr xs" "\<And>ms. v \<noteq> JObj ms"
  shows "parse_with p (json_text v @ r) = Some (v, r)"
proof (cases v)
  case (JNum n)
  then obtain c cs where n: "n = c # cs" "is_digit c \<or> c = CHR ''-''"
    using assms(1) by (cases n) (auto simp: json_ok_with_def number_ok_def)
  then have "c \<notin> set [dquote, CHR ''n'', CHR ''t'', CHR ''f'', CHR ''['', CHR ''{'']"
    by (auto simp: is_digit_def char_digit_def split: if_splits)
  moreover have "scan_number (n @ r) = Some (n, r)"
    using assms(1,2) JNum by (simp add: json_ok_with_def number_ok_def)
  ultimately show ?thesis using n by (simp add: parse_with_def JNum)
next
  case (JStr b)
  then show ?thesis using assms(1) by (simp add: parse_with_def json_ok_with_def body_ok_def)
qed (use assms in \<open>simp_all add: parse_with_def scan_keyword_def\<close>)

lemma parse_with_reads:
  assumes p: "reads p d" and v: "json_ok_with (Some (json_ok d)) v" and r: "number_stop r"
  shows "parse_with (Some p) (json_text v @ r) = Some (v, r)"
proof (cases v)
  case (JArr xs)
  have ok: "\<forall>(r, w) \<in> set xs. r = json_text w \<and> json_ok d w"
    using v JArr by (auto simp: json_ok_with_def)
  then have ne: "\<forall>x \<in> set (map fst xs). x \<noteq> []"
    using json_text_hd by fastforce
  show ?thesis
  proof (cases xs)
    case Nil
    then show ?thesis by (simp add: JArr parse_with_def)
  next
    case (Cons x ys)
    obtain a w where x: "x = (a, w)" by fastforce
    then have w: "json_ok d w" "a = json_text w" using ok Cons by auto
    then obtain c t where c: "json_text w = c # t" "\<not> is_space c" "c \<noteq> CHR '']''"
      using json_text_hd by blast
    define body where "body = commas (map fst xs) @ CHR '']'' # r"
    have hd: "skip_ws body = body" "body \<noteq> []" "hd body \<noteq> CHR '']''"
      using c Cons x w by (cases ys; auto simp: body_def)+
    have "length xs \<le> length body" using length_commas [OF ne] by (simp add: body_def)
    then have "parse_elems p (length body) body = Some (xs, r)"
      unfolding body_def using Cons ok by (intro parse_elems_reads [OF p]) auto
    then show ?thesis using hd by (simp add: JArr parse_with_def body_def)
  qed
next
  case (JObj ms)
  have ok: "\<forall>(k, r, w) \<in> set ms. body_ok k \<and> r = json_text w \<and> json_ok d w"
    using v JObj by (auto simp: json_ok_with_def)
  have ne: "\<forall>x \<in> set (map member_text ms). x \<noteq> []" by auto
  show ?thesis
  proof (cases ms)
    case Nil
    then show ?thesis by (simp add: JObj parse_with_def)
  next
    case (Cons x ys)
    define body where "body = commas (map member_text ms) @ CHR ''}'' # r"
    have hd: "skip_ws body = body" "body \<noteq> []" "hd body \<noteq> CHR ''}''"
      using Cons by (cases x; cases ys; auto simp: body_def)+
    have "length ms \<le> length body" using length_commas [OF ne] by (simp add: body_def)
    then have "parse_members p (length body) body = Some (ms, r)"
      unfolding body_def using Cons ok by (intro parse_members_reads [OF p]) auto
    then show ?thesis using hd by (simp add: JObj parse_with_def body_def)
  qed
qed (use parse_with_scalar [OF v r, of "Some p"] in auto)

lemma parse_value_reads: "reads (parse_value d) d"
proof (induction d)
  case 0
  show ?case unfolding reads_def
  proof (intro allI impI)
    fix v r assume v: "json_ok 0 v" and r: "number_stop r"
    have "parse_with None (json_text v @ r) = Some (v, r)"
      by (rule parse_with_scalar [of None]) (use v r in \<open>auto simp: json_ok_with_def\<close>)
    then show "parse_value 0 (json_text v @ r) = Some (v, r)" by simp
  qed
next
  case (Suc d)
  then show ?case by (auto simp: reads_def [of _ "Suc d"] intro: parse_with_reads)
qed

theorem json_parse_text: "json_ok 10000 v \<Longrightarrow> json_parse (json_text v) = Some v"
proof -
  assume v: "json_ok 10000 v"
  have "parse_value 10000 (json_text v @ []) = Some (v, [])"
    by (rule readsD [OF parse_value_reads v]) simp
  moreover have "skip_ws (json_text v) = json_text v" using skip_ws_json_text [OF v, of "[]"] by simp
  ultimately show ?thesis by (simp add: json_parse_def)
qed

lemma json_ok_mono: "json_ok d v \<Longrightarrow> json_ok (d + e) v"
proof (induction d arbitrary: v)
  case 0
  then show ?case by (cases e; cases v) (auto simp: json_ok_with_def)
next
  case (Suc d)
  then show ?case by (cases v) (auto simp: json_ok_with_def)
qed

lemma format_nat_no_leading_zero: "hd (format_nat n) = CHR ''0'' \<Longrightarrow> format_nat n = ''0''"
proof (induction n rule: format_nat.induct)
  case (1 n)
  show ?case
  proof (cases "n < 10")
    case True
    then have "format_nat n = [digit_char n]" by (simp add: format_nat.simps [of n])
    then show ?thesis using 1 by simp
  next
    case False
    then have "hd (format_nat (n div 10)) = CHR ''0''"
      using 1 by (simp add: format_nat.simps [of n] hd_append)
    then have "format_nat (n div 10) = ''0''" using 1(1) False by simp
    then have "parse_nat (format_nat (n div 10)) = Some 0"
      by (simp add: parse_nat_def char_digit_def)
    then show ?thesis using False by simp
  qed
qed

lemma scan_rest: "number_stop r \<Longrightarrow> scan_fraction r = Some ([], r) \<and> scan_exponent r = Some ([], r)"
  by (cases r) (auto simp: number_stop_def scan_fraction_def scan_exponent_def)

lemma number_ok_format_int: "number_ok (format_int i)"
proof -
  define ds where "ds = format_nat (nat \<bar>i\<bar>)"
  define sg where "sg = (if i < 0 then ''-'' else [])"
  have f: "format_int i = sg @ ds"
    by (auto simp: format_int_def ds_def sg_def)
  obtain c cs where ds: "ds = c # cs" by (cases ds) (auto simp: ds_def)
  have dig: "\<forall>x \<in> set ds. is_digit x" using format_nat_digits by (auto simp: ds_def is_digit_def)
  have c: "is_digit c" "c \<noteq> CHR ''-''" using dig ds is_digit_zone by auto
  have z: "cs = []" if "c = CHR ''0''"
    using format_nat_no_leading_zero [of "nat \<bar>i\<bar>"] that ds by (simp add: ds_def)
  have "scan_integer (sg @ ds @ r) = Some (sg @ ds, r)" if "number_stop r" for r
  proof -
    have "takeWhile is_digit r = []" "dropWhile is_digit r = r"
      using that by (cases r; auto simp: number_stop_def)+
    then have "takeWhile is_digit (ds @ r) = ds" "dropWhile is_digit (ds @ r) = r"
      using dig by auto
    moreover have "drop (length sg) (sg @ ds @ r) = ds @ r" by simp
    moreover have "(if sg @ ds @ r \<noteq> [] \<and> hd (sg @ ds @ r) = CHR ''-'' then ''-'' else []) = sg"
      using c ds by (auto simp: sg_def)
    ultimately show ?thesis unfolding scan_integer_def Let_def using z ds by auto
  qed
  then have "scan_number (sg @ ds @ r) = Some (sg @ ds, r)" if "number_stop r" for r
    using that scan_rest [OF that] by (simp add: scan_number_def)
  then show ?thesis using c ds by (auto simp: number_ok_def f sg_def)
qed

section \<open>Decoding\<close>

text \<open>
  What \<open>json.Unmarshal\<close> stores into a variable that holds \<open>cur\<close>. A \<open>null\<close> leaves strings,
  integers and structs as they are and makes slices and maps nil.
\<close>

definition syntax_error :: goerror where
  "syntax_error = Errorf ''json: invalid syntax''"

definition type_error :: goerror where
  "type_error = Errorf ''json: cannot unmarshal value into Go type''"

definition decode_string :: "string \<Rightarrow> json \<Rightarrow> goerror + string" where
  "decode_string cur v =
    (case v of
       JNull \<Rightarrow> Inr cur
     | JStr b \<Rightarrow> result_of_option syntax_error (json_unquote b)
     | _ \<Rightarrow> Inl type_error)"

definition decode_int :: "int \<Rightarrow> json \<Rightarrow> goerror + int" where
  "decode_int cur v =
    (case v of
       JNull \<Rightarrow> Inr cur
     | JNum n \<Rightarrow> result_of_option type_error (parse_int n)
     | _ \<Rightarrow> Inl type_error)"

text \<open>A \<open>[]byte\<close> is base64 text, or an array of numbers below 256; \<open>None\<close> is the nil slice.\<close>

definition decode_byte :: "json \<Rightarrow> goerror + char" where
  "decode_byte v =
    (case v of
       JNull \<Rightarrow> Inr (char_of (0 :: nat))
     | JNum n \<Rightarrow>
        (case parse_nat n of
           None \<Rightarrow> Inl type_error
         | Some k \<Rightarrow> if k < 256 then Inr (char_of k) else Inl type_error)
     | _ \<Rightarrow> Inl type_error)"

fun decode_each :: "('a \<Rightarrow> goerror + 'b) \<Rightarrow> 'a list \<Rightarrow> goerror + 'b list" where
  "decode_each f [] = Inr []"
| "decode_each f (x # xs) =
    (case f x of Inl e \<Rightarrow> Inl e
     | Inr y \<Rightarrow> (case decode_each f xs of Inl e \<Rightarrow> Inl e | Inr ys \<Rightarrow> Inr (y # ys)))"

definition decode_bytes :: "json \<Rightarrow> goerror + string option" where
  "decode_bytes v =
    (case v of
       JNull \<Rightarrow> Inr None
     | JStr b \<Rightarrow>
        (case json_unquote b of
           None \<Rightarrow> Inl syntax_error
         | Some t \<Rightarrow>
            (case b64_decode t of
               None \<Rightarrow> Inl (Errorf ''illegal base64 data'') | Some x \<Rightarrow> Inr (Some x)))
     | JArr xs \<Rightarrow>
        (case decode_each (decode_byte \<circ> snd) xs of Inl e \<Rightarrow> Inl e | Inr x \<Rightarrow> Inr (Some x))
     | _ \<Rightarrow> Inl type_error)"

fun decode_entries :: "gomap \<Rightarrow> (string \<times> string \<times> json) list \<Rightarrow> goerror + gomap" where
  "decode_entries m [] = Inr m"
| "decode_entries m ((k, r, v) # ms) =
    (case json_unquote k of
       None \<Rightarrow> Inl syntax_error
     | Some key \<Rightarrow>
        (case decode_string [] v of
           Inl e \<Rightarrow> Inl e
         | Inr x \<Rightarrow> decode_entries (gomap_update key x m) ms))"

definition decode_map :: "gomap option \<Rightarrow> json \<Rightarrow> goerror + gomap option" where
  "decode_map cur v =
    (case v of
       JNull \<Rightarrow> Inr None
     | JObj ms \<Rightarrow>
        (case decode_entries (case cur of None \<Rightarrow> [] | Some m \<Rightarrow> m) ms of
           Inl e \<Rightarrow> Inl e | Inr m \<Rightarrow> Inr (Some m))
     | _ \<Rightarrow> Inl type_error)"

text \<open>\<open>Time.UnmarshalJSON\<close> gets the source text of the value.\<close>

definition decode_time :: "gotime \<Rightarrow> string \<Rightarrow> goerror + gotime" where
  "decode_time cur raw =
    (if raw = ''null'' then Inr cur
     else if length raw < 2 \<or> hd raw \<noteq> dquote \<or> last raw \<noteq> dquote
     then Inl (Errorf ''Time.UnmarshalJSON: input is not a JSON string'')
     else result_of_option (Errorf ''parsing time'') (parse_RFC3339 (butlast (tl raw))))"

text \<open>
  A struct takes the members of an object in order: a key selects the field of that name or,
  failing that, the field whose name has the same case folding; other keys are skipped.
\<close>

definition fold_char :: "char \<Rightarrow> char" where
  "fold_char c = (if 97 \<le> code c \<and> code c \<le> 122 then char_of (code c - 32) else c)"

text \<open>U+017F and U+212A fold to the ASCII letters S and K.\<close>

fun fold_name :: "string \<Rightarrow> string" where
  "fold_name [] = []"
| "fold_name (c # s) =
    (if c = CHR 0xC5 \<and> s \<noteq> [] \<and> hd s = CHR 0xBF then CHR ''S'' # fold_name (drop 1 s)
     else if c = CHR 0xE2 \<and> take 2 s = [CHR 0x84, CHR 0xAA] then CHR ''K'' # fold_name (drop 2 s)
     else fold_char c # fold_name s)"

definition field_of :: "string list \<Rightarrow> string \<Rightarrow> string option" where
  "field_of names key =
    (if key \<in> set names then Some key
     else find (\<lambda>n. fold_name n = fold_name key) names)"

fun decode_members :: "string list \<Rightarrow> (string \<Rightarrow> string \<Rightarrow> json \<Rightarrow> 'r \<Rightarrow> goerror + 'r) \<Rightarrow>
    'r \<Rightarrow> (string \<times> string \<times> json) list \<Rightarrow> goerror + 'r" where
  "decode_members names put r [] = Inr r"
| "decode_members names put r ((k, raw, v) # ms) =
    (case json_unquote k of
       None \<Rightarrow> Inl syntax_error
     | Some key \<Rightarrow>
        (case field_of names key of
           None \<Rightarrow> decode_members names put r ms
         | Some f \<Rightarrow>
            (case put f raw v r of
               Inl e \<Rightarrow> Inl e
             | Inr r' \<Rightarrow> decode_members names put r' ms)))"

definition decode_struct :: "string list \<Rightarrow> (string \<Rightarrow> string \<Rightarrow> json \<Rightarrow> 'r \<Rightarrow> goerror + 'r) \<Rightarrow>
    'r \<Rightarrow> json \<Rightarrow> goerror + 'r" where
  "decode_struct names put r v =
    (case v of
       JNull \<Rightarrow> Inr r
     | JObj ms \<Rightarrow> decode_members names put r ms
     | _ \<Rightarrow> Inl type_error)"

section \<open>Encoding\<close>

definition encode_string :: "string \<Rightarrow> json" where
  "encode_string s = JStr (json_quote s)"

definition encode_int :: "int \<Rightarrow> json" where
  "encode_int i = JNum (format_int i)"

definition encode_bytes :: "string option \<Rightarrow> json" where
  "encode_bytes b = (case b of None \<Rightarrow> JNull | Some x \<Rightarrow> JStr (b64_encode x))"

definition encode_time :: "gotime \<Rightarrow> json" where
  "encode_time t = JStr (format_RFC3339Nano t)"

definition member :: "string \<Rightarrow> json \<Rightarrow> string \<times> string \<times> json" where
  "member k v = (json_quote k, json_text v, v)"

definition encode_map :: "gomap \<Rightarrow> json" where
  "encode_map m = JObj (map (\<lambda>(k, v). member k (encode_string v)) m)"

text \<open>
  \<open>json.RawMessage\<close> is written compacted: spaces outside strings are dropped, and the characters that
  HTML treats specially and the two line separators are escaped.
\<close>

fun compact_text :: "bool \<Rightarrow> string \<Rightarrow> string" where
  "compact_text in_str [] = []"
| "compact_text in_str (c # s) =
    (if c = CHR ''<'' then CHR 0x5C # ''u003c'' @ compact_text in_str s
     else if c = CHR ''>'' then CHR 0x5C # ''u003e'' @ compact_text in_str s
     else if c = CHR ''&'' then CHR 0x5C # ''u0026'' @ compact_text in_str s
     else if c = CHR 0xE2 \<and> take 2 s = [CHR 0x80, CHR 0xA8] then CHR 0x5C # ''u2028'' @ compact_text in_str (drop 2 s)
     else if c = CHR 0xE2 \<and> take 2 s = [CHR 0x80, CHR 0xA9] then CHR 0x5C # ''u2029'' @ compact_text in_str (drop 2 s)
     else if in_str then
       if c = CHR 0x5C then c # take 1 s @ compact_text True (drop 1 s)
       else c # compact_text (c \<noteq> CHR 0x22) s
     else if is_space c then compact_text False s
     else c # compact_text (c = CHR 0x22) s)"

section \<open>Encoded values are decoded back\<close>

definition plain :: "char \<Rightarrow> bool" where
  "plain c \<longleftrightarrow> 32 \<le> code c \<and> code c < 128 \<and> c \<noteq> dquote \<and> c \<noteq> backslash"

lemma plain_unquote: "\<forall>c \<in> set s. plain c \<Longrightarrow> json_unquote s = Some s"
  by (induction s) (auto simp: plain_def json_unquote_plain)

lemma plain_body_ok: "\<forall>c \<in> set s. plain c \<Longrightarrow> body_ok s"
proof (induction s)
  case (Cons c s)
  then have "body_ok ([c] @ s)"
    by (intro body_ok_append) (auto simp: plain_def unit_size_def)
  then show ?case by simp
qed simp

lemma plain_digit [simp]: "is_digit c \<Longrightarrow> plain c"
  by (auto simp: plain_def is_digit_def char_digit_def split: if_splits)

lemma plain_b64_char [simp]: "n < 64 \<Longrightarrow> plain (b64_char n)"
proof -
  assume "n < 64"
  then have "b64_value (b64_char n) = Some n" by simp
  then show ?thesis by (auto simp: plain_def b64_value_def split: if_splits)
qed

lemma plain_b64: "c \<in> set (b64_encode s) \<Longrightarrow> plain c"
proof (induction s rule: b64_encode.induct)
  case (2 a)
  then show ?case by (auto simp: code_bounds code_div) (simp add: plain_def)
next
  case (3 a b)
  then show ?case by (auto simp: code_bounds code_div) (simp add: plain_def)
next
  case (4 a b c s)
  then show ?case by (auto simp: code_bounds code_div)
qed simp

lemma digit_char_digit [simp]: "d < 10 \<Longrightarrow> is_digit (digit_char d)"
  by (simp add: is_digit_def)

lemma plain_pad2: "n < 100 \<Longrightarrow> \<forall>c \<in> set (pad2 n). plain c"
  by (simp add: pad2_def)

lemma plain_pad4: "n < 10000 \<Longrightarrow> \<forall>c \<in> set (pad4 n). plain c"
  using plain_pad2 [of "n div 100"] plain_pad2 [of "n mod 100"] by (auto simp: pad4_def)

lemma plain_fraction: "\<forall>c \<in> set (format_fraction n). plain c"
proof -
  have "\<forall>c \<in> set (trim_zeros (pad_digits 9 n)). plain c"
    using trim_zeros_pad [of "pad_digits 9 n"] pad_digits_digits [of _ 9 n]
    by (metis Un_iff plain_digit set_append)
  moreover have "plain CHR ''.''" by (simp add: plain_def)
  ultimately show ?thesis by (simp add: format_fraction_def)
qed

lemma plain_seconds:
  assumes "0 \<le> fst (civil_of_days (s div 86400))" "fst (civil_of_days (s div 86400)) \<le> 9999"
  shows "\<forall>c \<in> set (format_seconds s). plain c"
proof -
  obtain y m d where c: "civil_of_days (s div 86400) = (y, m, d)" by (metis prod_cases3)
  note r = civil_of_days_inverse [OF c]
  have "s mod 86400 div 3600 < 100" "s mod 3600 div 60 < 100" "s mod 60 < 100"
    by (simp_all add: div_le_mono pos_mod_bound)
  then have "nat (s mod 86400 div 3600) < 100" "nat (s mod 3600 div 60) < 100" "nat (s mod 60) < 100"
    by linarith+
  note n = this [THEN plain_pad2]
  have "nat m < 100" "nat d < 100" using r by linarith+
  note md = this [THEN plain_pad2]
  have y: "\<forall>c \<in> set (pad4 (nat y)). plain c" using assms c by (intro plain_pad4) auto
  have "plain CHR ''-''" "plain CHR ''T''" "plain CHR '':''" by (simp_all add: plain_def)
  then show ?thesis using n md y unfolding format_seconds_def c prod.case by auto
qed

lemma plain_zone:
  assumes "\<bar>off\<bar> < 86400"
  shows "\<forall>c \<in> set (format_zone off). plain c"
proof -
  define z where "z = \<bar>off\<bar> div 60"
  have "\<bar>go_div off 60\<bar> \<le> z" by (auto simp: go_div_def z_def abs_mult abs_sgn_eq)
  moreover have "z < 1440" using assms by (simp add: z_def)
  ultimately have "\<bar>go_div off 60\<bar> div 60 < 100" "\<bar>go_div off 60\<bar> mod 60 < 100" by auto
  then have "nat (\<bar>go_div off 60\<bar> div 60) < 100" "nat (\<bar>go_div off 60\<bar> mod 60) < 100" by auto
  note n = this [THEN plain_pad2]
  have "plain CHR ''Z''" "plain CHR '':''" "plain CHR ''-''" "plain CHR ''+''"
    by (simp_all add: plain_def)
  with n show ?thesis by (auto simp: format_zone_def Let_def)
qed

lemma plain_time: "time_wf t \<Longrightarrow> \<forall>c \<in> set (format_RFC3339Nano t). plain c"
  using plain_seconds [of "t_ns t div second + t_off t"] plain_zone [of "t_off t"]
    plain_fraction [of "nat (t_ns t mod second)"]
  by (auto simp: format_RFC3339Nano_def time_wf_def time_year_def)

lemma decode_encode_string [simp]: "valid_utf8 s \<Longrightarrow> decode_string cur (encode_string s) = Inr s"
  by (simp add: decode_string_def encode_string_def json_unquote_quote)

lemma decode_encode_int [simp]: "int64_range i \<Longrightarrow> decode_int cur (encode_int i) = Inr i"
  by (simp add: decode_int_def encode_int_def parse_format_int)

lemma decode_encode_bytes [simp]: "decode_bytes (encode_bytes b) = Inr b"
  using plain_unquote [of "b64_encode (the b)"] plain_b64
  by (cases b) (auto simp: decode_bytes_def encode_bytes_def)

lemma decode_encode_time [simp]: "time_wf t \<Longrightarrow> decode_time cur (json_text (encode_time t)) = Inr t"
  by (simp add: decode_time_def encode_time_def parse_format_RFC3339Nano)

lemma decode_entries_encode:
  "gomap_wf (m @ xs) \<Longrightarrow> \<forall>(k, v) \<in> set xs. valid_utf8 k \<and> valid_utf8 v \<Longrightarrow>
    decode_entries m (map (\<lambda>(k, v). member k (encode_string v)) xs) = Inr (m @ xs)"
proof (induction xs arbitrary: m)
  case (Cons x xs)
  obtain k v where x: "x = (k, v)" by fastforce
  have "gomap_wf ((m @ [x]) @ xs)" using Cons.prems by simp
  then have s: "gomap_update k v m = m @ [x]"
    unfolding x by (intro gomap_update_append) (auto simp: gomap_wf_def sorted_wrt_append)
  show ?case using Cons x s by (simp add: member_def json_unquote_quote)
qed simp

lemma decode_encode_map [simp]:
  "gomap_wf m \<Longrightarrow> \<forall>(k, v) \<in> set m. valid_utf8 k \<and> valid_utf8 v \<Longrightarrow>
    decode_map None (encode_map m) = Inr (Some m)"
  using decode_entries_encode [of "[]" m] by (simp add: decode_map_def encode_map_def)

text \<open>The documents the encoders build are well formed, at any depth that is allowed.\<close>

lemma json_ok_scalar [simp]:
  "json_ok d (encode_string s)" "json_ok d (encode_int i)" "json_ok d (encode_bytes b)"
  "time_wf t \<Longrightarrow> json_ok d (encode_time t)" "json_ok d JNull" "json_ok d JTrue" "json_ok d JFalse"
  using plain_body_ok [of "b64_encode (the b)"] plain_b64 [of _ "the b"]
    plain_body_ok [OF plain_time, of t]
  by (cases d; auto simp: json_ok_with_def encode_string_def encode_int_def encode_bytes_def
      encode_time_def body_ok_quote number_ok_format_int split: option.split)+

lemma json_ok_object:
  "\<forall>(k, r, v) \<in> set ms. body_ok k \<and> r = json_text v \<and> json_ok d v \<Longrightarrow> json_ok (Suc d) (JObj ms)"
  by (simp add: json_ok_with_def)

lemma json_ok_encode_map [simp]: "json_ok (Suc d) (encode_map m)"
  unfolding encode_map_def by (intro json_ok_object) (auto simp: member_def body_ok_quote)

end
