(* ===== verification/Job.thy ===== *)
theory Job
  imports Go_Json
begin

text \<open>
  Package \<open>job\<close> (\<open>internal/job/job.go\<close>, \<open>internal/job/status.go\<close>): the job record, its
  constructors, validation, state marks and JSON form. \<open>uuid.Parse\<close> and \<open>uuid.New\<close> of
  \<open>github.com/google/uuid\<close> are parameters: \<open>uuid_ok\<close> says which strings parse, a fresh
  identifier and the current time are arguments of \<open>NewJob\<close>.
\<close>

section \<open>Status\<close>

text \<open>\<open>Status\<close> is an \<open>int\<close> type; a value outside its five constants is \<open>StatusOther\<close>.\<close>

datatype Status = StatusPending | StatusProcessing | StatusCompleted | StatusFailed | StatusDead
  | StatusOther int

definition Status_String :: "Status \<Rightarrow> string" where
  "Status_String s =
    (case s of
       StatusPending \<Rightarrow> ''pending''
     | StatusProcessing \<Rightarrow> ''processing''
     | StatusCompleted \<Rightarrow> ''completed''
     | StatusFailed \<Rightarrow> ''failed''
     | StatusDead \<Rightarrow> ''dead''
     | _ \<Rightarrow> ''unknown'')"

definition ParseStatus :: "string \<Rightarrow> Status" where
  "ParseStatus s =
    (if s = ''pending'' then StatusPending
     else if s = ''processing'' then StatusProcessing
     else if s = ''completed'' then StatusCompleted
     else if s = ''failed'' then StatusFailed
     else if s = ''dead'' then StatusDead
     else StatusPending)"

definition Status_MarshalJSON :: "Status \<Rightarrow> string" where
  "Status_MarshalJSON s = dquote # Status_String s @ [dquote]"

definition Status_UnmarshalJSON :: "string \<Rightarrow> Status" where
  "Status_UnmarshalJSON data =
    (let str = (if 2 \<le> length data \<and> hd data = dquote \<and> last data = dquote
                then butlast (tl data) else data)
     in ParseStatus str)"

definition status_known :: "Status \<Rightarrow> bool" where
  "status_known s \<longleftrightarrow> (\<forall>n. s \<noteq> StatusOther n)"

section \<open>Job\<close>

definition PriorityLow :: int where "PriorityLow = 1"
definition PriorityNormal :: int where "PriorityNormal = 5"
definition PriorityCritical :: int where "PriorityCritical = 10"
definition DefaultMaxRetries :: int where "DefaultMaxRetries = 5"

lemmas job_consts [simp] = PriorityLow_def PriorityNormal_def PriorityCritical_def DefaultMaxRetries_def

text \<open>A slice or map that is nil is \<open>None\<close>.\<close>

record Job =
  ID :: string
  Type :: string
  Payload :: "string option"
  Priority :: int
  CreatedAt :: gotime
  UpdatedAt :: gotime
  ScheduledAt :: gotime
  Attempts :: int
  MaxRetries :: int
  LastError :: string
  Status :: Status
  Metadata :: "gomap option"
  UniqueKey :: string
  Result :: "string option"

definition zero_Job :: Job where
  "zero_Job = \<lparr>ID = [], Type = [], Payload = None, Priority = 0, CreatedAt = zero_time,
     UpdatedAt = zero_time, ScheduledAt = zero_time, Attempts = 0, MaxRetries = 0,
     LastError = [], Status = StatusPending, Metadata = None, UniqueKey = [], Result = None\<rparr>"

text \<open>\<open>uuid\<close> is what \<open>uuid.New().String()\<close> returned, \<open>now\<close> what \<open>time.Now()\<close> did.\<close>

definition NewJob :: "string \<Rightarrow> gotime \<Rightarrow> string \<Rightarrow> string option \<Rightarrow> Job" where
  "NewJob uuid now jobType payload =
    (let now = time_UTC now in
     zero_Job\<lparr>ID := uuid, Type := jobType, Payload := payload, Priority := PriorityNormal,
       CreatedAt := now, UpdatedAt := now, ScheduledAt := now, Attempts := 0,
       MaxRetries := DefaultMaxRetries, Status := StatusPending, Metadata := Some []\<rparr>)"

definition NewPriorityJob :: "string \<Rightarrow> gotime \<Rightarrow> string \<Rightarrow> string option \<Rightarrow> int \<Rightarrow> Job" where
  "NewPriorityJob uuid now jobType payload priority =
    (NewJob uuid now jobType payload)\<lparr>Priority := priority\<rparr>"

definition NewDelayedJob :: "string \<Rightarrow> gotime \<Rightarrow> string \<Rightarrow> string option \<Rightarrow> gotime \<Rightarrow> Job" where
  "NewDelayedJob uuid now jobType payload scheduledAt =
    (NewJob uuid now jobType payload)\<lparr>ScheduledAt := time_UTC scheduledAt\<rparr>"

definition ErrMissingID :: goerror where "ErrMissingID = Sentinel ''id is required''"
definition ErrInvalidID :: goerror where "ErrInvalidID = Sentinel ''id must be a valid UUID''"
definition ErrMissingType :: goerror where "ErrMissingType = Sentinel ''type is required''"
definition ErrInvalidPriority :: goerror where
  "ErrInvalidPriority = Sentinel ''priority must be between 1 and 10''"
definition ErrInvalidMaxRetries :: goerror where
  "ErrInvalidMaxRetries = Sentinel ''max_retries can't be negative''"

definition Validate :: "(string \<Rightarrow> bool) \<Rightarrow> Job \<Rightarrow> goerror option" where
  "Validate uuid_ok j =
    (if ID j = [] then Some ErrMissingID
     else if \<not> uuid_ok (ID j) then Some ErrInvalidID
     else if Type j = [] then Some ErrMissingType
     else if Priority j < 1 \<or> Priority j > 10 then Some ErrInvalidPriority
     else if MaxRetries j < 0 then Some ErrInvalidMaxRetries
     else None)"

subsection \<open>JSON form\<close>

text \<open>The field order and the \<open>omitempty\<close> options of the struct tags.\<close>

definition job_members :: "Job \<Rightarrow> (string \<times> string \<times> json) list" where
  "job_members j =
    [member ''id'' (encode_string (ID j)),
     member ''type'' (encode_string (Type j)),
     member ''payload'' (encode_bytes (Payload j)),
     member ''priority'' (encode_int (Priority j)),
     member ''created_at'' (encode_time (CreatedAt j)),
     member ''updated_at'' (encode_time (UpdatedAt j)),
     member ''scheduled_at'' (encode_time (ScheduledAt j)),
     member ''attempts'' (encode_int (Attempts j)),
     member ''max_retries'' (encode_int (MaxRetries j))] @
    (if LastError j = [] then [] else [member ''last_error'' (encode_string (LastError j))]) @
    [member ''status'' (JStr (Status_String (Status j)))] @
    (case Metadata j of None \<Rightarrow> []
     | Some m \<Rightarrow> if m = [] then [] else [member ''metadata'' (encode_map m)]) @
    (if UniqueKey j = [] then [] else [member ''unique_key'' (encode_string (UniqueKey j))]) @
    (case Result j of None \<Rightarrow> []
     | Some r \<Rightarrow> if r = [] then [] else [member ''result'' (encode_bytes (Some r))])"

fun first_error :: "(goerror + 'a) list \<Rightarrow> goerror option" where
  "first_error [] = None"
| "first_error (Inl e # xs) = Some e"
| "first_error (Inr a # xs) = first_error xs"

definition Marshal :: "Job \<Rightarrow> goerror + string" where
  "Marshal j =
    (case first_error (map marshal_time [CreatedAt j, UpdatedAt j, ScheduledAt j]) of
       Some e \<Rightarrow> Inl (Wrapf ''couldn't serialize job''
         (Wrapf ''json: error calling MarshalJSON for type time.Time'' e))
     | None \<Rightarrow> Inr (json_text (JObj (job_members j))))"

definition job_field_names :: "string list" where
  "job_field_names = [''id'', ''type'', ''payload'', ''priority'', ''created_at'', ''updated_at'',
     ''scheduled_at'', ''attempts'', ''max_retries'', ''last_error'', ''status'', ''metadata'',
     ''unique_key'', ''result'']"

definition put_job_field :: "string \<Rightarrow> string \<Rightarrow> json \<Rightarrow> Job \<Rightarrow> goerror + Job" where
  "put_job_field f raw v j =
    (if f = ''id'' then map_sum id (\<lambda>x. j\<lparr>ID := x\<rparr>) (decode_string (ID j) v)
     else if f = ''type'' then map_sum id (\<lambda>x. j\<lparr>Type := x\<rparr>) (decode_string (Type j) v)
     else if f = ''payload'' then map_sum id (\<lambda>x. j\<lparr>Payload := x\<rparr>) (decode_bytes v)
     else if f = ''priority'' then map_sum id (\<lambda>x. j\<lparr>Priority := x\<rparr>) (decode_int (Priority j) v)
     else if f = ''created_at'' then
       map_sum id (\<lambda>x. j\<lparr>CreatedAt := x\<rparr>) (decode_time (CreatedAt j) raw)
     else if f = ''updated_at'' then
       map_sum id (\<lambda>x. j\<lparr>UpdatedAt := x\<rparr>) (decode_time (UpdatedAt j) raw)
     else if f = ''scheduled_at'' then
       map_sum id (\<lambda>x. j\<lparr>ScheduledAt := x\<rparr>) (decode_time (ScheduledAt j) raw)
     else if f = ''attempts'' then map_sum id (\<lambda>x. j\<lparr>Attempts := x\<rparr>) (decode_int (Attempts j) v)
     else if f = ''max_retries'' then
       map_sum id (\<lambda>x. j\<lparr>MaxRetries := x\<rparr>) (decode_int (MaxRetries j) v)
     else if f = ''last_error'' then
       map_sum id (\<lambda>x. j\<lparr>LastError := x\<rparr>) (decode_string (LastError j) v)
     else if f = ''status'' then Inr (j\<lparr>Status := Status_UnmarshalJSON raw\<rparr>)
     else if f = ''metadata'' then map_sum id (\<lambda>x. j\<lparr>Metadata := x\<rparr>) (decode_map (Metadata j) v)
     else if f = ''unique_key'' then
       map_sum id (\<lambda>x. j\<lparr>UniqueKey := x\<rparr>) (decode_string (UniqueKey j) v)
     else if f = ''result'' then map_sum id (\<lambda>x. j\<lparr>Result := x\<rparr>) (decode_bytes v)
     else Inr j)"

definition Unmarshal :: "string \<Rightarrow> goerror + Job" where
  "Unmarshal data =
    (case json_parse data of
       None \<Rightarrow> Inl (Wrapf ''couldn't parse job'' syntax_error)
     | Some v \<Rightarrow>
        (case decode_struct job_field_names put_job_field zero_Job v of
           Inl e \<Rightarrow> Inl (Wrapf ''couldn't parse job'' e)
         | Inr j \<Rightarrow> Inr j))"

subsection \<open>Metadata and state marks\<close>

definition SetMetadata :: "string \<Rightarrow> string \<Rightarrow> Job \<Rightarrow> Job" where
  "SetMetadata key value j =
    j\<lparr>Metadata := Some (gomap_update key value (case Metadata j of None \<Rightarrow> [] | Some m \<Rightarrow> m))\<rparr>"

definition GetMetadata :: "string \<Rightarrow> Job \<Rightarrow> string" where
  "GetMetadata key j = (case Metadata j of None \<Rightarrow> [] | Some m \<Rightarrow> gomap_get m key)"

definition MarkProcessing :: "gotime \<Rightarrow> Job \<Rightarrow> Job" where
  "MarkProcessing now j = j\<lparr>Status := StatusProcessing, UpdatedAt := time_UTC now\<rparr>"

definition MarkCompleted :: "gotime \<Rightarrow> string option \<Rightarrow> Job \<Rightarrow> Job" where
  "MarkCompleted now result j =
    j\<lparr>Status := StatusCompleted, Result := result, UpdatedAt := time_UTC now\<rparr>"

definition MarkFailed :: "gotime \<Rightarrow> string \<Rightarrow> Job \<Rightarrow> Job" where
  "MarkFailed now errMsg j =
    j\<lparr>Status := StatusFailed, LastError := errMsg, Attempts := i64 (Attempts j + 1),
      UpdatedAt := time_UTC now\<rparr>"

definition MarkDead :: "gotime \<Rightarrow> string \<Rightarrow> Job \<Rightarrow> Job" where
  "MarkDead now errMsg j =
    j\<lparr>Status := StatusDead, LastError := errMsg, UpdatedAt := time_UTC now\<rparr>"

definition ShouldRetry :: "Job \<Rightarrow> bool" where
  "ShouldRetry j \<longleftrightarrow> Attempts j < MaxRetries j"

section \<open>Properties\<close>

lemma ParseStatus_String: "status_known s \<Longrightarrow> ParseStatus (Status_String s) = s"
  by (cases s) (auto simp: status_known_def ParseStatus_def Status_String_def)

lemma Status_json_roundtrip:
  "status_known s \<Longrightarrow> Status_UnmarshalJSON (Status_MarshalJSON s) = s"
  by (simp add: Status_UnmarshalJSON_def Status_MarshalJSON_def ParseStatus_String)

lemma status_known_ParseStatus [simp]: "status_known (ParseStatus t)"
  by (simp add: status_known_def ParseStatus_def)

lemma Validate_None_iff:
  "Validate uuid_ok j = None \<longleftrightarrow>
     ID j \<noteq> [] \<and> uuid_ok (ID j) \<and> Type j \<noteq> [] \<and> 1 \<le> Priority j \<and> Priority j \<le> 10 \<and> 0 \<le> MaxRetries j"
  by (auto simp: Validate_def)

subsection \<open>The JSON form of a job\<close>

text \<open>
  The jobs whose JSON form loses nothing: text in valid UTF-8, integers of 64 bits, a metadata
  map in canonical form, instants that RFC 3339 can express and one of the five statuses.
\<close>

definition job_wf :: "Job \<Rightarrow> bool" where
  "job_wf j \<longleftrightarrow>
     valid_utf8 (ID j) \<and> valid_utf8 (Type j) \<and> valid_utf8 (LastError j) \<and> valid_utf8 (UniqueKey j) \<and>
     int64_range (Priority j) \<and> int64_range (Attempts j) \<and> int64_range (MaxRetries j) \<and>
     time_wf (CreatedAt j) \<and> time_wf (UpdatedAt j) \<and> time_wf (ScheduledAt j) \<and>
     status_known (Status j) \<and>
     (case Metadata j of None \<Rightarrow> True
      | Some m \<Rightarrow> gomap_wf m \<and> list_all (\<lambda>(k, v). valid_utf8 k \<and> valid_utf8 v) m)"

text \<open>\<open>omitempty\<close> drops an empty map or slice, which comes back as nil.\<close>

definition stored_form :: "Job \<Rightarrow> Job" where
  "stored_form j =
    j\<lparr>Metadata := (if Metadata j = Some [] then None else Metadata j),
      Result := (if Result j = Some [] then None else Result j)\<rparr>"

lemma stored_form_idem [simp]: "stored_form (stored_form j) = stored_form j"
  by (simp add: stored_form_def)

lemma stored_form_simps [simp]:
  "ID (stored_form j) = ID j" "Type (stored_form j) = Type j" "Payload (stored_form j) = Payload j"
  "Priority (stored_form j) = Priority j" "Attempts (stored_form j) = Attempts j"
  "MaxRetries (stored_form j) = MaxRetries j" "Status (stored_form j) = Status j"
  "LastError (stored_form j) = LastError j" "UniqueKey (stored_form j) = UniqueKey j"
  "CreatedAt (stored_form j) = CreatedAt j" "UpdatedAt (stored_form j) = UpdatedAt j"
  "ScheduledAt (stored_form j) = ScheduledAt j"
  by (simp_all add: stored_form_def)

lemma job_wf_stored_form [simp]: "job_wf j \<Longrightarrow> job_wf (stored_form j)"
  by (auto simp: job_wf_def stored_form_def split: option.splits)

text \<open>The field names survive quoting.\<close>

lemma field_name_unquote:
  "k \<in> set job_field_names \<Longrightarrow> json_unquote (json_quote k) = Some k"
proof (rule json_unquote_quote)
  have "list_all valid_utf8 job_field_names"
    by (simp add: job_field_names_def utf8_size.simps)
  then show "k \<in> set job_field_names \<Longrightarrow> valid_utf8 k" by (simp add: list_all_iff)
qed

lemma decode_job_member:
  "k \<in> set job_field_names \<Longrightarrow> put_job_field k (json_text v) v j = Inr j' \<Longrightarrow>
     decode_members job_field_names put_job_field j (member k v # ms) =
     decode_members job_field_names put_job_field j' ms"
  by (simp add: member_def field_name_unquote field_of_def)

lemma decode_job_append:
  "decode_members job_field_names put_job_field j xs = Inr j' \<Longrightarrow>
     decode_members job_field_names put_job_field j (xs @ ys) =
     decode_members job_field_names put_job_field j' ys"
  by (induction job_field_names put_job_field j xs rule: decode_members.induct)
    (auto split: option.splits sum.splits)

lemma put_job_field_simps:
  "put_job_field ''id'' raw v j = map_sum id (\<lambda>x. j\<lparr>ID := x\<rparr>) (decode_string (ID j) v)"
  "put_job_field ''type'' raw v j = map_sum id (\<lambda>x. j\<lparr>Type := x\<rparr>) (decode_string (Type j) v)"
  "put_job_field ''payload'' raw v j = map_sum id (\<lambda>x. j\<lparr>Payload := x\<rparr>) (decode_bytes v)"
  "put_job_field ''priority'' raw v j = map_sum id (\<lambda>x. j\<lparr>Priority := x\<rparr>) (decode_int (Priority j) v)"
  "put_job_field ''created_at'' raw v j = map_sum id (\<lambda>x. j\<lparr>CreatedAt := x\<rparr>) (decode_time (CreatedAt j) raw)"
  "put_job_field ''updated_at'' raw v j = map_sum id (\<lambda>x. j\<lparr>UpdatedAt := x\<rparr>) (decode_time (UpdatedAt j) raw)"
  "put_job_field ''scheduled_at'' raw v j = map_sum id (\<lambda>x. j\<lparr>ScheduledAt := x\<rparr>) (decode_time (ScheduledAt j) raw)"
  "put_job_field ''attempts'' raw v j = map_sum id (\<lambda>x. j\<lparr>Attempts := x\<rparr>) (decode_int (Attempts j) v)"
  "put_job_field ''max_retries'' raw v j = map_sum id (\<lambda>x. j\<lparr>MaxRetries := x\<rparr>) (decode_int (MaxRetries j) v)"
  "put_job_field ''last_error'' raw v j = map_sum id (\<lambda>x. j\<lparr>LastError := x\<rparr>) (decode_string (LastError j) v)"
  "put_job_field ''status'' raw v j = Inr (j\<lparr>Status := Status_UnmarshalJSON raw\<rparr>)"
  "put_job_field ''metadata'' raw v j = map_sum id (\<lambda>x. j\<lparr>Metadata := x\<rparr>) (decode_map (Metadata j) v)"
  "put_job_field ''unique_key'' raw v j = map_sum id (\<lambda>x. j\<lparr>UniqueKey := x\<rparr>) (decode_string (UniqueKey j) v)"
  "put_job_field ''result'' raw v j = map_sum id (\<lambda>x. j\<lparr>Result := x\<rparr>) (decode_bytes v)"
  by (simp_all add: put_job_field_def)

lemma field_names_mem:
  "''id'' \<in> set job_field_names" "''type'' \<in> set job_field_names" "''payload'' \<in> set job_field_names"
  "''priority'' \<in> set job_field_names" "''created_at'' \<in> set job_field_names"
  "''updated_at'' \<in> set job_field_names" "''scheduled_at'' \<in> set job_field_names"
  "''attempts'' \<in> set job_field_names" "''max_retries'' \<in> set job_field_names"
  "''last_error'' \<in> set job_field_names" "''status'' \<in> set job_field_names"
  "''metadata'' \<in> set job_field_names" "''unique_key'' \<in> set job_field_names"
  "''result'' \<in> set job_field_names"
  by (simp_all add: job_field_names_def)

lemma decode_status: "status_known s \<Longrightarrow> Status_UnmarshalJSON (json_text (JStr (Status_String s))) = s"
  using Status_json_roundtrip [of s] by (simp add: Status_MarshalJSON_def)

lemma decode_job_members:
  assumes "job_wf j"
  shows "decode_members job_field_names put_job_field zero_Job (job_members j) = Inr (stored_form j)"
proof -
  note step = decode_job_member [OF field_names_mem(1)] decode_job_member [OF field_names_mem(2)]
    decode_job_member [OF field_names_mem(3)] decode_job_member [OF field_names_mem(4)]
    decode_job_member [OF field_names_mem(5)] decode_job_member [OF field_names_mem(6)]
    decode_job_member [OF field_names_mem(7)] decode_job_member [OF field_names_mem(8)]
    decode_job_member [OF field_names_mem(9)] decode_job_member [OF field_names_mem(10)]
    decode_job_member [OF field_names_mem(11)] decode_job_member [OF field_names_mem(12)]
    decode_job_member [OF field_names_mem(13)] decode_job_member [OF field_names_mem(14)]
  show ?thesis
    using assms
    by (cases j) (auto simp: job_members_def job_wf_def step put_job_field_simps decode_status
        stored_form_def zero_Job_def list_all_iff simp del: json_text.simps split: option.splits)
qed

lemma json_ok_status [simp]: "json_ok d (JStr (Status_String s))"
proof -
  have "\<forall>c \<in> set (Status_String s). plain c"
    by (cases s) (auto simp: Status_String_def plain_def)
  then show ?thesis by (cases d) (auto simp: json_ok_with_def plain_body_ok)
qed

lemma json_ok_job: "job_wf j \<Longrightarrow> json_ok 10000 (JObj (job_members j))"
proof -
  assume j: "job_wf j"
  have "json_ok (Suc (Suc 0)) (JObj (job_members j))"
    by (rule json_ok_object)
      (use j in \<open>auto simp: job_members_def member_def body_ok_quote job_wf_def
          simp del: json_ok.simps split: option.splits\<close>)
  then show ?thesis using json_ok_mono [of 2 "JObj (job_members j)" 9998] by (simp add: numeral_2_eq_2)
qed

lemma Marshal_wf: "job_wf j \<Longrightarrow> Marshal j = Inr (json_text (JObj (job_members j)))"
  by (simp add: Marshal_def job_wf_def marshal_time_wf)

lemma Unmarshal_job_text:
  "job_wf j \<Longrightarrow> Unmarshal (json_text (JObj (job_members j))) = Inr (stored_form j)"
  by (simp add: Unmarshal_def json_parse_text [OF json_ok_job] decode_struct_def decode_job_members
      del: json_text.simps)

text \<open>The text a job is stored as.\<close>

definition job_text :: "Job \<Rightarrow> string" where
  "job_text j = json_text (JObj (job_members j))"

lemma Marshal_job_text: "job_wf j \<Longrightarrow> Marshal j = Inr (job_text j)"
  by (simp add: job_text_def Marshal_wf del: json_text.simps)

lemma Unmarshal_job: "job_wf j \<Longrightarrow> Unmarshal (job_text j) = Inr (stored_form j)"
  by (simp add: job_text_def Unmarshal_job_text del: json_text.simps)

subsection \<open>Correctness of the job package\<close>

text \<open>C27. Storing a job and reading it back loses nothing: the JSON text that \<open>Marshal\<close>
  writes for a well-formed job is accepted by \<open>Unmarshal\<close>, which gives the job back with an
  empty metadata map or result read as nil (\<open>omitempty\<close>).\<close>

theorem job_json_roundtrip:
  assumes "job_wf j"
  shows "\<exists>data. Marshal j = Inr data \<and> Unmarshal data = Inr (stored_form j)"
  using assms Marshal_wf Unmarshal_job_text by blast

definition sample_job :: Job where
  "sample_job = (NewPriorityJob ''6ba7b810-9dad-41d1-80b4-00c04fd430c8'' (Time (1700000000 * second) 3600)
     ''email'' (Some ''{}'') 9)\<lparr>Metadata := Some [(''trace'', ''a<b'')], UniqueKey := ''u1'',
     LastError := ''late''\<rparr>"

lemma sample_job_wf [simp]: "job_wf sample_job"
  by (simp add: sample_job_def NewPriorityJob_def NewJob_def zero_Job_def job_wf_def status_known_def
      utf8_size.simps int64_range_def gomap_wf_def time_UTC_def time_wf_def time_year_def
      civil_of_days_def year_of_cycle_def month_of_year_def Let_def)

lemma sample_job_stored [simp]: "stored_form sample_job = sample_job"
  by (simp add: stored_form_def sample_job_def NewPriorityJob_def NewJob_def zero_Job_def Let_def)

theorem job_json_roundtrip_witness:
  "\<exists>data. Marshal sample_job = Inr data \<and> Unmarshal data = Inr sample_job"
  using job_json_roundtrip [OF sample_job_wf] by simp

text \<open>A freshly built job passes validation exactly when it has a type and, for a priority
  job, a priority from 1 to 10: the constructors fill in every other validated field.\<close>

theorem NewPriorityJob_valid_iff:
  assumes "u \<noteq> []" "uuid_ok u"
  shows "Validate uuid_ok (NewPriorityJob u now t p prio) = None \<longleftrightarrow> t \<noteq> [] \<and> 1 \<le> prio \<and> prio \<le> 10"
  using assms by (simp add: Validate_None_iff NewPriorityJob_def NewJob_def Let_def)

theorem NewPriorityJob_valid_iff_witness:
  "Validate (\<lambda>s. length s = 36) sample_job = None"
  using NewPriorityJob_valid_iff [of "''6ba7b810-9dad-41d1-80b4-00c04fd430c8''" "\<lambda>s. length s = 36"
      "Time (1700000000 * second) 3600" "''email''" "Some ''{}''" 9]
  by (simp add: Validate_None_iff sample_job_def)

text \<open>Metadata behaves as a map: a key reads back the value last set under it, and setting a
  key leaves the others as they were, whether or not the map was nil before.\<close>

theorem GetMetadata_SetMetadata:
  "GetMetadata k (SetMetadata k' v j) = (if k = k' then v else GetMetadata k j)"
  by (auto simp: GetMetadata_def SetMetadata_def gomap_get_def map_of_gomap_update split: option.split)

end
