(* ===== verification/Go_Float.thy ===== *)
theory Go_Float
  imports Go_Base Complex_Main "HOL-Library.Log_Nat"
begin

text \<open>
  The \<open>float64\<close> arithmetic that the code uses (retry backoff, token bucket, durations in
  seconds): a finite value is the rational it stands for, and an operation is the exact one followed
  by rounding to 53 binary digits, to nearest with ties to even. Values outside the range of the
  format (beyond \<open>2^1024\<close>, or so small that digits are lost) do not arise in the code modelled.
\<close>

section \<open>Rounding\<close>

definition round_even :: "rat \<Rightarrow> int" where
  "round_even y =
    (let r = \<lfloor>y\<rfloor>; f = y - of_int r
     in if f < 1 / 2 then r else if f > 1 / 2 then r + 1 else if even r then r else r + 1)"

text \<open>The exponent \<open>e\<close> of a positive value: \<open>2^(e+52) \<le> x < 2^(e+53)\<close>.\<close>

definition f_exp :: "rat \<Rightarrow> int" where
  "f_exp x =
    (case quotient_of x of (p, q) \<Rightarrow>
       let d = bitlen p - bitlen q in if x < 2 powi d then d - 53 else d - 52)"

definition f_round :: "rat \<Rightarrow> rat" where
  "f_round x = (if x = 0 then 0 else let e = f_exp \<bar>x\<bar> in of_int (round_even (x / 2 powi e)) * 2 powi e)"

lemma round_even_of_int [simp]: "round_even (of_int n) = n"
  by (simp add: round_even_def)

lemma round_even_bounds: "of_int (round_even y) \<le> y + 1 / 2" "y - 1 / 2 \<le> of_int (round_even y)"
  by (simp_all add: round_even_def Let_def) linarith+

lemma round_even_mono: "y \<le> z \<Longrightarrow> round_even y \<le> round_even z"
proof (cases "\<lfloor>y\<rfloor> = \<lfloor>z\<rfloor>")
  case True
  assume "y \<le> z"
  with True show ?thesis by (auto simp: round_even_def Let_def)
next
  case False
  assume "y \<le> z"
  with False have "\<lfloor>y\<rfloor> + 1 \<le> \<lfloor>z\<rfloor>" using floor_mono [of y z] by linarith
  moreover have "round_even y \<le> \<lfloor>y\<rfloor> + 1" "\<lfloor>z\<rfloor> \<le> round_even z" by (auto simp: round_even_def Let_def)
  ultimately show ?thesis by linarith
qed

lemma round_even_ge: "of_int n \<le> y \<Longrightarrow> n \<le> round_even y"
  using round_even_mono [of "of_int n" y] by simp

lemma round_even_le: "y \<le> of_int n \<Longrightarrow> round_even y \<le> n"
  using round_even_mono [of y "of_int n"] by simp

lemma bitlen_bounds_rat:
  assumes "0 < p"
  shows "2 powi (bitlen p - 1) \<le> (of_int p :: rat)" "(of_int p :: rat) < 2 powi (bitlen p)"
proof -
  have b: "2 ^ nat (bitlen p - 1) \<le> p" "p < 2 ^ nat (bitlen p)"
    using bitlen_bounds [OF assms] by auto
  have n: "0 \<le> bitlen p - 1" using bitlen_nonneg [of p] assms bitlen_eq_zero_iff [of p] by linarith
  show "2 powi (bitlen p - 1) \<le> (of_int p :: rat)"
    using b(1) n by (simp add: power_int_def)
  show "(of_int p :: rat) < 2 powi (bitlen p)"
    using b(2) n by (simp add: power_int_def)
qed

lemma f_exp_bounds:
  assumes "0 < x"
  shows "2 powi (f_exp x + 52) \<le> x" "x < 2 powi (f_exp x + 53)"
proof -
  obtain p q where pq: "quotient_of x = (p, q)" by (rule prod.exhaust)
  have x: "x = of_int p / of_int q" and q: "0 < q"
    using quotient_of_div [OF pq] quotient_of_denom_pos [OF pq] by auto
  have p: "0 < p" using assms x q by (simp add: zero_less_divide_iff)
  define d where "d = bitlen p - bitlen q"
  have "2 powi (bitlen p - 1) / 2 powi (bitlen q) \<le> x"
    unfolding x using bitlen_bounds_rat [OF p] bitlen_bounds_rat [OF q] q p
    by (intro frac_le) auto
  then have lo: "2 powi (d - 1) \<le> x" by (simp add: d_def power_int_diff mult.commute)
  have "x < 2 powi (bitlen p) / 2 powi (bitlen q - 1)"
    unfolding x using bitlen_bounds_rat [OF p] bitlen_bounds_rat [OF q] p
    by (intro frac_less) auto
  then have hi: "x < 2 powi (d + 1)" by (simp add: d_def power_int_diff power_int_add mult.commute)
  have e: "f_exp x = (if x < 2 powi d then d - 53 else d - 52)"
    by (simp add: f_exp_def pq d_def Let_def)
  show "2 powi (f_exp x + 52) \<le> x" "x < 2 powi (f_exp x + 53)"
    using lo hi by (auto simp: e add.commute)
qed

lemma powi_less_cancel: "(2 :: rat) powi a < 2 powi b \<Longrightarrow> a < b"
  by (meson linorder_not_less one_le_numeral power_int_increasing)

lemma f_exp_mono: "0 < x \<Longrightarrow> x \<le> y \<Longrightarrow> f_exp x \<le> f_exp y"
  using f_exp_bounds [of x] f_exp_bounds [of y] powi_less_cancel [of "f_exp x + 52" "f_exp y + 53"]
  by force

lemma f_round_0 [simp]: "f_round 0 = 0"
  by (simp add: f_round_def)

text \<open>A value with at most 53 significant binary digits is kept.\<close>

lemma f_round_exact:
  assumes "x = of_int m * 2 powi e" "\<bar>m\<bar> < 2 ^ 53"
  shows "f_round x = x"
proof (cases "x = 0")
  case False
  define d where "d = f_exp \<bar>x\<bar>"
  have m: "\<bar>of_int m :: rat\<bar> < 2 ^ 53"
    using assms(2) by (metis of_int_abs of_int_less_iff of_int_numeral of_int_power)
  have "2 powi (d + 52) \<le> \<bar>x\<bar>" using f_exp_bounds [of "\<bar>x\<bar>"] False by (simp add: d_def)
  also have "\<bar>x\<bar> < 2 powi (53 + e)"
    using m by (simp add: assms(1) abs_mult power_int_add)
  finally have d: "d \<le> e" using powi_less_cancel [of "d + 52" "53 + e"] by simp
  have "(2 :: rat) powi e = 2 ^ nat (e - d) * 2 powi d"
    using d power_int_add [of "2 :: rat" "e - d" d] by (simp add: power_int_def)
  then have "x / 2 powi d = of_int (m * 2 ^ nat (e - d))" by (simp add: assms(1))
  then have "of_int (round_even (x / 2 powi d)) = x / 2 powi d" by (metis round_even_of_int)
  then show ?thesis using False by (simp add: f_round_def d_def [symmetric] Let_def)
qed simp

lemma f_round_of_int [simp]: "\<bar>n\<bar> < 2 ^ 53 \<Longrightarrow> f_round (of_int n) = of_int n"
  by (rule f_round_exact [of _ n 0]) auto

lemma f_round_nonneg: "0 \<le> x \<Longrightarrow> 0 \<le> f_round x"
  using round_even_ge [of 0 "x / 2 powi f_exp \<bar>x\<bar>"] by (auto simp: f_round_def Let_def)

lemma f_round_in_binade:
  assumes "0 < x"
  shows "2 powi (f_exp x + 52) \<le> f_round x" "f_round x \<le> 2 powi (f_exp x + 53)"
proof -
  define e where "e = f_exp x"
  have b: "2 powi (e + 52) \<le> x" "x \<le> 2 powi (e + 53)"
    using f_exp_bounds [OF assms] by (auto simp: e_def)
  then have "of_int (2 ^ 52) \<le> x / 2 powi e" "x / 2 powi e \<le> of_int (2 ^ 53)"
    by (simp_all add: power_int_add divide_simps)
  then have "2 ^ 52 \<le> round_even (x / 2 powi e)" "round_even (x / 2 powi e) \<le> 2 ^ 53"
    using round_even_ge round_even_le by blast+
  then have r: "(of_int (2 ^ 52) :: rat) \<le> of_int (round_even (x / 2 powi e))"
      "(of_int (round_even (x / 2 powi e)) :: rat) \<le> of_int (2 ^ 53)"
    by (simp_all only: of_int_le_iff)
  have f: "f_round x = of_int (round_even (x / 2 powi e)) * 2 powi e"
    using assms by (simp add: f_round_def Let_def e_def)
  show "2 powi (f_exp x + 52) \<le> f_round x" "f_round x \<le> 2 powi (f_exp x + 53)"
    using r unfolding f e_def [symmetric] by (simp_all add: power_int_add)
qed

lemma f_round_mono_pos:
  assumes "0 < x" "x \<le> y"
  shows "f_round x \<le> f_round y"
proof (cases "f_exp x = f_exp y")
  case True
  have "x / 2 powi f_exp y \<le> y / 2 powi f_exp y" using assms by (simp add: divide_right_mono)
  then show ?thesis using assms True round_even_mono [of "x / 2 powi f_exp y" "y / 2 powi f_exp y"]
    by (simp add: f_round_def Let_def)
next
  case False
  with f_exp_mono [OF assms] have "f_exp x + 53 \<le> f_exp y + 52" by simp
  then have "(2 :: rat) powi (f_exp x + 53) \<le> 2 powi (f_exp y + 52)"
    by (intro power_int_increasing) auto
  then show ?thesis
    using f_round_in_binade(2) [OF assms(1)] f_round_in_binade(1) [of y] assms by linarith
qed

lemma f_round_mono: "0 \<le> x \<Longrightarrow> x \<le> y \<Longrightarrow> f_round x \<le> f_round y"
  using f_round_mono_pos [of x y] f_round_nonneg [of y] by (cases "x = 0") auto

section \<open>Operations\<close>

definition f_add :: "rat \<Rightarrow> rat \<Rightarrow> rat" where "f_add x y = f_round (x + y)"
definition f_sub :: "rat \<Rightarrow> rat \<Rightarrow> rat" where "f_sub x y = f_round (x - y)"
definition f_mul :: "rat \<Rightarrow> rat \<Rightarrow> rat" where "f_mul x y = f_round (x * y)"
definition f_div :: "rat \<Rightarrow> rat \<Rightarrow> rat" where "f_div x y = f_round (x / y)"
definition f_of_int :: "int \<Rightarrow> rat" where "f_of_int n = f_round (of_int n)"

lemmas f_ops = f_add_def f_sub_def f_mul_def f_div_def f_of_int_def

text \<open>Conversion to \<open>int\<close> drops the fraction.\<close>

definition f_trunc :: "rat \<Rightarrow> int" where
  "f_trunc x = (if x < 0 then - \<lfloor>- x\<rfloor> else \<lfloor>x\<rfloor>)"

lemma f_trunc_of_int [simp]: "f_trunc (of_int n) = n"
  by (simp add: f_trunc_def)

text \<open>\<open>Duration.Seconds()\<close> adds the whole seconds and the nanoseconds as fractions.\<close>

definition duration_Seconds :: "int \<Rightarrow> rat" where
  "duration_Seconds d =
    (let sec = go_div d second; nsec = d - sec * second
     in f_add (f_of_int sec) (f_div (f_of_int nsec) (10 ^ 9)))"

lemma duration_Seconds_whole:
  assumes "\<bar>n\<bar> < 2 ^ 53"
  shows "duration_Seconds (n * second) = of_int n"
proof -
  have "go_div (n * second) second = n" by (auto simp: go_div_def abs_mult sgn_mult abs_sgn)
  then show ?thesis using assms by (simp add: duration_Seconds_def f_ops)
qed

lemma f_round_nonpos: "x \<le> 0 \<Longrightarrow> f_round x \<le> 0"
proof -
  assume x: "x \<le> 0"
  have "round_even (x / 2 powi f_exp \<bar>x\<bar>) \<le> 0"
    by (rule round_even_le) (use x in \<open>simp add: divide_nonpos_pos\<close>)
  then show ?thesis by (auto simp: f_round_def Let_def mult_nonpos_nonneg)
qed

lemma f_round_le: "x \<le> y \<Longrightarrow> 0 \<le> y \<Longrightarrow> f_round x \<le> f_round y"
  using f_round_mono [of x y] f_round_nonpos [of x] f_round_nonneg [of y] by linarith

text \<open>A rounded value has at most 53 binary digits, so rounding and doubling keep it.\<close>

lemma f_round_form: "\<exists>m e. f_round x = of_int m * 2 powi e \<and> \<bar>m\<bar> < 2 ^ 53"
proof (cases "x = 0")
  case True
  then show ?thesis by (intro exI [of _ 0]) simp
next
  case False
  define e where "e = f_exp \<bar>x\<bar>"
  define m where "m = round_even (x / 2 powi e)"
  have "\<bar>x\<bar> \<le> 2 powi (e + 53)" using f_exp_bounds(2) [of "\<bar>x\<bar>"] False by (simp add: e_def)
  then have "\<bar>x / 2 powi e\<bar> \<le> of_int (2 ^ 53)" by (simp add: abs_divide power_int_add divide_simps)
  then have "x / 2 powi e \<le> of_int (2 ^ 53)" "of_int (- (2 ^ 53)) \<le> x / 2 powi e" by linarith+
  then have m: "- (2 ^ 53) \<le> m" "m \<le> 2 ^ 53" unfolding m_def using round_even_ge round_even_le by blast+
  have r: "f_round x = of_int m * 2 powi e" using False by (simp add: f_round_def Let_def e_def m_def)
  show ?thesis
  proof (cases "\<bar>m\<bar> = 2 ^ 53")
    case True
    then have "m = 2 ^ 53 \<or> m = - (2 ^ 53)" by linarith
    then have "f_round x = of_int (m div 2) * 2 powi (e + 1) \<and> \<bar>m div 2\<bar> < 2 ^ 53"
      by (elim disjE) (simp_all add: r power_int_add)
    then show ?thesis by blast
  next
    case False
    then show ?thesis using r m by (intro exI [of _ m] exI [of _ e]) auto
  qed
qed

lemma f_round_idem [simp]: "f_round (f_round x) = f_round x"
  using f_round_form [of x] f_round_exact by metis

lemma f_round_double [simp]: "f_round (2 * f_round x) = 2 * f_round x"
proof -
  obtain m e where m: "f_round x = of_int m * 2 powi e" "\<bar>m\<bar> < 2 ^ 53" using f_round_form by blast
  then show ?thesis by (intro f_round_exact [of _ m "e + 1"]) (simp_all add: power_int_add)
qed

lemma f_trunc_mono: "x \<le> y \<Longrightarrow> f_trunc x \<le> f_trunc y"
proof (cases "x < 0 \<and> \<not> y < 0")
  case True
  then have "0 \<le> \<lfloor>- x\<rfloor>" "0 \<le> \<lfloor>y\<rfloor>" by simp_all
  moreover have "f_trunc x = - \<lfloor>- x\<rfloor>" "f_trunc y = \<lfloor>y\<rfloor>" using True by (simp_all only: f_trunc_def if_True if_False)
  ultimately show ?thesis by linarith
next
  case False
  assume "x \<le> y"
  with False show ?thesis using floor_mono [of x y] floor_mono [of "- y" "- x"] by (auto simp: f_trunc_def)
qed

lemma f_trunc_ge: "of_int n \<le> x \<Longrightarrow> n \<le> f_trunc x"
  using f_trunc_mono [of "of_int n" x] by simp

end
