(* ===== verification/Redis_Base.thy ===== *)
theory Redis_Base
  imports Job Go_Float
begin

text \<open>
  What the program sees of Redis and of the other outside sources: the commands that it sends
  through go-redis, the replies, the environment of functions that stand for third-party code
  (go-redis, the clock, the uuid library) and the world they act on. The client's own mutable
  fields are kept in the same record \<open>world\<close>, so that one state is threaded through the code.
\<close>

section \<open>Commands, replies and the environment\<close>

text \<open>The program texts of the Lua scripts that the code sends; what they do is translated in the
  theories of the packages that hold them.\<close>

datatype script = claimJobScript | ackJobScript | nackJobScript | recoverStuckJobsScript
  | deduplicationCheckScript | limiterScript | limiterCountScript

text \<open>
  The calls of go-redis that the code makes, with their arguments as the library sends them
  (decimal text for a number passed as a script argument or a range bound). \<open>SET\<close>, \<open>SETNX\<close>,
  \<open>EXPIRE\<close> and \<open>BLMOVE\<close> take a duration in nanoseconds. The last six commands are only issued by
  Lua scripts.
\<close>

datatype rcmd =
    PING | GET string | SET string string int | SETNX string string int | DEL "string list"
  | EXISTS "string list" | EXPIRE string int
  | LPUSH string "string list" | RPUSH string "string list" | LPOP string | RPOP string
  | BLMOVE string string string string int | LMOVE string string string string
  | LLEN string | LRANGE string int int | LREM string int string
  | HSET string "string list" | HGET string string | HGETALL string | HDEL string "string list"
  | ZADD string "(int \<times> string) list" | ZREM string "string list"
  | ZRANGEBYSCORE string string string int int | ZCARD string
  | EVAL script "string list" "string list" | EVALSHA string "string list" "string list"
  | SCRIPT_LOAD script
  | SET_EX string string string | ZADD_ARG string string string
  | ZRANGEBYSCORE_ARG string string string string
  | ZREMRANGEBYSCORE string string string | PEXPIRE string string | RANDOM

datatype reply = RNull | RStatus string | RBulk string | RInt int | RArray "string list"
  | RHash gomap

record 's env =
  rdb :: "rcmd \<Rightarrow> ('s, goerror + reply) state"
  time_Now :: "('s, gotime) state"
  uuid_New :: "('s, string) state"
  uuid_ok :: "string \<Rightarrow> bool"
  rand_Float64 :: "('s, rat) state"

datatype circuitState = circuitClosed | circuitOpen | circuitHalfOpen

text \<open>The fields \<open>state\<close>, \<open>failures\<close> and \<open>lastFailure\<close> of the struct \<open>client\<close>.\<close>

record 's world =
  srv :: 's
  cstate :: circuitState
  failures :: "32 word"
  lastFailure :: int

definition on_srv :: "('s, 'a) state \<Rightarrow> ('s world, 'a) state" where
  "on_srv m = State (\<lambda>w. case run_state m (srv w) of (a, s) \<Rightarrow> (a, w\<lparr>srv := s\<rparr>))"

lemma run_on_srv [run_simps]:
  "run_state (on_srv m) w = (case run_state m (srv w) of (a, s) \<Rightarrow> (a, w\<lparr>srv := s\<rparr>))"
  by (simp add: on_srv_def)

end
