(* ===== verification/Redis_Client.thy ===== *)
theory Redis_Client
  imports Redis_Base
begin

text \<open>
  Package \<open>redis\<close> (\<open>internal/redis/client.go\<close>, \<open>internal/redis/options.go\<close>): the connection
  options and the client wrapper with its circuit breaker. The library go-redis is the parameter
  \<open>rdb\<close> of the environment, which runs one command and returns its reply or an error.
\<close>

section \<open>Options\<close>

record Options =
  Host :: string
  Port :: int
  Password :: string
  DB :: int
  PoolSize :: int
  MinIdleConns :: int
  MaxRetries_opt :: int
  DialTimeout :: int
  ReadTimeout :: int
  WriteTimeout :: int
  CircuitBreakerThreshold :: int
  CircuitBreakerTimeout :: int
  ReconnectBackoffInitial :: int
  ReconnectBackoffMax :: int

definition redis_DefaultOptions :: Options where
  "redis_DefaultOptions = \<lparr>Host = ''localhost'', Port = 6379, Password = [], DB = 0, PoolSize = 10,
     MinIdleConns = 2, MaxRetries_opt = 3, DialTimeout = 5 * second, ReadTimeout = 3 * second,
     WriteTimeout = 3 * second, CircuitBreakerThreshold = 5, CircuitBreakerTimeout = 30 * second,
     ReconnectBackoffInitial = 1 * second, ReconnectBackoffMax = 30 * second\<rparr>"

text \<open>The loop of \<open>itoa\<close>; \<open>i\<close> is positive while it runs.\<close>

function itoa_loop :: "int \<Rightarrow> string \<Rightarrow> string" where
  "itoa_loop i s =
    (if i > 0 then itoa_loop (i div 10) (char_of (48 + nat (i mod 10)) # s) else s)"
  by pat_completeness auto
termination by (relation "measure (\<lambda>(i, s). nat i)") auto

declare itoa_loop.simps [simp del]

text \<open>\<open>i = -i\<close> leaves the least integer negative, so that the loop does not run.\<close>

definition itoa :: "int \<Rightarrow> string" where
  "itoa i =
    (if i = 0 then ''0''
     else let neg = i < 0; s = itoa_loop (if neg then i64 (- i) else i) ''''
          in if neg then CHR ''-'' # s else s)"

definition Addr :: "Options \<Rightarrow> string" where
  "Addr opts = Host opts @ '':'' @ itoa (Port opts)"

section \<open>The client\<close>

record 's client =
  cenv :: "'s env"
  copts :: Options

definition client_New :: "'s env \<Rightarrow> Options \<Rightarrow> 's \<Rightarrow> 's client \<times> 's world" where
  "client_New env opts s =
    (\<lparr>cenv = env, copts = opts\<rparr>,
     \<lparr>srv = s, cstate = circuitClosed, failures = 0, lastFailure = 0\<rparr>)"

definition ErrNotFound :: goerror where "ErrNotFound = Sentinel ''key not found''"
definition ErrCircuitOpen :: goerror where
  "ErrCircuitOpen = Sentinel ''circuit breaker is open, check redis connectivity''"

definition wrapError :: "string \<Rightarrow> goerror \<Rightarrow> goerror" where
  "wrapError op err =
    (if err = RedisNil then Wrapf (''redis '' @ op) ErrNotFound else Wrapf (''redis '' @ op) err)"

text \<open>\<open>time.Since(time.Unix(0, n))\<close>: the difference, clamped to the 64 bits of a duration.\<close>

definition saturate64 :: "int \<Rightarrow> int" where
  "saturate64 d = max (- (2 ^ 63)) (min (2 ^ 63 - 1) d)"

definition now :: "'s client \<Rightarrow> ('s world, gotime) state" where
  "now c = on_srv (time_Now (cenv c))"

definition checkCircuit :: "'s client \<Rightarrow> ('s world, goerror option) state" where
  "checkCircuit c = do {
     w \<leftarrow> read_state;
     case cstate w of
       circuitOpen \<Rightarrow> do {
         t \<leftarrow> now c;
         if saturate64 (t_ns t - lastFailure w) > CircuitBreakerTimeout (copts c) then do {
           modify_state (\<lambda>w. w\<lparr>cstate := circuitHalfOpen\<rparr>);
           ret None
         } else ret (Some ErrCircuitOpen)
       }
     | circuitHalfOpen \<Rightarrow> ret None
     | circuitClosed \<Rightarrow> ret None
   }"

definition recordSuccess :: "('s world, unit) state" where
  "recordSuccess = modify_state (\<lambda>w. w\<lparr>failures := 0, cstate := circuitClosed\<rparr>)"

definition recordFailure :: "'s client \<Rightarrow> ('s world, unit) state" where
  "recordFailure c = do {
     modify_state (\<lambda>w. w\<lparr>failures := failures w + 1\<rparr>);
     t \<leftarrow> now c;
     modify_state (\<lambda>w. w\<lparr>lastFailure := i64 (t_ns t)\<rparr>);
     w \<leftarrow> read_state;
     if sint (failures w) \<ge> CircuitBreakerThreshold (copts c)
     then modify_state (\<lambda>w. w\<lparr>cstate := circuitOpen\<rparr>) else ret ()
   }"

text \<open>
  The body that the wrappers share: the breaker's check, the call, and the recording of its
  outcome. \<open>nil_ok\<close> says whether the wrapper tests \<open>err != redis.Nil\<close> before it records a
  failure; \<open>conv\<close> is the typed result (\<open>Result()\<close> or \<open>Err()\<close>) of the call.
\<close>

definition call :: "'s client \<Rightarrow> bool \<Rightarrow> string \<Rightarrow> (goerror + reply \<Rightarrow> goerror + 'a) \<Rightarrow> rcmd \<Rightarrow>
    ('s world, goerror + 'a) state" where
  "call c nil_ok op conv cmd = do {
     e \<leftarrow> checkCircuit c;
     case e of
       Some err \<Rightarrow> ret (Inl err)
     | None \<Rightarrow> do {
         r \<leftarrow> on_srv (rdb (cenv c) cmd);
         case conv r of
           Inl err \<Rightarrow> do {
             (if nil_ok \<and> err = RedisNil then ret () else recordFailure c);
             ret (Inl (wrapError op err))
           }
         | Inr v \<Rightarrow> do { recordSuccess; ret (Inr v) }
       }
   }"

text \<open>The typed results of go-redis; a reply of another type is its \<open>can't parse\<close> error.\<close>

definition parse_failure :: goerror where "parse_failure = Extern ''redis: can't parse reply''"

definition as_unit :: "goerror + reply \<Rightarrow> goerror + unit" where
  "as_unit r = map_sum id (\<lambda>_. ()) r"

definition as_string :: "goerror + reply \<Rightarrow> goerror + string" where
  "as_string r = (case r of Inl e \<Rightarrow> Inl e | Inr (RBulk s) \<Rightarrow> Inr s | Inr (RStatus s) \<Rightarrow> Inr s
     | Inr _ \<Rightarrow> Inl parse_failure)"

definition as_int :: "goerror + reply \<Rightarrow> goerror + int" where
  "as_int r = (case r of Inl e \<Rightarrow> Inl e | Inr (RInt i) \<Rightarrow> Inr i | Inr _ \<Rightarrow> Inl parse_failure)"

definition as_bool :: "goerror + reply \<Rightarrow> goerror + bool" where
  "as_bool r = (case r of Inl e \<Rightarrow> Inl e | Inr (RInt i) \<Rightarrow> Inr (i = 1) | Inr _ \<Rightarrow> Inl parse_failure)"

definition as_strings :: "goerror + reply \<Rightarrow> goerror + string list" where
  "as_strings r = (case r of Inl e \<Rightarrow> Inl e | Inr (RArray xs) \<Rightarrow> Inr xs | Inr _ \<Rightarrow> Inl parse_failure)"

definition as_map :: "goerror + reply \<Rightarrow> goerror + gomap" where
  "as_map r = (case r of Inl e \<Rightarrow> Inl e | Inr (RHash m) \<Rightarrow> Inr m | Inr _ \<Rightarrow> Inl parse_failure)"

lemmas typed_results = as_unit_def as_string_def as_int_def as_bool_def as_strings_def as_map_def

subsection \<open>The wrappers\<close>

definition Ping :: "'s client \<Rightarrow> ('s world, goerror + unit) state" where
  "Ping c = call c False ''ping'' as_unit PING"

definition Get :: "'s client \<Rightarrow> string \<Rightarrow> ('s world, goerror + string) state" where
  "Get c key = call c True ''get'' as_string (GET key)"

definition Set :: "'s client \<Rightarrow> string \<Rightarrow> string \<Rightarrow> int \<Rightarrow> ('s world, goerror + unit) state" where
  "Set c key value expiration = call c False ''set'' as_unit (SET key value expiration)"

definition Del :: "'s client \<Rightarrow> string list \<Rightarrow> ('s world, goerror + unit) state" where
  "Del c ks = call c False ''del'' as_unit (DEL ks)"

definition Exists :: "'s client \<Rightarrow> string list \<Rightarrow> ('s world, goerror + int) state" where
  "Exists c ks = call c False ''exists'' as_int (EXISTS ks)"

definition Expire :: "'s client \<Rightarrow> string \<Rightarrow> int \<Rightarrow> ('s world, goerror + bool) state" where
  "Expire c key expiration = call c False ''expire'' as_bool (EXPIRE key expiration)"

definition LPush :: "'s client \<Rightarrow> string \<Rightarrow> string list \<Rightarrow> ('s world, goerror + unit) state" where
  "LPush c key vals = call c False ''lpush'' as_unit (LPUSH key vals)"

definition RPush :: "'s client \<Rightarrow> string \<Rightarrow> string list \<Rightarrow> ('s world, goerror + unit) state" where
  "RPush c key vals = call c False ''rpush'' as_unit (RPUSH key vals)"

definition LPop :: "'s client \<Rightarrow> string \<Rightarrow> ('s world, goerror + string) state" where
  "LPop c key = call c True ''lpop'' as_string (LPOP key)"

definition RPop :: "'s client \<Rightarrow> string \<Rightarrow> ('s world, goerror + string) state" where
  "RPop c key = call c True ''rpop'' as_string (RPOP key)"

definition BLMove :: "'s client \<Rightarrow> string \<Rightarrow> string \<Rightarrow> string \<Rightarrow> string \<Rightarrow> int \<Rightarrow>
    ('s world, goerror + string) state" where
  "BLMove c source dest srcpos destpos timeout =
    call c True ''blmove'' as_string (BLMOVE source dest srcpos destpos timeout)"

definition LMove :: "'s client \<Rightarrow> string \<Rightarrow> string \<Rightarrow> string \<Rightarrow> string \<Rightarrow>
    ('s world, goerror + string) state" where
  "LMove c source dest srcpos destpos =
    call c True ''lmove'' as_string (LMOVE source dest srcpos destpos)"

definition LLen :: "'s client \<Rightarrow> string \<Rightarrow> ('s world, goerror + int) state" where
  "LLen c key = call c False ''llen'' as_int (LLEN key)"

definition LRange :: "'s client \<Rightarrow> string \<Rightarrow> int \<Rightarrow> int \<Rightarrow> ('s world, goerror + string list) state" where
  "LRange c key start stop = call c False ''lrange'' as_strings (LRANGE key start stop)"

definition LRem :: "'s client \<Rightarrow> string \<Rightarrow> int \<Rightarrow> string \<Rightarrow> ('s world, goerror + unit) state" where
  "LRem c key count value = call c False ''lrem'' as_unit (LREM key count value)"

definition HSet :: "'s client \<Rightarrow> string \<Rightarrow> string list \<Rightarrow> ('s world, goerror + unit) state" where
  "HSet c key vals = call c False ''hset'' as_unit (HSET key vals)"

definition HGet :: "'s client \<Rightarrow> string \<Rightarrow> string \<Rightarrow> ('s world, goerror + string) state" where
  "HGet c key field = call c True ''hget'' as_string (HGET key field)"

definition HGetAll :: "'s client \<Rightarrow> string \<Rightarrow> ('s world, goerror + gomap) state" where
  "HGetAll c key = call c False ''hgetall'' as_map (HGETALL key)"

definition HDel :: "'s client \<Rightarrow> string \<Rightarrow> string list \<Rightarrow> ('s world, goerror + unit) state" where
  "HDel c key flds = call c False ''hdel'' as_unit (HDEL key flds)"

text \<open>A score is a \<open>float64\<close>; the code only passes whole seconds, kept here as integers.\<close>

datatype Z = Z (Score: int) (Member: string)

definition ZAdd :: "'s client \<Rightarrow> string \<Rightarrow> Z list \<Rightarrow> ('s world, goerror + unit) state" where
  "ZAdd c key members =
    call c False ''zadd'' as_unit (ZADD key (map (\<lambda>m. (Score m, Member m)) members))"

definition ZRem :: "'s client \<Rightarrow> string \<Rightarrow> string list \<Rightarrow> ('s world, goerror + unit) state" where
  "ZRem c key members = call c False ''zrem'' as_unit (ZREM key members)"

record ZRangeBy =
  Min :: string
  Max :: string
  Offset :: int
  Count :: int

definition ZRangeByScore :: "'s client \<Rightarrow> string \<Rightarrow> ZRangeBy \<Rightarrow> ('s world, goerror + string list) state" where
  "ZRangeByScore c key opt =
    call c False ''zrangebyscore'' as_strings
      (ZRANGEBYSCORE key (Min opt) (Max opt) (Offset opt) (Count opt))"

definition ZCard :: "'s client \<Rightarrow> string \<Rightarrow> ('s world, goerror + int) state" where
  "ZCard c key = call c False ''zcard'' as_int (ZCARD key)"

definition SetNX :: "'s client \<Rightarrow> string \<Rightarrow> string \<Rightarrow> int \<Rightarrow> ('s world, goerror + bool) state" where
  "SetNX c key value expiration = call c False ''setnx'' as_bool (SETNX key value expiration)"

definition Eval :: "'s client \<Rightarrow> script \<Rightarrow> string list \<Rightarrow> string list \<Rightarrow>
    ('s world, goerror + reply) state" where
  "Eval c script ks args = call c False ''eval'' id (EVAL script ks args)"

definition EvalSha :: "'s client \<Rightarrow> string \<Rightarrow> string list \<Rightarrow> string list \<Rightarrow>
    ('s world, goerror + reply) state" where
  "EvalSha c sha ks args = call c False ''evalsha'' id (EVALSHA sha ks args)"

definition ScriptLoad :: "'s client \<Rightarrow> script \<Rightarrow> ('s world, goerror + string) state" where
  "ScriptLoad c script = call c False ''scriptload'' as_string (SCRIPT_LOAD script)"

definition IsHealthy :: "'s world \<Rightarrow> bool" where
  "IsHealthy w \<longleftrightarrow> cstate w \<noteq> circuitOpen"

lemmas wrapper_defs = Ping_def Get_def Set_def Del_def Exists_def Expire_def LPush_def RPush_def
  LPop_def RPop_def BLMove_def LMove_def LLen_def LRange_def LRem_def HSet_def HGet_def HGetAll_def
  HDel_def ZAdd_def ZRem_def ZRangeByScore_def ZCard_def SetNX_def Eval_def EvalSha_def ScriptLoad_def

section \<open>Decimal text of the port\<close>

lemma itoa_loop_nat: "itoa_loop (int n) s = (if n = 0 then s else format_nat n @ s)"
proof (induction n arbitrary: s rule: less_induct)
  case (less n)
  show ?case
  proof (cases "n < 10")
    case True
    then show ?thesis
      using less [of 0] by (cases "n = 0")
        (auto simp: itoa_loop.simps [of "int n"] itoa_loop.simps [of 0] format_nat.simps digit_char_def
          nat_mod_distrib)
  next
    case False
    then have "format_nat n = format_nat (n div 10) @ [digit_char (n mod 10)]"
      by (subst format_nat.simps) simp
    moreover have "itoa_loop (int n) s = itoa_loop (int (n div 10)) (char_of (48 + n mod 10) # s)"
      using False by (subst itoa_loop.simps) (simp add: zdiv_int nat_mod_distrib)
    ultimately show ?thesis using False less [of "n div 10" "char_of (48 + n mod 10) # s"]
      by (simp add: digit_char_def)
  qed
qed

lemma itoa_loop_pos: "0 < i \<Longrightarrow> itoa_loop i s = format_nat (nat i) @ s"
  using itoa_loop_nat [of "nat i" s] by simp

lemma format_nat_0: "format_nat 0 = ''0''"
  by code_simp

text \<open>C26. \<open>itoa\<close>, written to avoid importing \<open>strconv\<close>, agrees with the decimal form of every
  64-bit integer but the least one, so \<open>Addr\<close> gives the host and the port in decimal.\<close>

theorem itoa_decimal:
  assumes "int64_range i" "i \<noteq> - (2 ^ 63)"
  shows "itoa i = format_int i"
proof -
  have "int64_range (- i)" using assms by (auto simp: int64_range_def)
  then show ?thesis
    by (auto simp: itoa_def format_int_def itoa_loop_pos format_nat_0)
qed

theorem itoa_decimal_witness: "itoa 6379 = format_int 6379 \<and> itoa (- 10) = format_int (- 10)"
  using itoa_decimal [of 6379] itoa_decimal [of "- 10"] by (simp add: int64_range_def)

section \<open>The circuit breaker\<close>

text \<open>One guarded call, by the outcome of the breaker's check and of the command.\<close>

lemma run_call:
  "run_state (call c nil_ok op conv cmd) w =
    (case run_state (checkCircuit c) w of
       (Some err, w1) \<Rightarrow> (Inl err, w1)
     | (None, w1) \<Rightarrow>
        (case run_state (rdb (cenv c) cmd) (srv w1) of (r, s) \<Rightarrow>
          (case conv r of
             Inl err \<Rightarrow> (Inl (wrapError op err),
               if nil_ok \<and> err = RedisNil then w1\<lparr>srv := s\<rparr>
               else snd (run_state (recordFailure c) (w1\<lparr>srv := s\<rparr>)))
           | Inr v \<Rightarrow> (Inr v, w1\<lparr>srv := s, failures := 0, cstate := circuitClosed\<rparr>))))"
  by (simp add: call_def recordSuccess_def run_simps split: prod.splits option.splits sum.splits)

lemma run_recordFailure:
  "run_state (recordFailure c) w =
    (case run_state (time_Now (cenv c)) (srv w) of (t, s) \<Rightarrow>
       ((), w\<lparr>srv := s, failures := failures w + 1, lastFailure := i64 (t_ns t),
          cstate := (if CircuitBreakerThreshold (copts c) \<le> sint (failures w + 1)
                     then circuitOpen else cstate w)\<rparr>))"
  by (simp add: recordFailure_def now_def run_simps split: prod.splits)

lemma run_checkCircuit:
  "run_state (checkCircuit c) w =
    (if cstate w = circuitOpen then
       (case run_state (time_Now (cenv c)) (srv w) of (t, s) \<Rightarrow>
          if CircuitBreakerTimeout (copts c) < saturate64 (t_ns t - lastFailure w)
          then (None, w\<lparr>srv := s, cstate := circuitHalfOpen\<rparr>)
          else (Some ErrCircuitOpen, w\<lparr>srv := s\<rparr>))
     else (None, w))"
  by (cases "cstate w") (simp_all add: checkCircuit_def now_def run_simps split: prod.splits)

lemma checkCircuit_healthy [run_simps]: "IsHealthy w \<Longrightarrow> run_state (checkCircuit c) w = (None, w)"
  by (simp add: run_checkCircuit IsHealthy_def)

text \<open>
  The relation between the failure counter and the state that the breaker maintains: it is closed
  exactly while fewer failures than the threshold are on record.
\<close>

definition breaker_inv :: "'s client \<Rightarrow> 's world \<Rightarrow> bool" where
  "breaker_inv c w \<longleftrightarrow>
     (cstate w = circuitClosed \<longleftrightarrow> sint (failures w) < CircuitBreakerThreshold (copts c))"

lemma sint_Suc: "sint x < 2 ^ 31 - 1 \<Longrightarrow> sint (x + 1 :: 32 word) = sint x + 1"
  using sint_range_size [of x]
  by (simp add: sint_word_ariths word_size signed_take_bit_int_eq_self)

lemma recordFailure_inv:
  assumes "breaker_inv c w" "sint (failures w) < 2 ^ 31 - 1"
  shows "breaker_inv c (snd (run_state (recordFailure c) w))"
  using assms sint_Suc [OF assms(2)]
  by (auto simp: breaker_inv_def run_recordFailure split: prod.split)

lemma checkCircuit_inv:
  "breaker_inv c w \<Longrightarrow> breaker_inv c (snd (run_state (checkCircuit c) w)) \<and>
     failures (snd (run_state (checkCircuit c) w)) = failures w"
  by (auto simp: breaker_inv_def run_checkCircuit split: prod.split)


text \<open>A clock and a server that refuses every connection, for concrete runs.\<close>

definition down_env :: "int env" where
  "down_env = \<lparr>rdb = (\<lambda>_. ret (Inl (Extern ''dial tcp: connection refused''))),
     time_Now = do { t \<leftarrow> read_state; modify_state (\<lambda>t. t + 1); ret (Time t 0) },
     uuid_New = ret [], uuid_ok = (\<lambda>_. False), rand_Float64 = ret 0\<rparr>"

definition down_client :: "int client" where
  "down_client = fst (client_New down_env redis_DefaultOptions 0)"


text \<open>While the circuit is open and its timeout has not passed since the last failure, a call
  fails at once with \<open>ErrCircuitOpen\<close>: nothing is sent to Redis (only the clock was read) and the
  breaker is left as it was.\<close>

theorem open_circuit_rejects:
  assumes "cstate w = circuitOpen" "run_state (time_Now (cenv c)) (srv w) = (t, s)"
    and "saturate64 (t_ns t - lastFailure w) \<le> CircuitBreakerTimeout (copts c)"
  shows "run_state (call c nil_ok op conv cmd) w = (Inl ErrCircuitOpen, w\<lparr>srv := s\<rparr>)"
  using assms by (simp add: run_call run_checkCircuit)

theorem open_circuit_rejects_witness:
  "run_state (Set down_client ''k'' ''v'' 0)
     \<lparr>srv = 7, cstate = circuitOpen, failures = 5, lastFailure = 3\<rparr> =
   (Inl ErrCircuitOpen, \<lparr>srv = 8, cstate = circuitOpen, failures = 5, lastFailure = 3\<rparr>)"
  using open_circuit_rejects [of "\<lparr>srv = 7, cstate = circuitOpen, failures = 5, lastFailure = 3\<rparr>"
      down_client "Time 7 0" 8 False "''set''" as_unit "SET ''k'' ''v'' 0"]
  by (simp add: Set_def down_client_def client_New_def down_env_def redis_DefaultOptions_def
      saturate64_def)

text \<open>A sequence of calls through the wrapper.\<close>

fun run_calls :: "'s client \<Rightarrow> (bool \<times> string \<times> rcmd) list \<Rightarrow> 's world \<Rightarrow> 's world" where
  "run_calls c [] w = w"
| "run_calls c ((nil_ok, op, cmd) # calls) w =
     run_calls c calls (snd (run_state (call c nil_ok op as_unit cmd) w))"

definition server_down :: "'s env \<Rightarrow> bool" where
  "server_down env \<longleftrightarrow>
     (\<forall>cmd s. \<exists>e. fst (run_state (rdb env cmd) s) = Inl e \<and> e \<noteq> RedisNil)"

lemma failing_call:
  assumes "server_down (cenv c)" "cstate w = circuitClosed" "int k < 2 ^ 31 - 1"
    and "failures w = of_nat k"
  shows "failures (snd (run_state (call c nil_ok op as_unit cmd) w)) = of_nat (Suc k)"
    and "cstate (snd (run_state (call c nil_ok op as_unit cmd) w)) =
      (if CircuitBreakerThreshold (copts c) \<le> int (Suc k) then circuitOpen else circuitClosed)"
proof -
  obtain e s where r: "run_state (rdb (cenv c) cmd) (srv w) = (Inl e, s)" "e \<noteq> RedisNil"
    using assms(1) unfolding server_down_def by (metis fst_conv surj_pair)
  have k: "sint (of_nat k :: 32 word) = int k"
    using assms(3) by (simp add: signed_of_nat signed_take_bit_int_eq_self)
  then have k': "sint (of_nat k + 1 :: 32 word) = int k + 1"
    using sint_Suc [of "of_nat k"] assms(3) by simp
  note run = run_call checkCircuit_healthy IsHealthy_def run_recordFailure as_unit_def r
  show "failures (snd (run_state (call c nil_ok op as_unit cmd) w)) = of_nat (Suc k)"
    using assms(2,4) r by (simp add: run split: prod.split)
  show "cstate (snd (run_state (call c nil_ok op as_unit cmd) w)) =
      (if CircuitBreakerThreshold (copts c) \<le> int (Suc k) then circuitOpen else circuitClosed)"
    using assms(2,4) r k' by (simp add: run add.commute split: prod.split)
qed

lemma failing_calls:
  assumes "server_down (cenv c)" "CircuitBreakerThreshold (copts c) < 2 ^ 31"
  shows "cstate w = circuitClosed \<Longrightarrow> failures w = of_nat k \<Longrightarrow>
    int k < CircuitBreakerThreshold (copts c) \<Longrightarrow>
    int (k + length calls) \<le> CircuitBreakerThreshold (copts c) \<Longrightarrow>
    cstate (run_calls c calls w) =
      (if int (k + length calls) = CircuitBreakerThreshold (copts c) then circuitOpen else circuitClosed)"
proof (induction calls arbitrary: w k)
  case (Cons a calls)
  obtain nil_ok op cmd where a: "a = (nil_ok, op, cmd)" by (rule prod_cases3)
  define w' where "w' = snd (run_state (call c nil_ok op as_unit cmd) w)"
  have k: "int k < 2 ^ 31 - 1" using Cons.prems(3) assms(2) by simp
  note step = failing_call [OF assms(1) Cons.prems(1) k Cons.prems(2), of nil_ok op cmd, folded w'_def]
  show ?case
  proof (cases calls)
    case Nil
    then show ?thesis using step(2) Cons.prems(3,4) by (auto simp: a w'_def [symmetric])
  next
    case (Cons b bs)
    then have "int (Suc k) < CircuitBreakerThreshold (copts c)" using Cons.prems(4) by simp
    then show ?thesis using Cons.IH [of w' "Suc k"] step Cons.prems(4)
      by (simp add: a w'_def [symmetric])
  qed
qed auto

text \<open>With Redis unreachable, a fresh breaker admits every call until as many of them as its
  threshold have failed and opens at exactly that one, not before.\<close>

theorem breaker_opens_at_threshold:
  assumes "server_down (cenv c)" "cstate w = circuitClosed" "failures w = 0"
    and "0 < CircuitBreakerThreshold (copts c)" "CircuitBreakerThreshold (copts c) < 2 ^ 31"
    and "int (length calls) \<le> CircuitBreakerThreshold (copts c)"
  shows "cstate (run_calls c calls w) = circuitOpen \<longleftrightarrow>
    int (length calls) = CircuitBreakerThreshold (copts c)"
  using failing_calls [of c w 0 calls] assms by simp

theorem breaker_opens_at_threshold_witness:
  "cstate (run_calls down_client (replicate 5 (True, ''get'', GET ''k''))
     (snd (client_New down_env redis_DefaultOptions 0))) = circuitOpen"
  by (subst breaker_opens_at_threshold)
    (simp_all add: down_client_def client_New_def down_env_def redis_DefaultOptions_def server_down_def)

end
