(* ===== verification/Lua_Scripts.thy ===== *)
theory Lua_Scripts
  imports Redis_Base
begin

text \<open>
  The Lua scripts that the program sends to Redis (\<open>internal/queue/lua_scripts.go\<close> and the two of
  \<open>internal/ratelimit/redis_limiter.go\<close>), translated one by one. A script runs inside the server:
  \<open>exec\<close> is \<open>redis.call\<close>, which replies or raises; an error aborts the script and keeps what it
  did so far. A null reply is Lua's \<open>false\<close>, and a script that returns \<open>nil\<close> (or nothing) gives
  a null reply.
\<close>

type_synonym 'd redis_call = "rcmd \<Rightarrow> ('d, goerror + reply) state"

text \<open>A script run with fewer keys or arguments than it reads stops at the missing value.\<close>

definition lua_error :: "('d, goerror + reply) state" where
  "lua_error = ret (Inl (Extern ''ERR Error running script''))"

section \<open>Scripts of the queue\<close>

definition claimJob_lua :: "'d redis_call \<Rightarrow> string list \<Rightarrow> string list \<Rightarrow> ('d, goerror + reply) state" where
  "claimJob_lua exec KEYS ARGV =
    (case (KEYS, ARGV) of
       ([k1, k2, k3, k4], [ttl, ts]) \<Rightarrow>
         or_return (exec (LMOVE k1 k2 ''RIGHT'' ''LEFT'')) id (\<lambda>jobID.
           case jobID of
             RBulk jobID \<Rightarrow>
               or_return (exec (SET_EX (k3 @ jobID) ts ttl)) id (\<lambda>_.
               or_return (exec (ZADD_ARG k4 ts jobID)) id (\<lambda>_.
               ret (Inr (RBulk jobID))))
           | _ \<Rightarrow> ret (Inr RNull))
     | _ \<Rightarrow> lua_error)"

definition ackJob_lua :: "'d redis_call \<Rightarrow> string list \<Rightarrow> string list \<Rightarrow> ('d, goerror + reply) state" where
  "ackJob_lua exec KEYS ARGV =
    (case (KEYS, ARGV) of
       ([k1, k2, k3], [jobID]) \<Rightarrow>
         or_return (exec (LREM k1 1 jobID)) id (\<lambda>removed.
           case removed of
             RInt n \<Rightarrow>
               if n > 0 then
                 or_return (exec (DEL [k2])) id (\<lambda>_.
                 or_return (exec (ZREM k3 [jobID])) id (\<lambda>_.
                 ret (Inr (RInt 1))))
               else ret (Inr (RInt 0))
           | _ \<Rightarrow> lua_error)
     | _ \<Rightarrow> lua_error)"

definition nackJob_lua :: "'d redis_call \<Rightarrow> string list \<Rightarrow> string list \<Rightarrow> ('d, goerror + reply) state" where
  "nackJob_lua exec KEYS ARGV =
    (case (KEYS, ARGV) of
       ([k1, k2, k3, k4], [jobID, action]) \<Rightarrow>
         or_return (exec (LREM k1 1 jobID)) id (\<lambda>removed.
           case removed of
             RInt n \<Rightarrow>
               if n > 0 then
                 or_return (exec (DEL [k3])) id (\<lambda>_.
                 or_return (exec (ZREM k4 [jobID])) id (\<lambda>_.
                 or_return (if action = ''retry'' then exec (LPUSH k2 [jobID])
                            else exec (LPUSH k2 [jobID])) id (\<lambda>_.
                 ret (Inr (RInt 1)))))
               else ret (Inr (RInt 0))
           | _ \<Rightarrow> lua_error)
     | _ \<Rightarrow> lua_error)"

text \<open>The loop over the stuck jobs.\<close>

fun zrem_each :: "'d redis_call \<Rightarrow> string \<Rightarrow> string list \<Rightarrow> ('d, goerror + unit) state" where
  "zrem_each exec k [] = ret (Inr ())"
| "zrem_each exec k (jobID # ids) =
     or_return (exec (ZREM k [jobID])) id (\<lambda>_. zrem_each exec k ids)"

definition recoverStuckJobs_lua ::
    "'d redis_call \<Rightarrow> string list \<Rightarrow> string list \<Rightarrow> ('d, goerror + reply) state" where
  "recoverStuckJobs_lua exec KEYS ARGV =
    (case (KEYS, ARGV) of
       (k1 # _, [ts, timeout, limit]) \<Rightarrow>
         (case (parse_int ts, parse_int timeout) of
            (Some a, Some b) \<Rightarrow>
              or_return (exec (ZRANGEBYSCORE_ARG k1 ''-inf'' (format_int (a - b)) limit)) id (\<lambda>stuckJobs.
                case stuckJobs of
                  RArray ids \<Rightarrow>
                    or_return (zrem_each exec k1 ids) id (\<lambda>_. ret (Inr (RArray ids)))
                | _ \<Rightarrow> lua_error)
          | _ \<Rightarrow> lua_error)
     | _ \<Rightarrow> lua_error)"

definition deduplicationCheck_lua ::
    "'d redis_call \<Rightarrow> string list \<Rightarrow> string list \<Rightarrow> ('d, goerror + reply) state" where
  "deduplicationCheck_lua exec KEYS ARGV =
    (case (KEYS, ARGV) of
       ([k1], [ttl]) \<Rightarrow>
         or_return (exec (EXISTS [k1])) id (\<lambda>exists.
           if exists = RInt 1 then ret (Inr (RInt 0))
           else or_return (exec (SET_EX k1 ''1'' ttl)) id (\<lambda>_. ret (Inr (RInt 1))))
     | _ \<Rightarrow> lua_error)"

section \<open>Scripts of the rate limiter\<close>

text \<open>
  \<open>for i = 1, cost\<close>: \<open>RANDOM\<close> stands for \<open>math.random()\<close> and replies the text that the
  concatenation gives it. \<open>now\<close> is whole and printed in decimal (Lua prints a whole number with
  fewer than 15 digits so).
\<close>

fun zadd_each :: "'d redis_call \<Rightarrow> string \<Rightarrow> int \<Rightarrow> nat \<Rightarrow> nat \<Rightarrow> ('d, goerror + unit) state" where
  "zadd_each exec key ts i 0 = ret (Inr ())"
| "zadd_each exec key ts i (Suc n) =
     or_return (exec RANDOM) id (\<lambda>r.
     or_return (exec (ZADD_ARG key (format_int ts)
       (format_int ts @ '':'' @ format_nat i @ '':'' @ (case r of RBulk t \<Rightarrow> t | _ \<Rightarrow> [])))) id (\<lambda>_.
     zadd_each exec key ts (Suc i) n))"

definition limiter_lua :: "'d redis_call \<Rightarrow> string list \<Rightarrow> string list \<Rightarrow> ('d, goerror + reply) state" where
  "limiter_lua exec KEYS ARGV =
    (case (KEYS, map parse_int ARGV) of
       ([key], [Some ts, Some window_start, Some limit, Some cost, Some window_ms]) \<Rightarrow>
         or_return (exec (ZREMRANGEBYSCORE key ''-inf'' (format_int window_start))) id (\<lambda>_.
         or_return (exec (ZCARD key)) id (\<lambda>count.
           case count of
             RInt n \<Rightarrow>
               if n + cost > limit then ret (Inr (RInt 0))
               else
                 or_return (zadd_each exec key ts 1 (nat cost)) id (\<lambda>_.
                 or_return (exec (PEXPIRE key (format_int window_ms))) id (\<lambda>_.
                 ret (Inr (RInt 1))))
           | _ \<Rightarrow> lua_error))
     | _ \<Rightarrow> lua_error)"

definition limiterCount_lua :: "'d redis_call \<Rightarrow> string list \<Rightarrow> string list \<Rightarrow> ('d, goerror + reply) state" where
  "limiterCount_lua exec KEYS ARGV =
    (case (KEYS, ARGV) of
       ([key], [window_start]) \<Rightarrow>
         or_return (exec (ZREMRANGEBYSCORE key ''-inf'' window_start)) id (\<lambda>_. ret (Inr RNull))
     | _ \<Rightarrow> lua_error)"

section \<open>Dispatch\<close>

definition run_script :: "script \<Rightarrow> 'd redis_call \<Rightarrow> string list \<Rightarrow> string list \<Rightarrow>
    ('d, goerror + reply) state" where
  "run_script sc =
    (case sc of
       claimJobScript \<Rightarrow> claimJob_lua
     | ackJobScript \<Rightarrow> ackJob_lua
     | nackJobScript \<Rightarrow> nackJob_lua
     | recoverStuckJobsScript \<Rightarrow> recoverStuckJobs_lua
     | deduplicationCheckScript \<Rightarrow> deduplicationCheck_lua
     | limiterScript \<Rightarrow> limiter_lua
     | limiterCountScript \<Rightarrow> limiterCount_lua)"

lemma run_script_simps [simp]:
  "run_script claimJobScript = claimJob_lua" "run_script ackJobScript = ackJob_lua"
  "run_script nackJobScript = nackJob_lua"
  "run_script recoverStuckJobsScript = recoverStuckJobs_lua"
  "run_script deduplicationCheckScript = deduplicationCheck_lua"
  "run_script limiterScript = limiter_lua" "run_script limiterCountScript = limiterCount_lua"
  by (simp_all add: run_script_def)

end
