(* ===== verification/Redis_Server.thy ===== *)
theory Redis_Server
  imports Redis_Client Lua_Scripts
begin

text \<open>
  What the program relies on of the Redis server, as its documentation describes the commands: a
  keyspace of strings, lists, hashes and sorted sets with optional expiry, the list, string and
  sorted-set commands the code sends, and the loading and running of scripts. The server is third-party
  code: it enters the component theories only as the locale \<open>redis_server\<close>, whose laws say that the
  environment answers as \<open>exec\<close> does while the link is up. The last section shows that the laws can
  be met, by an environment kept in memory.
\<close>

section \<open>The keyspace\<close>

datatype rval = VStr string | VList "string list" | VHash gomap | VZset "(int \<times> string) list"

text \<open>A key maps to its value and, for a volatile key, the instant in milliseconds it expires at.\<close>

type_synonym keyspace = "string \<Rightarrow> (rval \<times> int option) option"

definition lookup :: "int \<Rightarrow> keyspace \<Rightarrow> string \<Rightarrow> (rval \<times> int option) option" where
  "lookup t db k =
    (case db k of
       None \<Rightarrow> None
     | Some (v, None) \<Rightarrow> Some (v, None)
     | Some (v, Some e) \<Rightarrow> if e \<le> t then None else Some (v, Some e))"

text \<open>A list, hash or sorted set that becomes empty is removed.\<close>

definition put_list :: "string \<Rightarrow> string list \<Rightarrow> int option \<Rightarrow> keyspace \<Rightarrow> keyspace" where
  "put_list k xs e db = db(k := if xs = [] then None else Some (VList xs, e))"

definition put_zset :: "string \<Rightarrow> (int \<times> string) list \<Rightarrow> int option \<Rightarrow> keyspace \<Rightarrow> keyspace" where
  "put_zset k xs e db = db(k := if xs = [] then None else Some (VZset xs, e))"

definition put_hash :: "string \<Rightarrow> gomap \<Rightarrow> int option \<Rightarrow> keyspace \<Rightarrow> keyspace" where
  "put_hash k m e db = db(k := if m = [] then None else Some (VHash m, e))"

definition put_str :: "string \<Rightarrow> string \<Rightarrow> int option \<Rightarrow> keyspace \<Rightarrow> keyspace" where
  "put_str k v e db = db(k := Some (VStr v, e))"

definition rm :: "string \<Rightarrow> keyspace \<Rightarrow> keyspace" where
  "rm k db = db(k := None)"

definition WRONGTYPE :: "goerror + reply" where
  "WRONGTYPE = Inl (Extern ''WRONGTYPE Operation against a key holding the wrong kind of value'')"

definition not_an_integer :: "goerror + reply" where
  "not_an_integer = Inl (Extern ''ERR value is not an integer or out of range'')"

section \<open>Commands\<close>

type_synonym answer = "(goerror + reply) \<times> keyspace"

definition with_list :: "int \<Rightarrow> keyspace \<Rightarrow> string \<Rightarrow> (string list \<Rightarrow> int option \<Rightarrow> answer) \<Rightarrow> answer" where
  "with_list t db k f =
    (case lookup t db k of
       None \<Rightarrow> f [] None
     | Some (VList xs, e) \<Rightarrow> f xs e
     | _ \<Rightarrow> (WRONGTYPE, db))"

definition with_zset ::
    "int \<Rightarrow> keyspace \<Rightarrow> string \<Rightarrow> ((int \<times> string) list \<Rightarrow> int option \<Rightarrow> answer) \<Rightarrow> answer" where
  "with_zset t db k f =
    (case lookup t db k of
       None \<Rightarrow> f [] None
     | Some (VZset xs, e) \<Rightarrow> f xs e
     | _ \<Rightarrow> (WRONGTYPE, db))"

definition with_hash :: "int \<Rightarrow> keyspace \<Rightarrow> string \<Rightarrow> (gomap \<Rightarrow> int option \<Rightarrow> answer) \<Rightarrow> answer" where
  "with_hash t db k f =
    (case lookup t db k of
       None \<Rightarrow> f [] None
     | Some (VHash m, e) \<Rightarrow> f m e
     | _ \<Rightarrow> (WRONGTYPE, db))"

text \<open>Durations: go-redis sends whole seconds or milliseconds, at least one.\<close>

definition ttl_ms :: "int \<Rightarrow> int" where
  "ttl_ms d = max 1 (d div millisecond)"

definition ttl_secs :: "int \<Rightarrow> int" where
  "ttl_secs d = (if 0 < d \<and> d < second then 1 else d div second)"

definition expiry :: "int \<Rightarrow> int \<Rightarrow> int option" where
  "expiry t d = (if d > 0 then Some (t + ttl_ms d) else None)"

fun del_keys :: "int \<Rightarrow> string list \<Rightarrow> keyspace \<Rightarrow> int \<times> keyspace" where
  "del_keys t [] db = (0, db)"
| "del_keys t (k # ks) db =
     (case del_keys t ks (rm k db) of (n, db') \<Rightarrow> ((if lookup t db k = None then n else n + 1), db'))"

text \<open>\<open>LREM\<close>: the first \<open>n\<close> occurrences, from the tail for a negative count, all for zero.\<close>

fun remove_n :: "nat \<Rightarrow> 'a \<Rightarrow> 'a list \<Rightarrow> 'a list" where
  "remove_n n x [] = []"
| "remove_n 0 x xs = xs"
| "remove_n (Suc n) x (y # ys) = (if y = x then remove_n n x ys else y # remove_n (Suc n) x ys)"

definition lrem :: "int \<Rightarrow> string \<Rightarrow> string list \<Rightarrow> string list" where
  "lrem n x xs =
    (if n > 0 then remove_n (nat n) x xs
     else if n < 0 then rev (remove_n (nat (- n)) x (rev xs))
     else filter (\<lambda>y. y \<noteq> x) xs)"

text \<open>\<open>LRANGE\<close>: both ends included, negative indices count from the tail.\<close>

definition lrange :: "int \<Rightarrow> int \<Rightarrow> 'a list \<Rightarrow> 'a list" where
  "lrange start stop xs =
    (let n = int (length xs);
         a = max 0 (if start < 0 then n + start else start);
         b = min (n - 1) (if stop < 0 then n + stop else stop)
     in if a > b then [] else take (nat (b - a + 1)) (drop (nat a) xs))"

definition pop_at :: "string \<Rightarrow> 'a list \<Rightarrow> ('a \<times> 'a list) option" where
  "pop_at pos xs =
    (if xs = [] then None
     else if pos = ''LEFT'' then Some (hd xs, tl xs)
     else Some (last xs, butlast xs))"

definition push_at :: "string \<Rightarrow> 'a \<Rightarrow> 'a list \<Rightarrow> 'a list" where
  "push_at pos x xs = (if pos = ''LEFT'' then x # xs else xs @ [x])"

definition lmove :: "int \<Rightarrow> string \<Rightarrow> string \<Rightarrow> string \<Rightarrow> string \<Rightarrow> keyspace \<Rightarrow> answer" where
  "lmove t src dst from_pos to_pos db =
    with_list t db src (\<lambda>xs e. with_list t db dst (\<lambda>_ _.
      case pop_at from_pos xs of
        None \<Rightarrow> (Inr RNull, db)
      | Some (x, rest) \<Rightarrow>
          let db1 = put_list src rest e db
          in with_list t db1 dst (\<lambda>ys e'. (Inr (RBulk x), put_list dst (push_at to_pos x ys) e' db1))))"

text \<open>A sorted set is kept in the order of score and then member.\<close>

definition zadd :: "int \<Rightarrow> string \<Rightarrow> (int \<times> string) list \<Rightarrow> (int \<times> string) list" where
  "zadd s m xs = insort (s, m) (filter (\<lambda>p. snd p \<noteq> m) xs)"

definition zrem :: "string list \<Rightarrow> (int \<times> string) list \<Rightarrow> (int \<times> string) list" where
  "zrem ms xs = filter (\<lambda>p. snd p \<notin> set ms) xs"

text \<open>A score bound: \<open>None\<close> for an infinite one.\<close>

definition score_bound :: "string \<Rightarrow> int option option" where
  "score_bound s =
    (if s = ''-inf'' \<or> s = ''+inf'' then Some None else map_option Some (parse_int s))"

definition zrange :: "int option \<Rightarrow> int option \<Rightarrow> (int \<times> string) list \<Rightarrow> (int \<times> string) list" where
  "zrange lo hi xs =
    filter (\<lambda>p. (case lo of None \<Rightarrow> True | Some a \<Rightarrow> a \<le> fst p) \<and>
                (case hi of None \<Rightarrow> True | Some b \<Rightarrow> fst p \<le> b)) xs"

definition limit_range :: "int \<Rightarrow> int \<Rightarrow> 'a list \<Rightarrow> 'a list" where
  "limit_range off cnt xs =
    (if off = 0 \<and> cnt = 0 then xs
     else if off < 0 then []
     else let ys = drop (nat off) xs in if cnt < 0 then ys else take (nat cnt) ys)"

definition zrange_by_score :: "int \<Rightarrow> string \<Rightarrow> string \<Rightarrow> string \<Rightarrow>
    (string list \<Rightarrow> string list) \<Rightarrow> keyspace \<Rightarrow> answer" where
  "zrange_by_score t k lo hi trim db =
    (case (score_bound lo, score_bound hi) of
       (Some a, Some b) \<Rightarrow>
         with_zset t db k (\<lambda>xs _. (Inr (RArray (trim (map snd (zrange a b xs)))), db))
     | _ \<Rightarrow> (Inl (Extern ''ERR min or max is not a float''), db))"

fun hset :: "string list \<Rightarrow> gomap \<Rightarrow> gomap" where
  "hset (f # v # vs) m = hset vs (gomap_update f v m)"
| "hset _ m = m"

text \<open>
  The commands other than those on scripts. A blocking move that is answered acts as the move
  does then, or finds nothing when its time is over. \<open>rnd\<close> is the text of \<open>math.random()\<close>.
\<close>

fun exec_basic :: "string \<Rightarrow> int \<Rightarrow> rcmd \<Rightarrow> keyspace \<Rightarrow> answer" where
  "exec_basic rnd t PING db = (Inr (RStatus ''PONG''), db)"
| "exec_basic rnd t (GET k) db =
    (case lookup t db k of
       None \<Rightarrow> (Inr RNull, db) | Some (VStr s, _) \<Rightarrow> (Inr (RBulk s), db) | _ \<Rightarrow> (WRONGTYPE, db))"
| "exec_basic rnd t (SET k v d) db = (Inr (RStatus ''OK''), put_str k v (expiry t d) db)"
| "exec_basic rnd t (SETNX k v d) db =
    (if lookup t db k = None then (Inr (RInt 1), put_str k v (expiry t d) db) else (Inr (RInt 0), db))"
| "exec_basic rnd t (DEL ks) db = (case del_keys t ks db of (n, db') \<Rightarrow> (Inr (RInt n), db'))"
| "exec_basic rnd t (EXISTS ks) db =
    (Inr (RInt (int (length (filter (\<lambda>k. lookup t db k \<noteq> None) ks)))), db)"
| "exec_basic rnd t (EXPIRE k d) db =
    (case lookup t db k of
       None \<Rightarrow> (Inr (RInt 0), db)
     | Some (v, _) \<Rightarrow>
        (Inr (RInt 1), if ttl_secs d \<le> 0 then rm k db else db(k \<mapsto> (v, Some (t + 1000 * ttl_secs d)))))"
| "exec_basic rnd t (LPUSH k vs) db =
    with_list t db k (\<lambda>xs e. let ys = rev vs @ xs in (Inr (RInt (int (length ys))), put_list k ys e db))"
| "exec_basic rnd t (RPUSH k vs) db =
    with_list t db k (\<lambda>xs e. let ys = xs @ vs in (Inr (RInt (int (length ys))), put_list k ys e db))"
| "exec_basic rnd t (LPOP k) db =
    with_list t db k (\<lambda>xs e. case xs of [] \<Rightarrow> (Inr RNull, db) | x # ys \<Rightarrow> (Inr (RBulk x), put_list k ys e db))"
| "exec_basic rnd t (RPOP k) db =
    with_list t db k (\<lambda>xs e. if xs = [] then (Inr RNull, db)
      else (Inr (RBulk (last xs)), put_list k (butlast xs) e db))"
| "exec_basic rnd t (BLMOVE s d f p d') db = lmove t s d f p db"
| "exec_basic rnd t (LMOVE s d f p) db = lmove t s d f p db"
| "exec_basic rnd t (LLEN k) db = with_list t db k (\<lambda>xs e. (Inr (RInt (int (length xs))), db))"
| "exec_basic rnd t (LRANGE k a b) db = with_list t db k (\<lambda>xs e. (Inr (RArray (lrange a b xs)), db))"
| "exec_basic rnd t (LREM k n v) db =
    with_list t db k (\<lambda>xs e. let ys = lrem n v xs in
      (Inr (RInt (int (length xs) - int (length ys))), put_list k ys e db))"
| "exec_basic rnd t (HSET k fvs) db =
    with_hash t db k (\<lambda>m e. let m' = hset fvs m in
      (Inr (RInt (int (length m') - int (length m))), put_hash k m' e db))"
| "exec_basic rnd t (HGET k f) db =
    with_hash t db k (\<lambda>m e. (Inr (case map_of m f of None \<Rightarrow> RNull | Some v \<Rightarrow> RBulk v), db))"
| "exec_basic rnd t (HGETALL k) db = with_hash t db k (\<lambda>m e. (Inr (RHash m), db))"
| "exec_basic rnd t (HDEL k fs) db =
    with_hash t db k (\<lambda>m e. let m' = filter (\<lambda>p. fst p \<notin> set fs) m in
      (Inr (RInt (int (length m) - int (length m'))), put_hash k m' e db))"
| "exec_basic rnd t (ZADD k sms) db =
    with_zset t db k (\<lambda>xs e. let ys = fold (\<lambda>(s, m). zadd s m) sms xs in
      (Inr (RInt (int (length ys) - int (length xs))), put_zset k ys e db))"
| "exec_basic rnd t (ZREM k ms) db =
    with_zset t db k (\<lambda>xs e. let ys = zrem ms xs in
      (Inr (RInt (int (length xs) - int (length ys))), put_zset k ys e db))"
| "exec_basic rnd t (ZRANGEBYSCORE k lo hi off cnt) db = zrange_by_score t k lo hi (limit_range off cnt) db"
| "exec_basic rnd t (ZCARD k) db = with_zset t db k (\<lambda>xs e. (Inr (RInt (int (length xs))), db))"
| "exec_basic rnd t (SET_EX k v ex) db =
    (case parse_int ex of
       None \<Rightarrow> (not_an_integer, db)
     | Some n \<Rightarrow>
        if n \<le> 0 then (Inl (Extern ''ERR invalid expire time in 'set' command''), db)
        else (Inr (RStatus ''OK''), put_str k v (Some (t + 1000 * n)) db))"
| "exec_basic rnd t (ZADD_ARG k s m) db =
    (case parse_int s of
       None \<Rightarrow> (Inl (Extern ''ERR value is not a valid float''), db)
     | Some n \<Rightarrow>
        with_zset t db k (\<lambda>xs e. let ys = zadd n m xs in
          (Inr (RInt (int (length ys) - int (length xs))), put_zset k ys e db)))"
| "exec_basic rnd t (ZRANGEBYSCORE_ARG k lo hi cnt) db =
    (case parse_int cnt of
       None \<Rightarrow> (not_an_integer, db)
     | Some n \<Rightarrow> zrange_by_score t k lo hi (\<lambda>xs. if n < 0 then xs else take (nat n) xs) db)"
| "exec_basic rnd t (ZREMRANGEBYSCORE k lo hi) db =
    (case (score_bound lo, score_bound hi) of
       (Some a, Some b) \<Rightarrow>
         with_zset t db k (\<lambda>xs e. let ys = filter (\<lambda>p. p \<notin> set (zrange a b xs)) xs in
           (Inr (RInt (int (length xs) - int (length ys))), put_zset k ys e db))
     | _ \<Rightarrow> (Inl (Extern ''ERR min or max is not a float''), db))"
| "exec_basic rnd t (PEXPIRE k ms) db =
    (case parse_int ms of
       None \<Rightarrow> (not_an_integer, db)
     | Some n \<Rightarrow>
        (case lookup t db k of
           None \<Rightarrow> (Inr (RInt 0), db)
         | Some (v, _) \<Rightarrow> (Inr (RInt 1), if n \<le> 0 then rm k db else db(k \<mapsto> (v, Some (t + n))))))"
| "exec_basic rnd t RANDOM db = (Inr (RBulk rnd), db)"
| "exec_basic rnd t _ db = (Inl (Extern ''ERR This Redis command is not allowed from script''), db)"

section \<open>Scripts\<close>

text \<open>The server's state: the keyspace and the script cache, by digest.\<close>

record rstate =
  keyspace :: keyspace
  cached :: "string \<Rightarrow> script option"

definition run_lua :: "string \<Rightarrow> int \<Rightarrow> script \<Rightarrow> string list \<Rightarrow> string list \<Rightarrow> rstate \<Rightarrow>
    (goerror + reply) \<times> rstate" where
  "run_lua rnd t sc ks args s =
    (case run_state (run_script sc (\<lambda>c. State (exec_basic rnd t c)) ks args) (keyspace s) of
       (r, db) \<Rightarrow> (r, s\<lparr>keyspace := db\<rparr>))"

definition exec :: "(script \<Rightarrow> string) \<Rightarrow> string \<Rightarrow> int \<Rightarrow> rcmd \<Rightarrow> rstate \<Rightarrow> (goerror + reply) \<times> rstate" where
  "exec sha rnd t c s =
    (case c of
       SCRIPT_LOAD sc \<Rightarrow> (Inr (RBulk (sha sc)), s\<lparr>cached := (cached s)(sha sc \<mapsto> sc)\<rparr>)
     | EVAL sc ks args \<Rightarrow> run_lua rnd t sc ks args s
     | EVALSHA d ks args \<Rightarrow>
        (case cached s d of
           None \<Rightarrow> (Inl (Extern ''NOSCRIPT No matching script. Please use EVAL.''), s)
         | Some sc \<Rightarrow> run_lua rnd t sc ks args s)
     | _ \<Rightarrow> (case exec_basic rnd t c (keyspace s) of (r, db) \<Rightarrow> (r, s\<lparr>keyspace := db\<rparr>)))"

text \<open>go-redis reports a null reply as the error \<open>redis.Nil\<close>.\<close>

fun goredis :: "goerror + reply \<Rightarrow> goerror + reply" where
  "goredis (Inr RNull) = Inl RedisNil"
| "goredis r = r"

section \<open>What a persistent key holds\<close>

text \<open>
  The lists, sorted sets and strings without expiry that a key holds. \<open>is_list\<close> and \<open>is_zset\<close> say
  that a key is free for use as a list or sorted set: absent (empty) or a persistent one.
\<close>

definition list_of :: "keyspace \<Rightarrow> string \<Rightarrow> string list" where
  "list_of db k = (case db k of Some (VList xs, None) \<Rightarrow> xs | _ \<Rightarrow> [])"

definition is_list :: "keyspace \<Rightarrow> string \<Rightarrow> bool" where
  "is_list db k \<longleftrightarrow> (case db k of None \<Rightarrow> True | Some (VList xs, None) \<Rightarrow> xs \<noteq> [] | _ \<Rightarrow> False)"

definition zset_of :: "keyspace \<Rightarrow> string \<Rightarrow> (int \<times> string) list" where
  "zset_of db k = (case db k of Some (VZset xs, None) \<Rightarrow> xs | _ \<Rightarrow> [])"

definition is_zset :: "keyspace \<Rightarrow> string \<Rightarrow> bool" where
  "is_zset db k \<longleftrightarrow> (case db k of None \<Rightarrow> True | Some (VZset xs, None) \<Rightarrow> xs \<noteq> [] | _ \<Rightarrow> False)"

definition str_of :: "keyspace \<Rightarrow> string \<Rightarrow> string option" where
  "str_of db k = (case db k of Some (VStr v, None) \<Rightarrow> Some v | _ \<Rightarrow> None)"

lemmas content_defs = list_of_def is_list_def zset_of_def is_zset_def str_of_def
lemmas put_defs = put_list_def put_zset_def put_str_def put_hash_def rm_def

lemma content_put_list [simp]:
  "list_of (put_list k xs None db) k' = (if k' = k then xs else list_of db k')"
  "is_list (put_list k xs None db) k' \<longleftrightarrow> k' = k \<or> is_list db k'"
  "k' \<noteq> k \<Longrightarrow> zset_of (put_list k xs e db) k' = zset_of db k'"
  "k' \<noteq> k \<Longrightarrow> is_zset (put_list k xs e db) k' = is_zset db k'"
  "k' \<noteq> k \<Longrightarrow> str_of (put_list k xs e db) k' = str_of db k'"
  by (auto simp: content_defs put_defs)

lemma content_put_zset [simp]:
  "zset_of (put_zset k zs None db) k' = (if k' = k then zs else zset_of db k')"
  "is_zset (put_zset k zs None db) k' \<longleftrightarrow> k' = k \<or> is_zset db k'"
  "k' \<noteq> k \<Longrightarrow> list_of (put_zset k zs e db) k' = list_of db k'"
  "k' \<noteq> k \<Longrightarrow> is_list (put_zset k zs e db) k' = is_list db k'"
  "k' \<noteq> k \<Longrightarrow> str_of (put_zset k zs e db) k' = str_of db k'"
  by (auto simp: content_defs put_defs)

lemma content_put_str [simp]:
  "str_of (put_str k v None db) k' = (if k' = k then Some v else str_of db k')"
  "str_of (put_str k v (Some e) db) k' = (if k' = k then None else str_of db k')"
  "k' \<noteq> k \<Longrightarrow> str_of (put_str k v e' db) k' = str_of db k'"
  "k' \<noteq> k \<Longrightarrow> list_of (put_str k v e' db) k' = list_of db k'"
  "k' \<noteq> k \<Longrightarrow> is_list (put_str k v e' db) k' = is_list db k'"
  "k' \<noteq> k \<Longrightarrow> zset_of (put_str k v e' db) k' = zset_of db k'"
  "k' \<noteq> k \<Longrightarrow> is_zset (put_str k v e' db) k' = is_zset db k'"
  by (auto simp: content_defs put_defs)

lemma content_rm [simp]:
  "list_of (rm k db) k' = (if k' = k then [] else list_of db k')"
  "is_list (rm k db) k' \<longleftrightarrow> k' = k \<or> is_list db k'"
  "zset_of (rm k db) k' = (if k' = k then [] else zset_of db k')"
  "is_zset (rm k db) k' \<longleftrightarrow> k' = k \<or> is_zset db k'"
  "str_of (rm k db) k' = (if k' = k then None else str_of db k')"
  by (auto simp: content_defs put_defs)

lemma with_list_is_list: "is_list db k \<Longrightarrow> with_list t db k f = f (list_of db k) None"
  by (auto simp: with_list_def lookup_def content_defs split: option.splits rval.splits)

lemma with_zset_is_zset: "is_zset db k \<Longrightarrow> with_zset t db k f = f (zset_of db k) None"
  by (auto simp: with_zset_def lookup_def content_defs split: option.splits rval.splits)

lemma lookup_str_of: "str_of db k = Some v \<Longrightarrow> lookup t db k = Some (VStr v, None)"
  by (auto simp: lookup_def content_defs split: option.splits rval.splits)

lemma lookup_absent: "db k = None \<Longrightarrow> lookup t db k = None"
  by (simp add: lookup_def)

lemma del_keys_one: "del_keys t [k] db = ((if lookup t db k = None then 0 else 1), rm k db)"
  by simp

lemma lmove_lists:
  assumes "is_list db src" "is_list db dst" "src \<noteq> dst"
  shows "lmove t src dst ''RIGHT'' ''LEFT'' db =
    (if list_of db src = [] then (Inr RNull, db)
     else (Inr (RBulk (last (list_of db src))),
       put_list dst (last (list_of db src) # list_of db dst) None
         (put_list src (butlast (list_of db src)) None db)))"
  using assms by (simp add: lmove_def with_list_is_list pop_at_def push_at_def)

lemma remove_n_1: "remove_n (Suc 0) x xs = remove1 x xs"
  by (induction xs) (auto simp: neq_Nil_conv elim: remove_n.elims)

lemma lrem_1 [simp]: "lrem 1 x xs = remove1 x xs"
  by (simp add: lrem_def remove_n_1)

section \<open>The contract\<close>

text \<open>
  \<open>view\<close> is the server's state as the outside world holds it, \<open>stime\<close> its clock in milliseconds
  and \<open>up\<close> says that the link works and that no other client writes in the meantime. While it is
  up a command is answered as \<open>exec\<close> answers it. Reading the clock or drawing a uuid or a
  random number (from 0 to 1, 1 excluded) changes nothing on the server; the clock shows an instant of the years 0 to 9999, and a fresh uuid is one
  that \<open>uuid.Parse\<close> accepts. No text that \<open>uuid.Parse\<close> accepts ends in \<open>:lock\<close> (all but the last of
  its final characters are hexadecimal digits). Digests of different scripts differ.
\<close>

locale redis_server =
  fixes c :: "'s client"
    and view :: "'s \<Rightarrow> rstate"
    and stime :: "'s \<Rightarrow> int"
    and up :: "'s \<Rightarrow> bool"
    and sha :: "script \<Rightarrow> string"
    and rnd :: string
  assumes answer: "up s \<Longrightarrow> run_state (rdb (cenv c) cmd) s = (r, s') \<Longrightarrow>
      up s' \<and> stime s \<le> stime s' \<and> r = goredis (fst (exec sha rnd (stime s') cmd (view s))) \<and>
      view s' = snd (exec sha rnd (stime s') cmd (view s))"
    and clock: "run_state (time_Now (cenv c)) s = (t, s') \<Longrightarrow>
      (up s \<longrightarrow> up s') \<and> stime s \<le> stime s' \<and> view s' = view s \<and> time_wf (time_UTC t)"
    and fresh: "run_state (uuid_New (cenv c)) s = (u, s') \<Longrightarrow>
      (up s \<longrightarrow> up s') \<and> stime s \<le> stime s' \<and> view s' = view s \<and>
      u \<noteq> [] \<and> valid_utf8 u \<and> uuid_ok (cenv c) u"
    and random: "run_state (rand_Float64 (cenv c)) s = (x, s') \<Longrightarrow>
      (up s \<longrightarrow> up s') \<and> stime s \<le> stime s' \<and> view s' = view s \<and> 0 \<le> x \<and> x < 1"
    and uuid_text: "uuid_ok (cenv c) u \<Longrightarrow> u \<noteq> v @ '':lock''"
    and sha_inj: "inj sha"

text \<open>
  Names for the states that a client call leads to: \<open>sent\<close> after a call that succeeded, \<open>missed\<close>
  after one whose null reply is tolerated, \<open>failed\<close> after one that was recorded as a failure, and
  \<open>ticked\<close> after the clock was read.
\<close>

definition after :: "'s client \<Rightarrow> rcmd \<Rightarrow> 's \<Rightarrow> 's" where
  "after c cmd s = snd (run_state (rdb (cenv c) cmd) s)"

definition sent :: "'s client \<Rightarrow> rcmd \<Rightarrow> 's world \<Rightarrow> 's world" where
  "sent c cmd w = w\<lparr>srv := after c cmd (srv w), failures := 0, cstate := circuitClosed\<rparr>"

definition missed :: "'s client \<Rightarrow> rcmd \<Rightarrow> 's world \<Rightarrow> 's world" where
  "missed c cmd w = w\<lparr>srv := after c cmd (srv w)\<rparr>"

definition failed :: "'s client \<Rightarrow> rcmd \<Rightarrow> 's world \<Rightarrow> 's world" where
  "failed c cmd w = snd (run_state (recordFailure c) (missed c cmd w))"

definition ticked :: "'s client \<Rightarrow> 's world \<Rightarrow> 's world" where
  "ticked c w = snd (run_state (now c) w)"

definition clock_of :: "'s client \<Rightarrow> 's world \<Rightarrow> gotime" where
  "clock_of c w = fst (run_state (now c) w)"

definition ready :: "('s \<Rightarrow> bool) \<Rightarrow> 's world \<Rightarrow> bool" where
  "ready up w \<longleftrightarrow> IsHealthy w \<and> up (srv w)"

definition db :: "('s \<Rightarrow> rstate) \<Rightarrow> 's world \<Rightarrow> keyspace" where
  "db view w = keyspace (view (srv w))"

definition scripts_in :: "('s \<Rightarrow> rstate) \<Rightarrow> 's world \<Rightarrow> string \<Rightarrow> script option" where
  "scripts_in view w = cached (view (srv w))"

lemma run_now [run_simps]: "run_state (now c) w = (clock_of c w, ticked c w)"
  by (simp add: clock_of_def ticked_def)

fun basic :: "rcmd \<Rightarrow> bool" where
  "basic (SCRIPT_LOAD sc) = False"
| "basic (EVAL sc ks args) = False"
| "basic (EVALSHA d ks args) = False"
| "basic cmd = True"

lemma exec_basic_cmd:
  "basic cmd \<Longrightarrow> exec sha rnd t cmd s =
    (case exec_basic rnd t cmd (keyspace s) of (r, ks) \<Rightarrow> (r, s\<lparr>keyspace := ks\<rparr>))"
  by (cases cmd) (simp_all add: exec_def)

context redis_server begin

lemma after_laws:
  assumes "up s"
  shows "up (after c cmd s)" "stime s \<le> stime (after c cmd s)"
    and "fst (run_state (rdb (cenv c) cmd) s) =
      goredis (fst (exec sha rnd (stime (after c cmd s)) cmd (view s)))"
    and "view (after c cmd s) = snd (exec sha rnd (stime (after c cmd s)) cmd (view s))"
  using answer [OF assms, of cmd "fst (run_state (rdb (cenv c) cmd) s)" "after c cmd s"]
  by (simp_all add: after_def)

lemma clock_laws:
  shows "view (srv (ticked c w)) = view (srv w)" "up (srv w) \<Longrightarrow> up (srv (ticked c w))"
    and "time_wf (time_UTC (clock_of c w))" "IsHealthy (ticked c w) = IsHealthy w"
    and "stime (srv w) \<le> stime (srv (ticked c w))"
  using clock [of "srv w" "fst (run_state (time_Now (cenv c)) (srv w))"
      "snd (run_state (time_Now (cenv c)) (srv w))"]
  by (auto simp: ticked_def clock_of_def now_def run_simps IsHealthy_def split: prod.splits)

lemma ready_ticked [simp]: "ready up w \<Longrightarrow> ready up (ticked c w)"
  by (simp add: ready_def clock_laws)

lemma db_ticked [simp]: "db view (ticked c w) = db view w" "scripts_in view (ticked c w) = scripts_in view w"
  by (simp_all add: db_def scripts_in_def clock_laws)

lemma ready_sent [simp]: "ready up w \<Longrightarrow> ready up (sent c cmd w)"
  by (simp add: ready_def sent_def IsHealthy_def after_laws)

lemma ready_missed [simp]: "ready up w \<Longrightarrow> ready up (missed c cmd w)"
  by (simp add: ready_def missed_def IsHealthy_def after_laws)

lemma up_failed: "up (srv w) \<Longrightarrow> up (srv (failed c cmd w))"
  using clock_laws(2) [of "missed c cmd w"] after_laws(1) [of "srv w" cmd]
  by (simp add: failed_def run_recordFailure ticked_def now_def run_simps missed_def split: prod.splits)

lemma view_failed: "view (srv (failed c cmd w)) = view (after c cmd (srv w))"
  using clock_laws(1) [of "missed c cmd w"]
  by (simp add: failed_def run_recordFailure ticked_def now_def run_simps missed_def split: prod.splits)

lemma run_call_ready:
  assumes "ready up w"
  shows "run_state (call c nil_ok op conv cmd) w =
    (case conv (goredis (fst (exec sha rnd (stime (after c cmd (srv w))) cmd (view (srv w))))) of
       Inr v \<Rightarrow> (Inr v, sent c cmd w)
     | Inl err \<Rightarrow> (Inl (wrapError op err),
         if nil_ok \<and> err = RedisNil then missed c cmd w else failed c cmd w))"
  using assms after_laws(3) [of "srv w" cmd, symmetric]
  by (auto simp: run_call ready_def checkCircuit_healthy sent_def missed_def failed_def after_def
      split: prod.split sum.split)

text \<open>A command on the keyspace: what the client call returns and what it leaves behind.\<close>

lemma run_basic:
  assumes "ready up w" "basic cmd"
    and "\<And>t. conv (goredis (fst (exec_basic rnd t cmd (db view w)))) = Inr v"
  shows "run_state (call c nil_ok op conv cmd) w = (Inr v, sent c cmd w)"
  using assms by (simp add: run_call_ready exec_basic_cmd db_def case_prod_unfold)

lemma db_sent:
  assumes "ready up w" "basic cmd" "\<And>t. snd (exec_basic rnd t cmd (db view w)) = D"
  shows "db view (sent c cmd w) = D"
  using assms after_laws(4) [of "srv w" cmd]
  by (simp add: sent_def db_def ready_def exec_basic_cmd case_prod_unfold)

lemma scripts_sent [simp]:
  "ready up w \<Longrightarrow> basic cmd \<Longrightarrow> scripts_in view (sent c cmd w) = scripts_in view w"
  using after_laws(4) [of "srv w" cmd]
  by (simp add: sent_def scripts_in_def ready_def exec_basic_cmd case_prod_unfold)

end

section \<open>The client wrappers on a working link\<close>

context redis_server begin

lemma Set_run [run_simps]: "ready up w \<Longrightarrow> run_state (Set c k v d) w = (Inr (), sent c (SET k v d) w)"
  by (simp add: Set_def run_basic as_unit_def)

lemma Set_db [simp]: "ready up w \<Longrightarrow> db view (sent c (SET k v 0) w) = put_str k v None (db view w)"
  by (simp add: db_sent expiry_def)

lemma Get_run:
  "ready up w \<Longrightarrow> str_of (db view w) k = Some v \<Longrightarrow>
     run_state (Get c k) w = (Inr v, sent c (GET k) w)"
  by (simp add: Get_def run_basic as_string_def lookup_str_of)

lemma Get_db [simp]: "ready up w \<Longrightarrow> db view (sent c (GET k) w) = db view w"
  by (rule db_sent) (auto split: option.split rval.split)

lemma Get_absent:
  assumes "ready up w" "db view w k = None"
  shows "run_state (Get c k) w = (Inl (Wrapf ''redis get'' ErrNotFound), missed c (GET k) w)"
  using assms by (simp add: Get_def run_call_ready exec_basic_cmd db_def lookup_absent as_string_def wrapError_def)

lemma Get_db_missed [simp]: "ready up w \<Longrightarrow> db view (missed c (GET k) w) = db view w"
  using after_laws(4) [of "srv w" "GET k"]
  by (auto simp: missed_def db_def ready_def exec_basic_cmd split: option.split rval.split)

lemma scripts_missed [simp]:
  "ready up w \<Longrightarrow> basic cmd \<Longrightarrow> scripts_in view (missed c cmd w) = scripts_in view w"
  using after_laws(4) [of "srv w" cmd]
  by (simp add: missed_def scripts_in_def ready_def exec_basic_cmd case_prod_unfold)

lemma Del_run [run_simps]: "ready up w \<Longrightarrow> run_state (Del c ks) w = (Inr (), sent c (DEL ks) w)"
  by (simp add: Del_def run_basic as_unit_def case_prod_unfold)

lemma Del_db [simp]: "ready up w \<Longrightarrow> db view (sent c (DEL [k]) w) = rm k (db view w)"
  by (simp add: db_sent)

lemma LPush_run [run_simps]:
  "ready up w \<Longrightarrow> is_list (db view w) k \<Longrightarrow>
     run_state (LPush c k vs) w = (Inr (), sent c (LPUSH k vs) w)"
  by (simp add: LPush_def run_basic as_unit_def with_list_is_list Let_def)

lemma LPush_db [simp]:
  "ready up w \<Longrightarrow> is_list (db view w) k \<Longrightarrow>
     db view (sent c (LPUSH k vs) w) = put_list k (rev vs @ list_of (db view w) k) None (db view w)"
  by (simp add: db_sent with_list_is_list Let_def)

lemma LRem_run [run_simps]:
  "ready up w \<Longrightarrow> is_list (db view w) k \<Longrightarrow>
     run_state (LRem c k n v) w = (Inr (), sent c (LREM k n v) w)"
  by (simp add: LRem_def run_basic as_unit_def with_list_is_list Let_def)

lemma LRem_db [simp]:
  "ready up w \<Longrightarrow> is_list (db view w) k \<Longrightarrow>
     db view (sent c (LREM k n v) w) = put_list k (lrem n v (list_of (db view w) k)) None (db view w)"
  by (simp add: db_sent with_list_is_list Let_def)

lemma LLen_run [run_simps]:
  "ready up w \<Longrightarrow> is_list (db view w) k \<Longrightarrow>
     run_state (LLen c k) w = (Inr (int (length (list_of (db view w) k))), sent c (LLEN k) w)"
  by (simp add: LLen_def run_basic as_int_def with_list_is_list)

lemma LLen_db [simp]:
  "ready up w \<Longrightarrow> is_list (db view w) k \<Longrightarrow> db view (sent c (LLEN k) w) = db view w"
  by (simp add: db_sent with_list_is_list)

lemma LRange_run [run_simps]:
  "ready up w \<Longrightarrow> is_list (db view w) k \<Longrightarrow>
     run_state (LRange c k a b) w = (Inr (lrange a b (list_of (db view w) k)), sent c (LRANGE k a b) w)"
  by (simp add: LRange_def run_basic as_strings_def with_list_is_list)

lemma LRange_db [simp]:
  "ready up w \<Longrightarrow> is_list (db view w) k \<Longrightarrow> db view (sent c (LRANGE k a b) w) = db view w"
  by (simp add: db_sent with_list_is_list)

lemma ZAdd_run [run_simps]:
  "ready up w \<Longrightarrow> is_zset (db view w) k \<Longrightarrow>
     run_state (ZAdd c k [Z s m]) w = (Inr (), sent c (ZADD k [(s, m)]) w)"
  by (simp add: ZAdd_def run_basic as_unit_def with_zset_is_zset Let_def)

lemma ZAdd_db [simp]:
  "ready up w \<Longrightarrow> is_zset (db view w) k \<Longrightarrow>
     db view (sent c (ZADD k [(s, m)]) w) = put_zset k (zadd s m (zset_of (db view w) k)) None (db view w)"
  by (simp add: db_sent with_zset_is_zset Let_def)

lemma ZRem_run [run_simps]:
  "ready up w \<Longrightarrow> is_zset (db view w) k \<Longrightarrow>
     run_state (ZRem c k ms) w = (Inr (), sent c (ZREM k ms) w)"
  by (simp add: ZRem_def run_basic as_unit_def with_zset_is_zset Let_def)

lemma ZRem_db [simp]:
  "ready up w \<Longrightarrow> is_zset (db view w) k \<Longrightarrow>
     db view (sent c (ZREM k ms) w) = put_zset k (zrem ms (zset_of (db view w) k)) None (db view w)"
  by (simp add: db_sent with_zset_is_zset Let_def)

lemma ZCard_run [run_simps]:
  "ready up w \<Longrightarrow> is_zset (db view w) k \<Longrightarrow>
     run_state (ZCard c k) w = (Inr (int (length (zset_of (db view w) k))), sent c (ZCARD k) w)"
  by (simp add: ZCard_def run_basic as_int_def with_zset_is_zset)

lemma ZCard_db [simp]:
  "ready up w \<Longrightarrow> is_zset (db view w) k \<Longrightarrow> db view (sent c (ZCARD k) w) = db view w"
  by (simp add: db_sent with_zset_is_zset)

text \<open>The members due by an instant, oldest first, at most \<open>n\<close> of them.\<close>

lemma ZRangeByScore_run:
  assumes "ready up w" "is_zset (db view w) k" "int64_range b" "0 < n"
  shows "run_state (ZRangeByScore c k \<lparr>Min = ''-inf'', Max = format_int b, Offset = 0, Count = n\<rparr>) w =
      (Inr (take (nat n) (map snd (filter (\<lambda>p. fst p \<le> b) (zset_of (db view w) k)))),
       sent c (ZRANGEBYSCORE k ''-inf'' (format_int b) 0 n) w)"
    and "db view (sent c (ZRANGEBYSCORE k ''-inf'' (format_int b) 0 n) w) = db view w"
proof -
  have "format_int b \<noteq> ''-inf''" "format_int b \<noteq> ''+inf''"
    using parse_format_int [OF assms(3)] by (auto simp: parse_int_def parse_nat_def char_digit_def)
  then have b: "score_bound ''-inf'' = Some None" "score_bound (format_int b) = Some (Some b)"
    using assms(3) by (simp_all add: score_bound_def parse_format_int)
  show "run_state (ZRangeByScore c k \<lparr>Min = ''-inf'', Max = format_int b, Offset = 0, Count = n\<rparr>) w =
      (Inr (take (nat n) (map snd (filter (\<lambda>p. fst p \<le> b) (zset_of (db view w) k)))),
       sent c (ZRANGEBYSCORE k ''-inf'' (format_int b) 0 n) w)"
    using assms by (simp add: ZRangeByScore_def run_basic as_strings_def zrange_by_score_def b
        with_zset_is_zset zrange_def limit_range_def)
  show "db view (sent c (ZRANGEBYSCORE k ''-inf'' (format_int b) 0 n) w) = db view w"
    using assms by (simp add: db_sent zrange_by_score_def b with_zset_is_zset)
qed

text \<open>Scripts run at the instant at which the server answers.\<close>

abbreviation in_script :: "int \<Rightarrow> script \<Rightarrow> string list \<Rightarrow> string list \<Rightarrow> keyspace \<Rightarrow> answer" where
  "in_script t sc ks args \<equiv> run_state (run_script sc (\<lambda>c. State (exec_basic rnd t c)) ks args)"

lemma EvalSha_run:
  assumes "ready up w" "scripts_in view w d = Some sc"
    and "\<And>t. goredis (fst (in_script t sc ks args (db view w))) = Inr v"
  shows "run_state (EvalSha c d ks args) w = (Inr v, sent c (EVALSHA d ks args) w)"
  using assms by (simp add: EvalSha_def run_call_ready exec_def run_lua_def db_def scripts_in_def
      case_prod_unfold)

lemma EvalSha_db:
  assumes "ready up w" "scripts_in view w d = Some sc"
  shows "\<exists>t \<ge> stime (srv w). db view (sent c (EVALSHA d ks args) w) = snd (in_script t sc ks args (db view w))"
  using assms after_laws(2,4) [of "srv w" "EVALSHA d ks args"]
  by (auto simp: sent_def db_def ready_def scripts_in_def exec_def run_lua_def case_prod_unfold)

lemma EvalSha_scripts [simp]:
  "ready up w \<Longrightarrow> scripts_in view w d = Some sc \<Longrightarrow>
     scripts_in view (sent c (EVALSHA d ks args) w) = scripts_in view w"
  using after_laws(4) [of "srv w" "EVALSHA d ks args"]
  by (simp add: sent_def scripts_in_def ready_def exec_def run_lua_def case_prod_unfold)

lemma EvalSha_null:
  assumes "ready up w" "scripts_in view w d = Some sc"
    and "\<And>t. in_script t sc ks args (db view w) = (Inr RNull, db view w)"
  shows "run_state (EvalSha c d ks args) w =
      (Inl (Wrapf ''redis evalsha'' ErrNotFound), failed c (EVALSHA d ks args) w)"
    and "db view (failed c (EVALSHA d ks args) w) = db view w"
    and "scripts_in view (failed c (EVALSHA d ks args) w) = scripts_in view w"
  using assms after_laws(4) [of "srv w" "EVALSHA d ks args"]
  by (simp_all add: EvalSha_def run_call_ready exec_def run_lua_def db_def scripts_in_def
      case_prod_unfold wrapError_def view_failed ready_def)

lemma ScriptLoad_run [run_simps]:
  "ready up w \<Longrightarrow> run_state (ScriptLoad c sc) w = (Inr (sha sc), sent c (SCRIPT_LOAD sc) w)"
  by (simp add: ScriptLoad_def run_call_ready exec_def as_string_def)

lemma ScriptLoad_effect [simp]:
  "ready up w \<Longrightarrow> db view (sent c (SCRIPT_LOAD sc) w) = db view w"
  "ready up w \<Longrightarrow> scripts_in view (sent c (SCRIPT_LOAD sc) w) = (scripts_in view w)(sha sc \<mapsto> sc)"
  using after_laws(4) [of "srv w" "SCRIPT_LOAD sc"]
  by (simp_all add: sent_def db_def scripts_in_def ready_def exec_def)

end

section \<open>Calls on a link that is up\<close>

text \<open>
  With the link up a call is refused by the breaker, without effect, or answered by the server at
  some instant \<open>t\<close> between the two ends of the call.
\<close>

context redis_server begin

lemma recordFailure_up:
  assumes "up (srv w)"
  defines "w' \<equiv> snd (run_state (recordFailure c) w)"
  shows "up (srv w') \<and> stime (srv w) \<le> stime (srv w') \<and> view (srv w') = view (srv w)"
  unfolding w'_def using assms(1) clock [of "srv w"] by (auto simp: run_recordFailure split: prod.splits)

lemma call_up:
  assumes "up (srv w)" "run_state (call c nil_ok op conv cmd) w = (r, w')"
  obtains (blocked) "r = Inl ErrCircuitOpen" "up (srv w')" "stime (srv w) \<le> stime (srv w')" "view (srv w') = view (srv w)"
    | (answered) t where "up (srv w')" "stime (srv w) \<le> t" "t \<le> stime (srv w')"
        "r = map_sum (wrapError op) id (conv (goredis (fst (exec sha rnd t cmd (view (srv w))))))"
        "view (srv w') = snd (exec sha rnd t cmd (view (srv w)))"
proof -
  obtain e w1 where e: "run_state (checkCircuit c) w = (e, w1)" by (rule prod.exhaust)
  have w1: "up (srv w1)" "stime (srv w) \<le> stime (srv w1)" "view (srv w1) = view (srv w)"
    "e = None \<or> e = Some ErrCircuitOpen"
    using e assms(1) clock [of "srv w"] by (auto simp: run_checkCircuit split: if_splits prod.splits)
  show thesis
  proof (cases e)
    case (Some err)
    then show thesis using w1 e assms(2) blocked by (auto simp: run_call)
  next
    case None
    define s where "s = after c cmd (srv w1)"
    define a where "a = fst (run_state (rdb (cenv c) cmd) (srv w1))"
    note s = after_laws [OF w1(1), of cmd, folded s_def a_def]
    have rs: "run_state (rdb (cenv c) cmd) (srv w1) = (a, s)" by (simp add: a_def s_def after_def)
    have "r = map_sum (wrapError op) id (conv a)" "view (srv w') = view s" "up (srv w')" "stime s \<le> stime (srv w')"
      using assms(2) e None rs recordFailure_up [of "w1\<lparr>srv := s\<rparr>"] s(1)
      by (cases "conv a"; auto simp: run_call split: if_splits)+
    then show thesis using answered [of "stime s"] s w1 by simp
  qed
qed

lemma basic_up:
  assumes "up (srv w)" "basic cmd" "run_state (call c nil_ok op conv cmd) w = (r, w')"
  obtains (blocked) "r = Inl ErrCircuitOpen" "up (srv w')" "stime (srv w) \<le> stime (srv w')" "db view w' = db view w"
    | (answered) t where "up (srv w')" "stime (srv w) \<le> t" "t \<le> stime (srv w')"
        "r = map_sum (wrapError op) id (conv (goredis (fst (exec_basic rnd t cmd (db view w)))))"
        "db view w' = snd (exec_basic rnd t cmd (db view w))"
  by (rule call_up [OF assms(1,3)])
    (use assms(2) blocked answered in \<open>auto simp: exec_basic_cmd db_def case_prod_unfold\<close>)

lemma SetNX_up:
  assumes "up (srv w)" "run_state (SetNX c k v d) w = (r, w')"
  shows "up (srv w') \<and> stime (srv w) \<le> stime (srv w') \<and>
    ((\<exists>e. r = Inl e) \<and> db view w' = db view w \<or>
     (\<exists>t. stime (srv w) \<le> t \<and> t \<le> stime (srv w') \<and>
       (if lookup t (db view w) k = None then r = Inr True \<and> db view w' = put_str k v (expiry t d) (db view w)
        else r = Inr False \<and> db view w' = db view w)))"
  by (rule basic_up [OF assms(1) _ assms(2) [unfolded SetNX_def]]) (auto simp: as_bool_def split: if_splits)

lemma Get_up:
  assumes "up (srv w)" "run_state (Get c k) w = (r, w')"
  shows "up (srv w') \<and> stime (srv w) \<le> stime (srv w') \<and> db view w' = db view w \<and>
    ((\<exists>e. r = Inl e) \<or>
     (\<exists>t v e. r = Inr v \<and> db view w k = Some (VStr v, e) \<and> lookup t (db view w) k \<noteq> None))"
proof (rule basic_up [OF assms(1) _ assms(2) [unfolded Get_def]])
  fix t
  assume a: "up (srv w')" "stime (srv w) \<le> t" "t \<le> stime (srv w')"
    "r = map_sum (wrapError ''get'') id (as_string (goredis (fst (exec_basic rnd t (GET k) (db view w)))))"
    "db view w' = snd (exec_basic rnd t (GET k) (db view w))"
  show ?thesis
  proof (cases "lookup t (db view w) k")
    case None
    then show ?thesis using a by (simp add: as_string_def)
  next
    case (Some p)
    then have "db view w k = Some p" by (auto simp: lookup_def split: option.splits prod.splits if_splits)
    moreover obtain x e where "p = (x, e)" by (rule prod.exhaust)
    ultimately show ?thesis using a Some by (cases x) (auto simp: as_string_def WRONGTYPE_def)
  qed
qed auto

lemma Expire_up:
  assumes "up (srv w)" "run_state (Expire c k d) w = (r, w')"
  shows "up (srv w') \<and> stime (srv w) \<le> stime (srv w') \<and>
    ((\<exists>e. r = Inl e) \<and> db view w' = db view w \<or>
     (\<exists>t. stime (srv w) \<le> t \<and> t \<le> stime (srv w') \<and>
       (case lookup t (db view w) k of
          None \<Rightarrow> r = Inr False \<and> db view w' = db view w
        | Some (v, _) \<Rightarrow> r = Inr True \<and> db view w' = (if ttl_secs d \<le> 0 then rm k (db view w)
            else (db view w)(k \<mapsto> (v, Some (t + 1000 * ttl_secs d)))))))"
proof (rule basic_up [OF assms(1) _ assms(2) [unfolded Expire_def]])
  fix t
  assume a: "up (srv w')" "stime (srv w) \<le> t" "t \<le> stime (srv w')"
    "r = map_sum (wrapError ''expire'') id (as_bool (goredis (fst (exec_basic rnd t (EXPIRE k d) (db view w)))))"
    "db view w' = snd (exec_basic rnd t (EXPIRE k d) (db view w))"
  show ?thesis
    by (intro conjI disjI2 exI [of _ t]) (use a in \<open>auto simp: as_bool_def split: option.splits\<close>)
qed auto

lemma Del_up:
  assumes "up (srv w)" "run_state (Del c [k]) w = (r, w')"
  shows "up (srv w') \<and> stime (srv w) \<le> stime (srv w') \<and>
    ((\<exists>e. r = Inl e) \<and> db view w' = db view w \<or> r = Inr () \<and> db view w' = rm k (db view w))"
  by (rule basic_up [OF assms(1) _ assms(2) [unfolded Del_def]]) (auto simp: as_unit_def)

end

text \<open>On a ready link a call is answered; \<open>t\<close> is the instant of the answer.\<close>

context redis_server begin

lemma stime_sent_le: "ready up w \<Longrightarrow> stime (srv w) \<le> stime (srv (sent c cmd w))"
  using after_laws(2) [of "srv w" cmd] by (simp add: sent_def ready_def)

lemma SetNX_run:
  fixes k v d
  assumes "ready up w"
  defines "w' \<equiv> sent c (SETNX k v d) w"
  shows "run_state (SetNX c k v d) w = (Inr (lookup (stime (srv w')) (db view w) k = None), w')"
    and "db view w' = (if lookup (stime (srv w')) (db view w) k = None
      then put_str k v (expiry (stime (srv w')) d) (db view w) else db view w)"
  using assms(1) after_laws(4) [of "srv w" "SETNX k v d"]
  by (simp_all add: w'_def SetNX_def run_call_ready exec_basic_cmd db_def as_bool_def sent_def ready_def)

lemma Get_at:
  assumes "ready up w" "lookup (stime (srv (sent c (GET k) w))) (db view w) k = Some (VStr v, e)"
  shows "run_state (Get c k) w = (Inr v, sent c (GET k) w)"
  using assms by (simp add: Get_def run_call_ready exec_basic_cmd db_def as_string_def sent_def)

end

end
