(* ===== verification/Queue.thy ===== *)
theory Queue
  imports Redis_Server Go_Float
begin

text \<open>
  Package \<open>queue\<close>, files \<open>internal/queue/queue.go\<close> and \<open>internal/queue/priority.go\<close>: the job queue on
  Redis lists. A job is a JSON string under its own key; its identifier moves between three pending
  lists, a processing list and a dead-letter list. The Go pointer result \<open>(*job.Job, error)\<close> is a
  sum with an optional job. \<open>Nack\<close> changes the job it is given, so its result carries the job.
\<close>

section \<open>Priorities\<close>

definition PriorityHigh :: int where "PriorityHigh = 10"
definition queue_PriorityNormal :: int where "queue_PriorityNormal = 5"
definition queue_PriorityLow :: int where "queue_PriorityLow = 1"

definition PriorityQueues :: "string \<Rightarrow> string list" where
  "PriorityQueues prefix =
    [prefix @ '':queue:10:pending'', prefix @ '':queue:5:pending'', prefix @ '':queue:1:pending'']"

definition GetPriorityQueueKey :: "string \<Rightarrow> int \<Rightarrow> string" where
  "GetPriorityQueueKey prefix priority =
    (if priority \<ge> PriorityHigh then prefix @ '':queue:10:pending''
     else if priority \<ge> queue_PriorityNormal then prefix @ '':queue:5:pending''
     else prefix @ '':queue:1:pending'')"

definition GetPriorityFromJob :: "Job \<Rightarrow> int" where
  "GetPriorityFromJob j =
    (if Priority j \<ge> PriorityHigh then PriorityHigh
     else if Priority j \<ge> queue_PriorityNormal then queue_PriorityNormal
     else queue_PriorityLow)"

lemmas priority_consts [simp] = PriorityHigh_def queue_PriorityNormal_def queue_PriorityLow_def

section \<open>Data\<close>

record Stats =
  PendingHigh :: int
  PendingNormal :: int
  PendingLow :: int
  Processing :: int
  Dead :: int

record queue_Options =
  Prefix :: string
  VisibilityTimeout :: int
  LockTTL :: int
  DeduplicationTTL :: int

definition queue_DefaultOptions :: queue_Options where
  "queue_DefaultOptions = \<lparr>Prefix = ''titan'', VisibilityTimeout = 5 * minute, LockTTL = 10 * minute,
     DeduplicationTTL = 24 * hour\<rparr>"

record Scripts =
  ClaimJob :: string
  AckJob_sha :: string
  NackJob_sha :: string
  RecoverStuck :: string
  DeduplicationCheck :: string

record 's queue =
  qclient :: "'s client"
  qopts :: queue_Options
  scripts :: Scripts

definition ErrJobNotFound :: goerror where "ErrJobNotFound = Sentinel ''job not found''"
definition ErrDuplicateJob :: goerror where "ErrDuplicateJob = Sentinel ''duplicate job''"

definition queue_New :: "'s client \<Rightarrow> queue_Options \<Rightarrow> ('s world, goerror + 's queue) state" where
  "queue_New c opts =
    or_return (ScriptLoad c claimJobScript) (Wrapf ''couldn't load claim script'') (\<lambda>claim.
    or_return (ScriptLoad c ackJobScript) (Wrapf ''couldn't load ack script'') (\<lambda>ack.
    or_return (ScriptLoad c nackJobScript) (Wrapf ''couldn't load nack script'') (\<lambda>nack.
    or_return (ScriptLoad c recoverStuckJobsScript) (Wrapf ''couldn't load recovery script'') (\<lambda>rec.
    or_return (ScriptLoad c deduplicationCheckScript) (Wrapf ''couldn't load dedup script'') (\<lambda>dedup.
    ret (Inr \<lparr>qclient = c, qopts = opts,
      scripts = \<lparr>ClaimJob = claim, AckJob_sha = ack, NackJob_sha = nack, RecoverStuck = rec,
        DeduplicationCheck = dedup\<rparr>\<rparr>))))))"

section \<open>Keys\<close>

definition jobKey :: "'s queue \<Rightarrow> string \<Rightarrow> string" where
  "jobKey q jobID = Prefix (qopts q) @ '':job:'' @ jobID"

definition lockKey :: "'s queue \<Rightarrow> string \<Rightarrow> string" where
  "lockKey q jobID = Prefix (qopts q) @ '':job:'' @ jobID @ '':lock''"

definition processingKey :: "'s queue \<Rightarrow> string" where
  "processingKey q = Prefix (qopts q) @ '':queue:processing''"

definition dlqKey :: "'s queue \<Rightarrow> string" where
  "dlqKey q = Prefix (qopts q) @ '':queue:dead''"

definition timestampsKey :: "'s queue \<Rightarrow> string" where
  "timestampsKey q = Prefix (qopts q) @ '':processing:timestamps''"

definition dedupKey :: "'s queue \<Rightarrow> string \<Rightarrow> string" where
  "dedupKey q uniqueKey = Prefix (qopts q) @ '':dedup:'' @ uniqueKey"

section \<open>Operations\<close>

text \<open>\<open>int(d.Seconds())\<close>, as an argument of a script.\<close>

definition whole_seconds :: "int \<Rightarrow> int" where
  "whole_seconds d = i64 (f_trunc (duration_Seconds d))"

definition checkDeduplication :: "'s queue \<Rightarrow> string \<Rightarrow> ('s world, goerror + bool) state" where
  "checkDeduplication q uniqueKey =
    (let ttlSeconds = whole_seconds (DeduplicationTTL (qopts q)) in
     or_return (EvalSha (qclient q) (DeduplicationCheck (scripts q)) [dedupKey q uniqueKey]
         [format_int ttlSeconds]) id (\<lambda>result.
     ret (Inr (result = RInt 0))))"

definition Enqueue :: "'s queue \<Rightarrow> Job \<Rightarrow> ('s world, goerror + unit) state" where
  "Enqueue q j =
    (case Validate (uuid_ok (cenv (qclient q))) j of
       Some err \<Rightarrow> ret (Inl (Wrapf ''enqueue'' err))
     | None \<Rightarrow>
        or_return
          (if UniqueKey j \<noteq> [] then
             or_return (checkDeduplication q (UniqueKey j)) (Wrapf ''dedup check failed'') (\<lambda>isDuplicate.
             ret (if isDuplicate then Inl ErrDuplicateJob else Inr ()))
           else ret (Inr ())) id (\<lambda>_.
        or_return (ret (Marshal j)) (Wrapf ''couldn't serialize job'') (\<lambda>data.
        or_return (Set (qclient q) (jobKey q (ID j)) data 0) (Wrapf ''couldn't store job'') (\<lambda>_.
        do {
          r \<leftarrow> LPush (qclient q) (GetPriorityQueueKey (Prefix (qopts q)) (Priority j)) [ID j];
          case r of
            Inl err \<Rightarrow> do {
              _ \<leftarrow> Del (qclient q) [jobKey q (ID j)];
              ret (Inl (Wrapf ''couldn't add to queue'' err))
            }
          | Inr _ \<Rightarrow> ret (Inr ())
        }))))"

fun EnqueueBatch :: "'s queue \<Rightarrow> Job list \<Rightarrow> ('s world, goerror + unit) state" where
  "EnqueueBatch q [] = ret (Inr ())"
| "EnqueueBatch q (j # jobs) = or_return (Enqueue q j) id (\<lambda>_. EnqueueBatch q jobs)"

definition GetJob :: "'s queue \<Rightarrow> string \<Rightarrow> ('s world, goerror + Job) state" where
  "GetJob q jobID =
    or_return (Get (qclient q) (jobKey q jobID)) (Wrapf ''couldn't get job'') (\<lambda>data.
    or_return (ret (Unmarshal data)) (Wrapf ''couldn't parse job'') (\<lambda>j.
    ret (Inr j)))"

definition getAndUpdateJob :: "'s queue \<Rightarrow> string \<Rightarrow> ('s world, goerror + Job option) state" where
  "getAndUpdateJob q jobID =
    or_return (GetJob q jobID) id (\<lambda>j. do {
      t \<leftarrow> now (qclient q);
      let j = MarkProcessing t j;
      or_return (ret (Marshal j)) (Wrapf ''couldn't serialize job'') (\<lambda>data.
      or_return (Set (qclient q) (jobKey q (ID j)) data 0) (Wrapf ''couldn't update job'') (\<lambda>_.
      ret (Inr (Some j))))
    })"

definition claimFromQueue :: "'s queue \<Rightarrow> string \<Rightarrow> ('s world, goerror + Job option) state" where
  "claimFromQueue q queueKey = do {
     t \<leftarrow> now (qclient q);
     let lockTTL = whole_seconds (LockTTL (qopts q));
     or_return (EvalSha (qclient q) (ClaimJob (scripts q))
         [queueKey, processingKey q, Prefix (qopts q) @ '':job:'', timestampsKey q]
         [format_int lockTTL, format_int (time_Unix t)])
       (Wrapf ''claim script blew up'') (\<lambda>result.
       case result of
         RNull \<Rightarrow> ret (Inl ErrNotFound)
       | RBulk jobID \<Rightarrow> getAndUpdateJob q jobID
       | _ \<Rightarrow> ret (Inl (Errorf ''got weird result type from claim, expected string'')))
   }"

text \<open>The loop over the priority queues; \<open>None\<close> when it falls through.\<close>

fun claim_loop :: "'s queue \<Rightarrow> string list \<Rightarrow> ('s world, (goerror + Job option) option) state" where
  "claim_loop q [] = ret None"
| "claim_loop q (queueKey # ks) = do {
     r \<leftarrow> claimFromQueue q queueKey;
     case r of
       Inr (Some j) \<Rightarrow> ret (Some (Inr (Some j)))
     | Inr None \<Rightarrow> claim_loop q ks
     | Inl err \<Rightarrow> if err \<noteq> ErrNotFound then ret (Some (Inl err)) else claim_loop q ks
   }"

definition claim_blocking :: "'s queue \<Rightarrow> int \<Rightarrow> ('s world, goerror + Job option) state" where
  "claim_blocking q timeout = do {
     r \<leftarrow> BLMove (qclient q) (Prefix (qopts q) @ '':queue:10:pending'') (processingKey q)
            ''RIGHT'' ''LEFT'' timeout;
     case r of
       Inl err \<Rightarrow>
         if err = ErrNotFound then ret (Inr None) else ret (Inl (Wrapf ''blocking move failed'' err))
     | Inr jobID \<Rightarrow>
         if jobID = [] then ret (Inr None)
         else do {
           t \<leftarrow> now (qclient q);
           let lockTTL = whole_seconds (LockTTL (qopts q));
           or_return (Set (qclient q) (lockKey q jobID) (format_int (time_Unix t)) (i64 (lockTTL * second)))
             (Wrapf ''couldn't set processing lock'') (\<lambda>_.
           or_return (ZAdd (qclient q) (timestampsKey q) [Z (time_Unix t) jobID])
             (Wrapf ''couldn't track timestamp'') (\<lambda>_.
           getAndUpdateJob q jobID))
         }
   }"

definition Claim :: "'s queue \<Rightarrow> int \<Rightarrow> ('s world, goerror + Job option) state" where
  "Claim q timeout = do {
     r \<leftarrow> claim_loop q (PriorityQueues (Prefix (qopts q)));
     case r of
       Some res \<Rightarrow> ret res
     | None \<Rightarrow> claim_blocking q timeout
   }"

definition Ack :: "'s queue \<Rightarrow> string \<Rightarrow> ('s world, goerror + unit) state" where
  "Ack q jobID =
    or_return (EvalSha (qclient q) (AckJob_sha (scripts q))
        [processingKey q, lockKey q jobID, timestampsKey q] [jobID])
      (Wrapf ''ack script failed'') (\<lambda>result.
    if result = RInt 0 then ret (Inl ErrJobNotFound) else ret (Inr ()))"

definition Nack :: "'s queue \<Rightarrow> Job \<Rightarrow> string \<Rightarrow> bool \<Rightarrow> ('s world, Job \<times> (goerror + unit)) state" where
  "Nack q j errMsg shouldRetry = do {
     t \<leftarrow> now (qclient q);
     let j = MarkFailed t errMsg j;
     (j, destQueue, action) \<leftarrow>
       (if shouldRetry \<and> ShouldRetry j
        then ret (j, GetPriorityQueueKey (Prefix (qopts q)) (Priority j), ''retry'')
        else do {
          t' \<leftarrow> now (qclient q);
          ret (MarkDead t' errMsg j, dlqKey q, ''dlq'')
        });
     r \<leftarrow> or_return (ret (Marshal j)) (Wrapf ''couldn't serialize job'') (\<lambda>data.
          or_return (Set (qclient q) (jobKey q (ID j)) data 0) (Wrapf ''couldn't update job'') (\<lambda>_.
          or_return (EvalSha (qclient q) (NackJob_sha (scripts q))
              [processingKey q, destQueue, lockKey q (ID j), timestampsKey q] [ID j, action])
            (Wrapf ''nack script failed'') (\<lambda>result.
          if result = RInt 0 then ret (Inl ErrJobNotFound) else ret (Inr ()))));
     ret (j, r)
   }"

text \<open>The loop that removes an identifier from every pending list and ignores errors.\<close>

fun lrem_each :: "'s client \<Rightarrow> string list \<Rightarrow> string \<Rightarrow> ('s world, unit) state" where
  "lrem_each c [] v = ret ()"
| "lrem_each c (k # ks) v = do { _ \<leftarrow> LRem c k 1 v; lrem_each c ks v }"

definition DeleteJob :: "'s queue \<Rightarrow> string \<Rightarrow> ('s world, goerror + unit) state" where
  "DeleteJob q jobID = do {
     lrem_each (qclient q) (PriorityQueues (Prefix (qopts q))) jobID;
     or_return (Del (qclient q) [jobKey q jobID]) (Wrapf ''couldn't delete job'') (\<lambda>_.
     ret (Inr ()))
   }"

definition GetStats :: "'s queue \<Rightarrow> ('s world, goerror + Stats) state" where
  "GetStats q =
    (let c = qclient q; queues = PriorityQueues (Prefix (qopts q)) in
     or_return (LLen c (queues ! 0)) (Wrapf ''couldn't get high queue length'') (\<lambda>high.
     or_return (LLen c (queues ! 1)) (Wrapf ''couldn't get normal queue length'') (\<lambda>normal.
     or_return (LLen c (queues ! 2)) (Wrapf ''couldn't get low queue length'') (\<lambda>low.
     or_return (LLen c (processingKey q)) (Wrapf ''couldn't get processing count'') (\<lambda>processing.
     or_return (LLen c (dlqKey q)) (Wrapf ''couldn't get dlq count'') (\<lambda>dead.
     ret (Inr \<lparr>PendingHigh = high, PendingNormal = normal, PendingLow = low,
       Processing = processing, Dead = dead\<rparr>)))))))"

text \<open>The loop of \<open>ListDLQ\<close>; a job that cannot be read is skipped.\<close>

fun get_jobs :: "'s queue \<Rightarrow> string list \<Rightarrow> ('s world, Job list) state" where
  "get_jobs q [] = ret []"
| "get_jobs q (jobID # ids) = do {
     r \<leftarrow> GetJob q jobID;
     js \<leftarrow> get_jobs q ids;
     ret (case r of Inl _ \<Rightarrow> js | Inr j \<Rightarrow> j # js)
   }"

definition ListDLQ :: "'s queue \<Rightarrow> int \<Rightarrow> int \<Rightarrow> ('s world, goerror + Job list) state" where
  "ListDLQ q offset limit =
    or_return (LRange (qclient q) (dlqKey q) offset (i64 (offset + limit - 1)))
      (Wrapf ''couldn't list dlq'') (\<lambda>jobIDs. do {
        js \<leftarrow> get_jobs q jobIDs;
        ret (Inr js)
      })"

definition RetryDLQJob :: "'s queue \<Rightarrow> string \<Rightarrow> ('s world, goerror + unit) state" where
  "RetryDLQJob q jobID =
    or_return (GetJob q jobID) (Wrapf ''couldn't get job from dlq'') (\<lambda>j.
      let j = j\<lparr>Status := StatusPending, Attempts := 0, LastError := []\<rparr> in
      or_return (ret (Marshal j)) (Wrapf ''couldn't serialize job'') (\<lambda>data.
      or_return (Set (qclient q) (jobKey q (ID j)) data 0) (Wrapf ''couldn't update job'') (\<lambda>_.
      or_return (LRem (qclient q) (dlqKey q) 1 jobID) (Wrapf ''couldn't remove from dlq'') (\<lambda>_.
      or_return (LPush (qclient q) (GetPriorityQueueKey (Prefix (qopts q)) (Priority j)) [ID j])
        (Wrapf ''couldn't requeue job'') (\<lambda>_.
      ret (Inr ()))))))"

end
