(* ===== verification/Redis_Memory.thy ===== *)
theory Redis_Memory
  imports Redis_Server
begin

text \<open>
  An environment kept in memory that meets the contract \<open>redis_server\<close>: a server state, a
  millisecond clock that moves by one at every reading, a counter for identifiers and a flag for
  the link. It shows that the laws are consistent, and the concrete runs of the development use it.
\<close>

record memory =
  mem :: rstate
  ms :: int
  ids :: nat
  alive :: bool

fun sha_text :: "script \<Rightarrow> string" where
  "sha_text claimJobScript = ''c1''"
| "sha_text ackJobScript = ''a1''"
| "sha_text nackJobScript = ''a2''"
| "sha_text recoverStuckJobsScript = ''b1''"
| "sha_text deduplicationCheckScript = ''d1''"
| "sha_text limiterScript = ''e1''"
| "sha_text limiterCountScript = ''e2''"

text \<open>The clock is read within the years 1970 to 9599.\<close>

definition clamp_ms :: "int \<Rightarrow> int" where
  "clamp_ms x = max 0 (min (2786859 * 86400 * 1000) x)"

text \<open>Identifiers have the standard layout; \<open>uuid_shape\<close> asks for 36 hexadecimal digits or dashes.\<close>

definition uuid_char :: "char \<Rightarrow> bool" where
  "uuid_char a \<longleftrightarrow> code a = 45 \<or> (48 \<le> code a \<and> code a \<le> 57) \<or> (65 \<le> code a \<and> code a \<le> 70) \<or>
     (97 \<le> code a \<and> code a \<le> 102)"

definition uuid_shape :: "string \<Rightarrow> bool" where
  "uuid_shape u \<longleftrightarrow> length u = 36 \<and> list_all uuid_char u"

definition nth_uuid :: "nat \<Rightarrow> string" where
  "nth_uuid n = ''6ba7b810-9dad-41d1-80b4-'' @ map (\<lambda>i. digit_char (n div 10 ^ i mod 10)) (rev [0..<12])"

definition mem_env :: "memory env" where
  "mem_env = \<lparr>
     rdb = (\<lambda>cmd. State (\<lambda>m.
       if alive m then
         (case exec sha_text ''0.5'' (ms m) cmd (mem m) of (r, s) \<Rightarrow> (goredis r, m\<lparr>mem := s\<rparr>))
       else (Inl (Extern ''dial tcp: connection refused''), m))),
     time_Now = State (\<lambda>m. (Time (clamp_ms (ms m) * millisecond) 0, m\<lparr>ms := ms m + 1\<rparr>)),
     uuid_New = State (\<lambda>m. (nth_uuid (ids m), m\<lparr>ids := ids m + 1\<rparr>)),
     uuid_ok = uuid_shape,
     rand_Float64 = ret (1 / 2)\<rparr>"

definition mem_client :: "memory client" where
  "mem_client = \<lparr>cenv = mem_env, copts = redis_DefaultOptions\<rparr>"

definition mem_start :: "memory" where
  "mem_start = \<lparr>mem = \<lparr>keyspace = (\<lambda>_. None), cached = (\<lambda>_. None)\<rparr>, ms = 1700000000000, ids = 0,
     alive = True\<rparr>"

definition mem_world :: "memory world" where
  "mem_world = \<lparr>srv = mem_start, cstate = circuitClosed, failures = 0, lastFailure = 0\<rparr>"

section \<open>The laws hold\<close>

lemma time_wf_clamp: "time_wf (Time (clamp_ms x * millisecond) 0)"
proof -
  define n where "n = clamp_ms x * millisecond div second div 86400"
  have c: "0 \<le> clamp_ms x" "clamp_ms x \<le> 2786859 * 86400 * 1000" by (auto simp: clamp_ms_def)
  then have "0 \<le> n" "n \<le> 2786859" by (auto simp: n_def)
  obtain yoe doy where y: "year_of_cycle ((n + 719468) mod 146097) = (yoe, doy)" by (rule prod.exhaust)
  obtain mp d where m: "month_of_year doy = (mp, d)" by (rule prod.exhaust)
  have "0 \<le> yoe" "yoe < 400" using year_of_cycle_inverse(1,2) [OF _ _ y] by auto
  moreover have "4 \<le> (n + 719468) div 146097" "(n + 719468) div 146097 \<le> 23"
    using \<open>0 \<le> n\<close> \<open>n \<le> 2786859\<close> by auto
  ultimately have "0 \<le> fst (civil_of_days n) \<and> fst (civil_of_days n) \<le> 9999"
    by (simp add: civil_of_days_def y m Let_def)
  then show ?thesis by (simp add: time_wf_def time_year_def n_def)
qed

lemma valid_utf8_ascii: "\<forall>a \<in> set s. (of_char a :: nat) < 128 \<Longrightarrow> valid_utf8 s"
  by (induction s rule: valid_utf8.induct) (auto simp: utf8_size.simps)

lemma uuid_shape_nth: "uuid_shape (nth_uuid n)"
proof -
  have "d < 10 \<Longrightarrow> uuid_char (digit_char d)" for d :: nat
    by (auto simp: uuid_char_def digit_char_def)
  then show ?thesis by (auto simp: uuid_shape_def nth_uuid_def uuid_char_def list_all_iff)
qed

lemma uuid_shape_utf8: "uuid_shape u \<Longrightarrow> valid_utf8 u"
  by (rule valid_utf8_ascii) (auto simp: uuid_shape_def list_all_iff uuid_char_def)

lemma uuid_shape_no_lock: "uuid_shape u \<Longrightarrow> u \<noteq> v @ '':lock''"
  by (auto simp: uuid_shape_def uuid_char_def)

lemma nth_uuid_text: "nth_uuid n \<noteq> []" "valid_utf8 (nth_uuid n)"
  using uuid_shape_utf8 [OF uuid_shape_nth] by (auto simp: nth_uuid_def)

interpretation memory: redis_server mem_client mem ms alive sha_text "''0.5''"
proof
  show "inj sha_text"
  proof (rule injI)
    fix x y assume "sha_text x = sha_text y"
    then show "x = y" by (cases x; cases y) simp_all
  qed
qed (auto simp: mem_client_def mem_env_def time_UTC_def time_wf_clamp uuid_shape_nth
    uuid_shape_no_lock nth_uuid_text split: if_splits prod.splits)

lemma memory_contract: "redis_server mem_client mem ms alive sha_text ''0.5''"
  by (rule memory.redis_server_axioms)

lemma mem_world_ready [simp]: "ready alive mem_world" "db mem mem_world = (\<lambda>_. None)"
  by (simp_all add: ready_def mem_world_def mem_start_def IsHealthy_def db_def)

end
