(* ===== verification/Queue_Spec.thy ===== *)
theory Queue_Spec
  imports Queue Redis_Memory
begin

text \<open>
  What the queue promises, and that the code of \<open>Queue\<close> implements it on a working link. The
  abstract queue has a list of identifiers per priority level, the identifiers in processing with
  their start times, the dead letters and the stored job texts; \<open>queue_view\<close> reads it off the keyspace.
\<close>

section \<open>The abstract queue\<close>

datatype level = High | Normal | Low

definition level_of :: "int \<Rightarrow> level" where
  "level_of p = (if p \<ge> 10 then High else if p \<ge> 5 then Normal else Low)"

text \<open>Levels are ordered by urgency.\<close>

primrec level_rank_of :: "level \<Rightarrow> nat" where
  "level_rank_of High = 2"
| "level_rank_of Normal = 1"
| "level_rank_of Low = 0"

instantiation level :: linorder
begin

definition less_eq_level :: "level \<Rightarrow> level \<Rightarrow> bool" where
  "less_eq_level a b \<longleftrightarrow> level_rank_of a \<le> level_rank_of b"

definition less_level :: "level \<Rightarrow> level \<Rightarrow> bool" where
  "less_level a b \<longleftrightarrow> level_rank_of a < level_rank_of b"

instance
proof
  fix a b :: level
  show "a \<le> b \<Longrightarrow> b \<le> a \<Longrightarrow> a = b" by (cases a; cases b) (simp_all add: less_eq_level_def)
qed (auto simp: less_eq_level_def less_level_def)

end

lemma level_of_mono: "mono level_of"
  by (rule monoI) (simp add: level_of_def less_eq_level_def)

record aqueue =
  pend :: "level \<Rightarrow> string list"
  running :: "string list"
  dead :: "string list"
  started :: "(int \<times> string) list"
  stored :: "string \<Rightarrow> string option"

text \<open>Operations on it: identifiers enter a list at the front and leave it at the back.\<close>

definition a_enqueue :: "level \<Rightarrow> string \<Rightarrow> string \<Rightarrow> aqueue \<Rightarrow> aqueue" where
  "a_enqueue l i txt a = a\<lparr>pend := (pend a)(l := i # pend a l), stored := (stored a)(i \<mapsto> txt)\<rparr>"

definition a_ack :: "string \<Rightarrow> aqueue \<Rightarrow> aqueue" where
  "a_ack i a = a\<lparr>running := remove1 i (running a), started := zrem [i] (started a)\<rparr>"

definition a_retry :: "level \<Rightarrow> string \<Rightarrow> string \<Rightarrow> aqueue \<Rightarrow> aqueue" where
  "a_retry l i txt a = a_enqueue l i txt (a_ack i a)"

definition a_bury :: "string \<Rightarrow> string \<Rightarrow> aqueue \<Rightarrow> aqueue" where
  "a_bury i txt a = (a_ack i a)\<lparr>dead := i # dead a, stored := (stored a)(i \<mapsto> txt)\<rparr>"

section \<open>Keys\<close>

definition pending_key :: "string \<Rightarrow> level \<Rightarrow> string" where
  "pending_key p l =
    p @ (case l of High \<Rightarrow> '':queue:10:pending'' | Normal \<Rightarrow> '':queue:5:pending'' | Low \<Rightarrow> '':queue:1:pending'')"

lemma GetPriorityQueueKey_level: "GetPriorityQueueKey p n = pending_key p (level_of n)"
  by (simp add: GetPriorityQueueKey_def pending_key_def level_of_def)

lemma PriorityQueues_levels: "PriorityQueues p = map (pending_key p) [High, Normal, Low]"
  by (simp add: PriorityQueues_def pending_key_def)

text \<open>The lists are visited from the most urgent level down, each level once.\<close>

lemma PriorityQueues_descending:
  "\<exists>ls. PriorityQueues p = map (pending_key p) ls \<and> sorted_wrt (>) ls \<and> set ls = UNIV"
  using PriorityQueues_levels [of p]
  by (intro exI [of _ "[High, Normal, Low]"]) (auto simp: less_level_def intro: level.exhaust)

lemma pending_keys:
  "p @ '':queue:10:pending'' = pending_key p High" "p @ '':queue:5:pending'' = pending_key p Normal"
  "p @ '':queue:1:pending'' = pending_key p Low"
  by (simp_all add: pending_key_def)

lemma pending_key_eq [key_simps]: "pending_key p l = pending_key p l' \<longleftrightarrow> l = l'"
  by (cases l; cases l') (simp_all add: pending_key_def)

lemmas key_defs = pending_key_def jobKey_def lockKey_def processingKey_def dlqKey_def
  timestampsKey_def dedupKey_def

text \<open>The families of keys are disjoint.\<close>

lemma key_families [key_simps]:
  "pending_key (Prefix (qopts q)) l \<noteq> processingKey q" "pending_key (Prefix (qopts q)) l \<noteq> dlqKey q"
  "pending_key (Prefix (qopts q)) l \<noteq> timestampsKey q" "pending_key (Prefix (qopts q)) l \<noteq> jobKey q i"
  "pending_key (Prefix (qopts q)) l \<noteq> lockKey q i" "pending_key (Prefix (qopts q)) l \<noteq> dedupKey q u"
  "processingKey q \<noteq> dlqKey q" "processingKey q \<noteq> timestampsKey q" "processingKey q \<noteq> jobKey q i"
  "processingKey q \<noteq> lockKey q i" "processingKey q \<noteq> dedupKey q u"
  "dlqKey q \<noteq> timestampsKey q" "dlqKey q \<noteq> jobKey q i" "dlqKey q \<noteq> lockKey q i" "dlqKey q \<noteq> dedupKey q u"
  "timestampsKey q \<noteq> jobKey q i" "timestampsKey q \<noteq> lockKey q i" "timestampsKey q \<noteq> dedupKey q u"
  "jobKey q i \<noteq> dedupKey q u" "lockKey q i \<noteq> dedupKey q u"
  by (cases l; simp add: key_defs)+

lemmas key_families_sym [key_simps] = key_families [THEN not_sym]

lemma jobKey_eq [key_simps]: "jobKey q i = jobKey q i' \<longleftrightarrow> i = i'"
  "dedupKey q u = dedupKey q u' \<longleftrightarrow> u = u'"
  by (simp_all add: key_defs)

lemma lockKey_eq [key_simps]: "jobKey q i = lockKey q i' \<longleftrightarrow> i = i' @ '':lock''"
  "lockKey q i' = jobKey q i \<longleftrightarrow> i = i' @ '':lock''"
  by (auto simp: key_defs)

section \<open>The queue in the keyspace\<close>

definition queue_view :: "'s queue \<Rightarrow> keyspace \<Rightarrow> aqueue" where
  "queue_view q D =
    \<lparr>pend = (\<lambda>l. list_of D (pending_key (Prefix (qopts q)) l)),
     running = list_of D (processingKey q), dead = list_of D (dlqKey q),
     started = zset_of D (timestampsKey q), stored = (\<lambda>i. str_of D (jobKey q i))\<rparr>"

text \<open>The queue's own keys hold values of their types.\<close>

definition queue_wf :: "'s queue \<Rightarrow> keyspace \<Rightarrow> bool" where
  "queue_wf q D \<longleftrightarrow>
     is_list D (pending_key (Prefix (qopts q)) High) \<and> is_list D (pending_key (Prefix (qopts q)) Normal) \<and>
     is_list D (pending_key (Prefix (qopts q)) Low) \<and>
     is_list D (processingKey q) \<and> is_list D (dlqKey q) \<and> is_zset D (timestampsKey q)"

definition scripts_loaded :: "(string \<Rightarrow> script option) \<Rightarrow> 's queue \<Rightarrow> bool" where
  "scripts_loaded m q \<longleftrightarrow>
     m (ClaimJob (scripts q)) = Some claimJobScript \<and> m (AckJob_sha (scripts q)) = Some ackJobScript \<and>
     m (NackJob_sha (scripts q)) = Some nackJobScript \<and>
     m (RecoverStuck (scripts q)) = Some recoverStuckJobsScript \<and>
     m (DeduplicationCheck (scripts q)) = Some deduplicationCheckScript"

definition queue_ready :: "('s \<Rightarrow> rstate) \<Rightarrow> ('s \<Rightarrow> bool) \<Rightarrow> 's queue \<Rightarrow> 's world \<Rightarrow> bool" where
  "queue_ready view up q w \<longleftrightarrow>
     ready up w \<and> queue_wf q (db view w) \<and> scripts_loaded (scripts_in view w) q"

lemma queue_wf_pending: "queue_wf q D \<Longrightarrow> is_list D (pending_key (Prefix (qopts q)) l)"
  by (cases l) (simp_all add: queue_wf_def)

lemma queue_readyD:
  assumes "queue_ready view up q w"
  shows "ready up w" "queue_wf q (db view w)" "scripts_loaded (scripts_in view w) q"
    and "is_list (db view w) (pending_key (Prefix (qopts q)) l)" "is_list (db view w) (processingKey q)"
    and "is_list (db view w) (dlqKey q)" "is_zset (db view w) (timestampsKey q)"
  using assms by (auto simp: queue_ready_def queue_wf_def intro: queue_wf_pending)

lemma queue_wf_put [simp]:
  "queue_wf q D \<Longrightarrow> queue_wf q (put_list (pending_key (Prefix (qopts q)) l) xs None D)"
  "queue_wf q D \<Longrightarrow> queue_wf q (put_list (processingKey q) xs None D)"
  "queue_wf q D \<Longrightarrow> queue_wf q (put_list (dlqKey q) xs None D)"
  "queue_wf q D \<Longrightarrow> queue_wf q (put_zset (timestampsKey q) zs None D)"
  "queue_wf q D \<Longrightarrow> queue_wf q (put_str (jobKey q i) v e D)"
  "queue_wf q D \<Longrightarrow> queue_wf q (put_str (lockKey q i) v e D)"
  "queue_wf q D \<Longrightarrow> queue_wf q (put_str (dedupKey q u) v e D)"
  "queue_wf q D \<Longrightarrow> queue_wf q (rm (jobKey q i) D)"
  "queue_wf q D \<Longrightarrow> queue_wf q (rm (lockKey q i) D)"
  "queue_wf q D \<Longrightarrow> queue_wf q (rm (dlqKey q) D)"
  by (auto simp: queue_wf_def key_simps)

text \<open>What an update of one key does to the abstract queue.\<close>

lemma queue_view_put [simp]:
  "queue_view q (put_list (pending_key (Prefix (qopts q)) l) xs None D) =
     (queue_view q D)\<lparr>pend := (pend (queue_view q D))(l := xs)\<rparr>"
  "queue_view q (put_list (processingKey q) xs None D) = (queue_view q D)\<lparr>running := xs\<rparr>"
  "queue_view q (put_list (dlqKey q) xs None D) = (queue_view q D)\<lparr>dead := xs\<rparr>"
  "queue_view q (put_zset (timestampsKey q) zs None D) = (queue_view q D)\<lparr>started := zs\<rparr>"
  "queue_view q (put_str (jobKey q i) v None D) =
     (queue_view q D)\<lparr>stored := (stored (queue_view q D))(i \<mapsto> v)\<rparr>"
  "queue_view q (put_str (jobKey q i) v (Some t) D) =
     (queue_view q D)\<lparr>stored := (stored (queue_view q D))(i := None)\<rparr>"
  "queue_view q (put_str (dedupKey q u) v e D) = queue_view q D"
  "queue_view q (rm (jobKey q i) D) = (queue_view q D)\<lparr>stored := (stored (queue_view q D))(i := None)\<rparr>"
  "queue_view q (rm (lockKey q i) D) =
     (queue_view q D)\<lparr>stored := (stored (queue_view q D))(i @ '':lock'' := None)\<rparr>"
  "queue_view q (rm (dlqKey q) D) = (queue_view q D)\<lparr>dead := []\<rparr>"
  by (simp_all add: queue_view_def key_simps fun_eq_iff)

lemma queue_view_sel [simp]:
  "pend (queue_view q D) l = list_of D (pending_key (Prefix (qopts q)) l)"
  "running (queue_view q D) = list_of D (processingKey q)" "dead (queue_view q D) = list_of D (dlqKey q)"
  "started (queue_view q D) = zset_of D (timestampsKey q)" "stored (queue_view q D) i = str_of D (jobKey q i)"
  by (simp_all add: queue_view_def)

end
