(* ===== verification/Queue_Correct.thy ===== *)
theory Queue_Correct
  imports Queue_Spec
begin

text \<open>
  The operations of \<open>queue.go\<close> refine the abstract queue on a working link: what each returns, on
  every branch, and what it leaves in the keyspace.
\<close>

section \<open>The scripts\<close>

abbreviation server_call :: "string \<Rightarrow> int \<Rightarrow> keyspace redis_call" where
  "server_call rnd t \<equiv> \<lambda>cmd. State (exec_basic rnd t cmd)"

lemma put_list_same [simp]: "is_list D k \<Longrightarrow> put_list k (list_of D k) None D = D"
  by (auto simp: content_defs put_defs fun_eq_iff split: option.splits rval.splits)

lemma put_str_at [simp]: "put_str k v e D k = Some (VStr v, e)"
  by (simp add: put_str_def)

lemma ackJob_script:
  assumes "is_list D k1" "is_zset D k3" "k1 \<noteq> k2" "k1 \<noteq> k3" "k2 \<noteq> k3"
  shows "run_state (ackJob_lua (server_call rnd t) [k1, k2, k3] [i]) D =
    (if i \<in> set (list_of D k1) then
       (Inr (RInt 1), put_zset k3 (zrem [i] (zset_of D k3)) None (rm k2
          (put_list k1 (remove1 i (list_of D k1)) None D)))
     else (Inr (RInt 0), D))"
  using assms length_remove1_in [of i "list_of D k1"]
  by (auto simp: ackJob_lua_def run_simps with_list_is_list with_zset_is_zset Let_def remove1_idem)

lemma nackJob_script:
  assumes "is_list D k1" "is_list D k2" "is_zset D k4" "k1 \<noteq> k2" "k1 \<noteq> k3" "k1 \<noteq> k4" "k2 \<noteq> k3"
    "k2 \<noteq> k4" "k3 \<noteq> k4"
  shows "run_state (nackJob_lua (server_call rnd t) [k1, k2, k3, k4] [i, act]) D =
    (if i \<in> set (list_of D k1) then
       (Inr (RInt 1), put_list k2 (i # list_of D k2) None
          (put_zset k4 (zrem [i] (zset_of D k4)) None (rm k3
             (put_list k1 (remove1 i (list_of D k1)) None D))))
     else (Inr (RInt 0), D))"
  using assms length_remove1_in [of i "list_of D k1"]
  by (auto simp: nackJob_lua_def run_simps with_list_is_list with_zset_is_zset Let_def remove1_idem)

lemma claimJob_script:
  assumes "is_list D k1" "is_list D k2" "is_zset D k4" "k1 \<noteq> k2" "k1 \<noteq> k4" "k2 \<noteq> k4"
    and "\<And>i. k1 \<noteq> k3 @ i" "\<And>i. k2 \<noteq> k3 @ i" "\<And>i. k4 \<noteq> k3 @ i"
    and "parse_int ttl = Some n" "0 < n" "parse_int ts = Some s"
  shows "run_state (claimJob_lua (server_call rnd t) [k1, k2, k3, k4] [ttl, ts]) D =
    (if list_of D k1 = [] then (Inr RNull, D)
     else let i = last (list_of D k1) in
       (Inr (RBulk i), put_zset k4 (zadd s i (zset_of D k4)) None
          (put_str (k3 @ i) ts (Some (t + 1000 * n))
             (put_list k2 (i # list_of D k2) None (put_list k1 (butlast (list_of D k1)) None D)))))"
  using assms by (simp add: claimJob_lua_def run_simps lmove_lists with_zset_is_zset Let_def)

lemma deduplicationCheck_script:
  assumes "parse_int ttl = Some n" "0 < n"
  shows "run_state (deduplicationCheck_lua (server_call rnd t) [k] [ttl]) D =
    (if lookup t D k = None then (Inr (RInt 1), put_str k ''1'' (Some (t + 1000 * n)) D)
     else (Inr (RInt 0), D))"
  using assms by (simp add: deduplicationCheck_lua_def run_simps)

text \<open>Durations given in whole seconds reach the scripts as that many seconds.\<close>

lemma whole_seconds_exact: "0 \<le> n \<Longrightarrow> n < 2 ^ 53 \<Longrightarrow> whole_seconds (n * second) = n"
proof -
  assume n: "0 \<le> n" "n < 2 ^ 53"
  then have "int64_range n" by (simp add: int64_range_def)
  with n show ?thesis by (simp add: whole_seconds_def duration_Seconds_whole)
qed

text \<open>The keyspace after an identifier was taken out of processing.\<close>

definition finish_db :: "'s queue \<Rightarrow> string \<Rightarrow> keyspace \<Rightarrow> keyspace" where
  "finish_db q i D =
    put_zset (timestampsKey q) (zrem [i] (zset_of D (timestampsKey q))) None
      (rm (lockKey q i) (put_list (processingKey q) (remove1 i (list_of D (processingKey q))) None D))"

lemma queue_wf_finish [simp]: "queue_wf q D \<Longrightarrow> queue_wf q (finish_db q i D)"
  by (simp add: finish_db_def)

lemma queue_view_finish:
  "stored (queue_view q D) (i @ '':lock'') = None \<Longrightarrow> queue_view q (finish_db q i D) = a_ack i (queue_view q D)"
  by (simp add: finish_db_def a_ack_def queue_view_def key_simps fun_eq_iff)

text \<open>The job that can be read back under an identifier.\<close>

definition stored_job :: "aqueue \<Rightarrow> string \<Rightarrow> Job option" where
  "stored_job a i =
    (case stored a i of
       None \<Rightarrow> None
     | Some d \<Rightarrow> (case Unmarshal d of Inl _ \<Rightarrow> None | Inr j \<Rightarrow> Some j))"

text \<open>The job that \<open>Nack\<close> stores, for the instants of its clock readings.\<close>

definition nack_retries :: "bool \<Rightarrow> Job \<Rightarrow> bool" where
  "nack_retries shouldRetry j \<longleftrightarrow> shouldRetry \<and> i64 (Attempts j + 1) < MaxRetries j"

definition nacked :: "gotime \<Rightarrow> gotime \<Rightarrow> string \<Rightarrow> bool \<Rightarrow> Job \<Rightarrow> Job" where
  "nacked t t' errMsg shouldRetry j =
    (if nack_retries shouldRetry j then MarkFailed t errMsg j else MarkDead t' errMsg (MarkFailed t errMsg j))"

lemma nacked_simps [simp]:
  "ID (nacked t t' e r j) = ID j" "Priority (nacked t t' e r j) = Priority j"
  "Type (nacked t t' e r j) = Type j" "Payload (nacked t t' e r j) = Payload j"
  "MaxRetries (nacked t t' e r j) = MaxRetries j" "Attempts (nacked t t' e r j) = i64 (Attempts j + 1)"
  "LastError (nacked t t' e r j) = e"
  "Status (nacked t t' e r j) = (if nack_retries r j then StatusFailed else StatusDead)"
  by (simp_all add: nacked_def MarkFailed_def MarkDead_def)

lemma nacked_wf:
  "job_wf j \<Longrightarrow> valid_utf8 e \<Longrightarrow> time_wf (time_UTC t) \<Longrightarrow> time_wf (time_UTC t') \<Longrightarrow> job_wf (nacked t t' e r j)"
  by (simp add: job_wf_def nacked_def MarkFailed_def MarkDead_def status_known_def)

text \<open>
  The keyspace after the claim script moved the oldest identifier of a level at second \<open>s\<close>. The lock
  it sets until \<open>e\<close> is under the job's own key: the caller passes the prefix of the job keys as \<open>KEYS[3]\<close>.
\<close>

definition claim_db :: "'s queue \<Rightarrow> level \<Rightarrow> int \<Rightarrow> int \<Rightarrow> keyspace \<Rightarrow> keyspace" where
  "claim_db q l s e D =
    (let k = pending_key (Prefix (qopts q)) l; i = last (list_of D k) in
     put_zset (timestampsKey q) (zadd s i (zset_of D (timestampsKey q))) None
       (put_str (jobKey q i) (format_int s) (Some e)
         (put_list (processingKey q) (i # list_of D (processingKey q)) None
           (put_list k (butlast (list_of D k)) None D))))"

definition a_claim :: "level \<Rightarrow> int \<Rightarrow> aqueue \<Rightarrow> aqueue" where
  "a_claim l s a =
    (let i = last (pend a l) in
     a\<lparr>pend := (pend a)(l := butlast (pend a l)), running := i # running a,
       started := zadd s i (started a), stored := (stored a)(i := None)\<rparr>)"

lemma claim_db_wf: "queue_wf q D \<Longrightarrow> queue_wf q (claim_db q l s e D)"
  by (simp add: claim_db_def Let_def)

lemma claim_db_view: "queue_view q (claim_db q l s e D) = a_claim l s (queue_view q D)"
  by (simp add: claim_db_def a_claim_def key_simps Let_def)

lemma claim_db_lock:
  "claim_db q l s e D (jobKey q (last (pend (queue_view q D) l))) = Some (VStr (format_int s), Some e)"
  by (simp add: claim_db_def Let_def put_zset_def put_str_def key_simps)

lemma Unmarshal_number: "\<exists>e. Unmarshal (format_int n) = Inl e"
proof -
  have "json_ok 10000 (encode_int n)" by simp
  then have "json_parse (json_text (encode_int n)) = Some (encode_int n)" by (rule json_parse_text)
  then show ?thesis by (simp add: Unmarshal_def encode_int_def decode_struct_def)
qed

lemma claim_script_db:
  assumes w: "queue_wf q D" and n: "whole_seconds (LockTTL (qopts q)) = n" "0 < n" and s: "int64_range s"
  shows "run_state (claimJob_lua (server_call rnd t)
      [pending_key (Prefix (qopts q)) l, processingKey q, Prefix (qopts q) @ '':job:'', timestampsKey q]
      [format_int n, format_int s]) D =
    (if pend (queue_view q D) l = [] then (Inr RNull, D)
     else (Inr (RBulk (last (pend (queue_view q D) l))), claim_db q l s (t + 1000 * n) D))"
proof -
  have r: "is_list D (processingKey q)" "is_zset D (timestampsKey q)" using w by (simp_all add: queue_wf_def)
  have p: "parse_int (format_int n) = Some n" "parse_int (format_int s) = Some s"
    using s n i64_range by (auto simp: parse_format_int whole_seconds_def)
  show ?thesis
    by (subst claimJob_script [OF queue_wf_pending [OF w] r _ _ _ _ _ _ p(1) n(2) p(2)])
      (simp_all add: key_defs claim_db_def Let_def split: level.split)
qed

text \<open>The keyspace after a job was stored and its identifier pushed to a level.\<close>

definition enqueue_db :: "'s queue \<Rightarrow> level \<Rightarrow> string \<Rightarrow> string \<Rightarrow> keyspace \<Rightarrow> keyspace" where
  "enqueue_db q l i d D =
    put_list (pending_key (Prefix (qopts q)) l) (i # list_of D (pending_key (Prefix (qopts q)) l)) None
      (put_str (jobKey q i) d None D)"

section \<open>The contract of the queue\<close>

text \<open>A queue whose client speaks to a server that meets the contract of Redis.\<close>

locale queue_on_redis = redis_server c view stime up sha rnd
  for c :: "'s client" and view :: "'s \<Rightarrow> rstate" and stime :: "'s \<Rightarrow> int" and up :: "'s \<Rightarrow> bool"
    and sha :: "script \<Rightarrow> string" and rnd :: string +
  fixes q :: "'s queue"
  assumes q_client: "qclient q = c"
begin

text \<open>An update of the keyspace by a basic command keeps the scripts and the link.\<close>

lemma queue_ready_sent:
  "queue_ready view up q w \<Longrightarrow> basic cmd \<Longrightarrow> queue_wf q (db view (sent c cmd w)) \<Longrightarrow>
     queue_ready view up q (sent c cmd w)"
  by (simp add: queue_ready_def)

lemma queue_ready_ticked [simp]: "queue_ready view up q w \<Longrightarrow> queue_ready view up q (ticked c w)"
  by (simp add: queue_ready_def)

lemma queue_ready_script:
  "queue_ready view up q w \<Longrightarrow> scripts_in view w d = Some sc \<Longrightarrow>
     queue_wf q (db view (sent c (EVALSHA d ks args) w)) \<Longrightarrow>
     queue_ready view up q (sent c (EVALSHA d ks args) w)"
  by (simp add: queue_ready_def)

lemma stime_sent: "ready up w \<Longrightarrow> stime (srv w) \<le> stime (srv (sent c cmd w))"
  using after_laws(2) [of "srv w" cmd] by (simp add: sent_def ready_def)

lemma set_job:
  assumes "queue_ready view up q w"
  shows "run_state (Set (qclient q) (jobKey q i) txt 0) w = (Inr (), sent c (SET (jobKey q i) txt 0) w)"
    and "queue_ready view up q (sent c (SET (jobKey q i) txt 0) w)"
    and "db view (sent c (SET (jobKey q i) txt 0) w) = put_str (jobKey q i) txt None (db view w)"
  using assms queue_readyD(1,2) [OF assms]
  by (auto simp: q_client run_simps intro: queue_ready_sent)

lemma push_pending:
  assumes "queue_ready view up q w"
  shows "run_state (LPush (qclient q) (pending_key (Prefix (qopts q)) l) [i]) w =
      (Inr (), sent c (LPUSH (pending_key (Prefix (qopts q)) l) [i]) w)"
    and "queue_ready view up q (sent c (LPUSH (pending_key (Prefix (qopts q)) l) [i]) w)"
    and "db view (sent c (LPUSH (pending_key (Prefix (qopts q)) l) [i]) w) =
      put_list (pending_key (Prefix (qopts q)) l) (i # list_of (db view w) (pending_key (Prefix (qopts q)) l))
        None (db view w)"
  using assms queue_readyD(1,2) [OF assms] queue_readyD(4) [OF assms, of l]
  by (auto simp: q_client run_simps intro: queue_ready_sent)

lemma checkDeduplication_run:
  assumes w: "queue_ready view up q w" and n: "whole_seconds (DeduplicationTTL (qopts q)) = n" "0 < n"
  obtains t w' where "stime (srv w) \<le> t" "queue_ready view up q w'"
    "run_state (checkDeduplication q u) w = (Inr (lookup t (db view w) (dedupKey q u) \<noteq> None), w')"
    "db view w' = (if lookup t (db view w) (dedupKey q u) = None
       then put_str (dedupKey q u) ''1'' (Some (t + 1000 * n)) (db view w) else db view w)"
    "stime (srv w') = t"
proof -
  define cmd where "cmd = EVALSHA (DeduplicationCheck (scripts q)) [dedupKey q u] [format_int n]"
  define t where "t = stime (after c cmd (srv w))"
  note r = queue_readyD [OF w]
  have p: "parse_int (format_int n) = Some n" using n by (metis i64_range parse_format_int whole_seconds_def)
  have sc: "scripts_in view w (DeduplicationCheck (scripts q)) = Some deduplicationCheckScript"
    using r(3) by (simp add: scripts_loaded_def)
  have ex: "exec sha rnd t cmd (view (srv w)) =
      (if lookup t (db view w) (dedupKey q u) = None
       then (Inr (RInt 1), (view (srv w))\<lparr>keyspace := put_str (dedupKey q u) ''1'' (Some (t + 1000 * n)) (db view w)\<rparr>)
       else (Inr (RInt 0), view (srv w)))"
    using sc deduplicationCheck_script [OF p n(2), of rnd t "dedupKey q u" "db view w"]
    by (auto simp: cmd_def exec_def run_lua_def scripts_in_def db_def)
  have v: "view (srv (sent c cmd w)) = snd (exec sha rnd t cmd (view (srv w)))"
    using after_laws(4) [of "srv w" cmd] r(1) by (simp add: sent_def t_def ready_def)
  have d: "db view (sent c cmd w) = (if lookup t (db view w) (dedupKey q u) = None
       then put_str (dedupKey q u) ''1'' (Some (t + 1000 * n)) (db view w) else db view w)"
    using v ex by (simp add: db_def)
  have "queue_ready view up q (sent c cmd w)"
    unfolding cmd_def by (rule queue_ready_script [OF w sc]) (use d r(2) in \<open>simp add: cmd_def\<close>)
  moreover have "run_state (checkDeduplication q u) w =
      (Inr (lookup t (db view w) (dedupKey q u) \<noteq> None), sent c cmd w)"
    using r(1) ex n(1) by (simp add: checkDeduplication_def q_client EvalSha_def run_simps run_call_ready
        cmd_def [symmetric] t_def [symmetric])
  moreover have "stime (srv w) \<le> t" using after_laws(2) [of "srv w" cmd] r(1) by (simp add: t_def ready_def)
  ultimately show thesis using that [of t "sent c cmd w"] d by (simp add: sent_def t_def)
qed

text \<open>Storing and queueing a valid job, once the check for duplicates has passed.\<close>

lemma store_and_push:
  assumes "queue_ready view up q w"
  obtains w' where "queue_ready view up q w'"
    "run_state (Set (qclient q) (jobKey q i) txt 0) w = (Inr (), sent c (SET (jobKey q i) txt 0) w)"
    "run_state (LPush (qclient q) (pending_key (Prefix (qopts q)) l) [i])
       (sent c (SET (jobKey q i) txt 0) w) = (Inr (), w')"
    "queue_view q (db view w') = a_enqueue l i txt (queue_view q (db view w))"
    "\<And>u. db view w' (dedupKey q u) = db view w (dedupKey q u)" "stime (srv w) \<le> stime (srv w')"
    "db view w' = enqueue_db q l i txt (db view w)"
proof -
  note s = set_job [OF assms, of i "txt"]
  note p = push_pending [OF s(2), of l i]
  show thesis
  proof (rule that [OF p(2) s(1) p(1)])
    show "queue_view q (db view (sent c (LPUSH (pending_key (Prefix (qopts q)) l) [i])
        (sent c (SET (jobKey q i) txt 0) w))) = a_enqueue l i txt (queue_view q (db view w))"
      by (simp add: p(3) s(3) a_enqueue_def key_simps)
    show "db view (sent c (LPUSH (pending_key (Prefix (qopts q)) l) [i]) (sent c (SET (jobKey q i) txt 0) w))
        (dedupKey q u) = db view w (dedupKey q u)" for u
      using key_families(6) [of q l u] key_families(19) [of q i u]
      by (simp add: p(3) s(3) put_list_def put_str_def)
    show "stime (srv w) \<le> stime (srv (sent c (LPUSH (pending_key (Prefix (qopts q)) l) [i])
        (sent c (SET (jobKey q i) txt 0) w)))"
      using stime_sent [OF queue_readyD(1) [OF assms], of "SET (jobKey q i) txt 0"]
        stime_sent [OF queue_readyD(1) [OF s(2)], of "LPUSH (pending_key (Prefix (qopts q)) l) [i]"] by simp
    show "db view (sent c (LPUSH (pending_key (Prefix (qopts q)) l) [i]) (sent c (SET (jobKey q i) txt 0) w)) =
        enqueue_db q l i txt (db view w)"
      by (simp add: p(3) s(3) enqueue_db_def key_simps)
  qed
qed

lemma Enqueue_run:
  assumes "queue_ready view up q w" "Validate (uuid_ok (cenv c)) j = None" "job_wf j" "UniqueKey j = []"
  obtains w' where "run_state (Enqueue q j) w = (Inr (), w')" "queue_ready view up q w'"
    "queue_view q (db view w') =
      a_enqueue (level_of (Priority j)) (ID j) (job_text j) (queue_view q (db view w))"
    "db view w' = enqueue_db q (level_of (Priority j)) (ID j) (job_text j) (db view w)"
proof -
  define d where "d = job_text j"
  obtain w' where "queue_ready view up q w'"
    "run_state (Set (qclient q) (jobKey q (ID j)) d 0) w = (Inr (), sent c (SET (jobKey q (ID j)) d 0) w)"
    "run_state (LPush (qclient q) (pending_key (Prefix (qopts q)) (level_of (Priority j))) [ID j])
       (sent c (SET (jobKey q (ID j)) d 0) w) = (Inr (), w')"
    "queue_view q (db view w') = a_enqueue (level_of (Priority j)) (ID j) d (queue_view q (db view w))"
    "db view w' = enqueue_db q (level_of (Priority j)) (ID j) d (db view w)"
    using store_and_push [OF assms(1), of "ID j" d "level_of (Priority j)"] by metis
  moreover from this have "run_state (Enqueue q j) w = (Inr (), w')"
    using assms(2-4) by (simp add: Enqueue_def q_client run_simps Marshal_job_text d_def [symmetric]
        GetPriorityQueueKey_level)
  ultimately show thesis using that d_def by blast
qed

lemma GetJob_run:
  assumes "queue_ready view up q w" "stored (queue_view q (db view w)) i = Some d"
  shows "run_state (GetJob q i) w =
      (case Unmarshal d of Inl e \<Rightarrow> Inl (Wrapf ''couldn't parse job'' e) | Inr j \<Rightarrow> Inr j,
       sent c (GET (jobKey q i)) w)"
    and "queue_ready view up q (sent c (GET (jobKey q i)) w)"
    and "db view (sent c (GET (jobKey q i)) w) = db view w"
  using assms queue_readyD(1,2) [OF assms(1)]
  by (auto simp: GetJob_def q_client run_simps Get_run intro: queue_ready_sent split: sum.split)

lemma GetJob_missing:
  assumes "queue_ready view up q w" "db view w (jobKey q i) = None"
  shows "run_state (GetJob q i) w =
      (Inl (Wrapf ''couldn't get job'' (Wrapf ''redis get'' ErrNotFound)), missed c (GET (jobKey q i)) w)"
    and "queue_ready view up q (missed c (GET (jobKey q i)) w)"
    and "db view (missed c (GET (jobKey q i)) w) = db view w"
  using assms queue_readyD(1-3) [OF assms(1)]
  by (auto simp: GetJob_def q_client run_simps Get_absent queue_ready_def)

text \<open>A script whose effect does not depend on the instant it runs at.\<close>

lemma script_call:
  assumes w: "queue_ready view up q w" and sc: "scripts_in view w d = Some sc"
    and run: "\<And>t. in_script t sc ks args (db view w) = (Inr v, D)" and v: "v \<noteq> RNull"
    and D: "queue_wf q D"
  obtains w' where "queue_ready view up q w'" "run_state (EvalSha (qclient q) d ks args) w = (Inr v, w')"
    "db view w' = D"
proof -
  note r = queue_readyD [OF w]
  have d: "db view (sent c (EVALSHA d ks args) w) = D"
    using EvalSha_db [OF r(1) sc, of ks args] by (simp add: run)
  show thesis
  proof (rule that)
    show "queue_ready view up q (sent c (EVALSHA d ks args) w)"
      by (rule queue_ready_script [OF w sc]) (simp add: d D)
    show "run_state (EvalSha (qclient q) d ks args) w = (Inr v, sent c (EVALSHA d ks args) w)"
      unfolding q_client by (rule EvalSha_run [OF r(1) sc]) (use v in \<open>cases v; simp add: run\<close>)
  qed (rule d)
qed

lemma Ack_run:
  assumes w: "queue_ready view up q w"
  obtains w' where "queue_ready view up q w'"
    "run_state (Ack q i) w =
       (if i \<in> set (running (queue_view q (db view w))) then Inr () else Inl ErrJobNotFound, w')"
    "db view w' =
       (if i \<in> set (running (queue_view q (db view w))) then finish_db q i (db view w) else db view w)"
proof -
  let ?D = "if i \<in> set (running (queue_view q (db view w))) then finish_db q i (db view w) else db view w"
  note r = queue_readyD [OF w]
  have sc: "scripts_in view w (AckJob_sha (scripts q)) = Some ackJobScript"
    using r(3) by (simp add: scripts_loaded_def)
  have run: "in_script t ackJobScript [processingKey q, lockKey q i, timestampsKey q] [i] (db view w) =
      (Inr (RInt (if i \<in> set (running (queue_view q (db view w))) then 1 else 0)), ?D)" for t
    using ackJob_script [OF r(5) r(7), of "lockKey q i" rnd t i] by (simp add: key_simps finish_db_def)
  have wf: "queue_wf q ?D" using r(2) by simp
  obtain w' where w': "queue_ready view up q w'" "db view w' = ?D"
    "run_state (EvalSha (qclient q) (AckJob_sha (scripts q)) [processingKey q, lockKey q i, timestampsKey q] [i]) w =
       (Inr (RInt (if i \<in> set (running (queue_view q (db view w))) then 1 else 0)), w')"
    using script_call [OF w sc run _ wf] by blast
  show thesis by (rule that [OF w'(1) _ w'(2)]) (simp add: Ack_def run_simps w'(3))
qed

lemma nack_call:
  assumes w: "queue_ready view up q w" and dest: "dest = dlqKey q \<or> (\<exists>l. dest = pending_key (Prefix (qopts q)) l)"
  obtains w' where "queue_ready view up q w'"
    "db view w' = (let D = db view w in
       if i \<in> set (list_of D (processingKey q)) then put_list dest (i # list_of D dest) None (finish_db q i D) else D)"
    "run_state (EvalSha (qclient q) (NackJob_sha (scripts q)) [processingKey q, dest, lockKey q i, timestampsKey q] [i, act]) w =
       (Inr (RInt (if i \<in> set (list_of (db view w) (processingKey q)) then 1 else 0)), w')"
proof -
  note r = queue_readyD [OF w]
  let ?in = "i \<in> set (list_of (db view w) (processingKey q))"
  let ?D = "if ?in then put_list dest (i # list_of (db view w) dest) None (finish_db q i (db view w)) else db view w"
  have sc: "scripts_in view w (NackJob_sha (scripts q)) = Some nackJobScript"
    using r(3) by (simp add: scripts_loaded_def)
  have d: "is_list (db view w) dest" "dest \<noteq> processingKey q" "dest \<noteq> lockKey q i" "dest \<noteq> timestampsKey q"
    using r(4,6) dest by (auto simp: key_simps)
  have run: "in_script t nackJobScript [processingKey q, dest, lockKey q i, timestampsKey q] [i, act] (db view w) =
      (Inr (RInt (if ?in then 1 else 0)), ?D)" for t
    using nackJob_script [OF r(5) d(1) r(7), of "lockKey q i" rnd t i act] d by (auto simp: finish_db_def key_simps)
  have "queue_wf q ?D" using r(2) dest by auto
  then show thesis using script_call [OF w sc run] that by (auto simp: Let_def)
qed

lemma Nack_run:
  assumes w: "queue_ready view up q w" and j: "job_wf j" "valid_utf8 e"
    and lock: "stored (queue_view q (db view w)) (ID j @ '':lock'') = None"
  obtains t t' w' where "queue_ready view up q w'" "job_wf (nacked t t' e r j)"
    "run_state (Nack q j e r) w =
       ((nacked t t' e r j, if ID j \<in> set (running (queue_view q (db view w))) then Inr () else Inl ErrJobNotFound), w')"
    "queue_view q (db view w') =
       (let a = queue_view q (db view w); d = job_text (nacked t t' e r j) in
        if ID j \<in> set (running a) then
          if nack_retries r j then a_retry (level_of (Priority j)) (ID j) d a else a_bury (ID j) d a
        else a\<lparr>stored := (stored a)(ID j \<mapsto> d)\<rparr>)"
proof -
  define w1 where "w1 = (if nack_retries r j then ticked c w else ticked c (ticked c w))"
  define t where "t = clock_of c w"
  define t' where "t' = clock_of c (ticked c w)"
  define j' where "j' = nacked t t' e r j"
  define d where "d = job_text j'"
  define dest where "dest = (if nack_retries r j then pending_key (Prefix (qopts q)) (level_of (Priority j)) else dlqKey q)"
  define act where "act = (if nack_retries r j then ''retry'' else ''dlq'')"
  define w2 where "w2 = sent c (SET (jobKey q (ID j)) d 0) w1"
  define D where "D = put_str (jobKey q (ID j)) d None (db view w)"
  have w1: "queue_ready view up q w1" "db view w1 = db view w" using w by (simp_all add: w1_def)
  have wf: "job_wf j'" using nacked_wf [OF j] clock_laws(3) by (simp add: j'_def t_def t'_def)
  note set = set_job [OF w1(1), of "ID j" d, folded w2_def, unfolded w1(2), folded D_def]
  let ?in = "ID j \<in> set (running (queue_view q (db view w)))"
  let ?D = "if ?in then put_list dest (ID j # list_of D dest) None (finish_db q (ID j) D) else D"
  let ?ks = "[processingKey q, dest, lockKey q (ID j), timestampsKey q]"
  have "dest = dlqKey q \<or> (\<exists>l. dest = pending_key (Prefix (qopts q)) l)" by (auto simp: dest_def)
  then obtain w' where w': "queue_ready view up q w'" "db view w' = ?D"
    "run_state (EvalSha (qclient q) (NackJob_sha (scripts q)) ?ks [ID j, act]) w2 = (Inr (RInt (if ?in then 1 else 0)), w')"
    by (rule nack_call [OF set(2), of dest "ID j" act]) (auto simp: set(3) D_def key_simps Let_def)
  have j': "ID j' = ID j" "Priority j' = Priority j" "Marshal j' = Inr d"
    using Marshal_job_text [OF wf] by (simp_all add: j'_def d_def)
  have "run_state (Nack q j e r) w = ((j', if ?in then Inr () else Inl ErrJobNotFound), w')"
  proof (cases "nack_retries r j")
    case True
    then have "MarkFailed (clock_of c w) e j = j'" "r" "ShouldRetry j'" "w1 = ticked c w"
      "dest = pending_key (Prefix (qopts q)) (level_of (Priority j))" "act = ''retry''"
      by (auto simp: j'_def nacked_def t_def nack_retries_def ShouldRetry_def MarkFailed_def w1_def dest_def act_def)
    then show ?thesis using w'(3) set(1) j'
      by (simp add: Nack_def q_client run_simps Let_def GetPriorityQueueKey_level)
  next
    case False
    then have "MarkDead (clock_of c (ticked c w)) e (MarkFailed (clock_of c w) e j) = j'"
      "\<not> (r \<and> ShouldRetry (MarkFailed (clock_of c w) e j))" "w1 = ticked c (ticked c w)" "dest = dlqKey q"
      "act = ''dlq''"
      by (auto simp: j'_def nacked_def t_def t'_def nack_retries_def ShouldRetry_def MarkFailed_def w1_def
          dest_def act_def)
    then show ?thesis using w'(3) set(1) j' by (auto simp: Nack_def q_client run_simps Let_def)
  qed
  moreover have "queue_view q (db view w') =
      (let a = queue_view q (db view w) in
        if ?in then
          if nack_retries r j then a_retry (level_of (Priority j)) (ID j) d a else a_bury (ID j) d a
        else a\<lparr>stored := (stored a)(ID j \<mapsto> d)\<rparr>)"
    using lock by (simp add: w'(2) queue_view_finish D_def dest_def a_retry_def a_bury_def a_enqueue_def a_ack_def
        key_simps Let_def)
  ultimately show thesis using that [OF w'(1), of t t'] wf unfolding Let_def j'_def d_def by blast
qed

text \<open>A volatile key is read while it lives and is absent afterwards.\<close>

lemma Get_volatile:
  assumes "ready up w" "db view w k = Some (VStr v, Some e)"
  obtains w' where "ready up w'" "db view w' = db view w" "scripts_in view w' = scripts_in view w"
    "run_state (Get c k) w = (Inr v, w') \<or>
     run_state (Get c k) w = (Inl (Wrapf ''redis get'' ErrNotFound), w')"
proof (cases "lookup (stime (after c (GET k) (srv w))) (db view w) k")
  case None
  then have "run_state (Get c k) w = (Inl (Wrapf ''redis get'' ErrNotFound), missed c (GET k) w)"
    using assms(1) by (simp add: Get_def run_call_ready exec_basic_cmd db_def as_string_def wrapError_def)
  then show thesis using that [of "missed c (GET k) w"] assms(1) by simp
next
  case (Some a)
  then have "a = (VStr v, Some e)" using assms(2) by (auto simp: lookup_def split: if_splits)
  then have "run_state (Get c k) w = (Inr v, sent c (GET k) w)"
    using assms(1) Some by (simp add: Get_def run_call_ready exec_basic_cmd db_def as_string_def)
  then show thesis using that [of "sent c (GET k) w"] assms(1) by simp
qed

lemma claim_script_run:
  assumes w: "queue_ready view up q w" and n: "whole_seconds (LockTTL (qopts q)) = n" "0 < n"
    and s: "int64_range s"
  shows "in_script t claimJobScript
      [pending_key (Prefix (qopts q)) l, processingKey q, Prefix (qopts q) @ '':job:'', timestampsKey q]
      [format_int n, format_int s] (db view w) =
    (if pend (queue_view q (db view w)) l = [] then (Inr RNull, db view w)
     else (Inr (RBulk (last (pend (queue_view q (db view w)) l))), claim_db q l s (t + 1000 * n) (db view w)))"
  using claim_script_db [OF queue_readyD(2) [OF w] n s] by simp

lemma clock_second: "int64_range (time_Unix (clock_of c w))"
  using time_Unix_range [OF clock_laws(3) [of w]] by (simp add: time_Unix_def time_UTC_def)

lemma claim_empty:
  assumes w: "queue_ready view up q w" and n: "0 < whole_seconds (LockTTL (qopts q))"
    and e: "pend (queue_view q (db view w)) l = []"
  obtains w' where
    "run_state (claimFromQueue q (pending_key (Prefix (qopts q)) l)) w =
       (Inl (Wrapf ''claim script blew up'' (Wrapf ''redis evalsha'' ErrNotFound)), w')"
    "db view w' = db view w" "failures w' = failures w + 1" "up (srv w')"
    "scripts_in view w' = scripts_in view w"
    "cstate w' = (if CircuitBreakerThreshold (copts c) \<le> sint (failures w + 1) then circuitOpen else cstate w)"
proof -
  define ks where "ks = [pending_key (Prefix (qopts q)) l, processingKey q, Prefix (qopts q) @ '':job:'', timestampsKey q]"
  define args where "args = [format_int (whole_seconds (LockTTL (qopts q))), format_int (time_Unix (clock_of c w))]"
  note r = queue_readyD [OF queue_ready_ticked [OF w]]
  have sc: "scripts_in view (ticked c w) (ClaimJob (scripts q)) = Some claimJobScript"
    using r(3) by (simp add: scripts_loaded_def)
  have run: "in_script t claimJobScript ks args (db view (ticked c w)) = (Inr RNull, db view (ticked c w))" for t
    using claim_script_run [OF queue_ready_ticked [OF w] refl n clock_second] e
    by (simp add: ks_def args_def)
  note null = EvalSha_null [OF r(1) sc run]
  show thesis
  proof (rule that)
    show "run_state (claimFromQueue q (pending_key (Prefix (qopts q)) l)) w =
       (Inl (Wrapf ''claim script blew up'' (Wrapf ''redis evalsha'' ErrNotFound)),
        failed c (EVALSHA (ClaimJob (scripts q)) ks args) (ticked c w))"
      using null(1) by (simp add: claimFromQueue_def q_client run_simps ks_def args_def Let_def)
    show "db view (failed c (EVALSHA (ClaimJob (scripts q)) ks args) (ticked c w)) = db view w"
      using null(2) by simp
    show "failures (failed c (EVALSHA (ClaimJob (scripts q)) ks args) (ticked c w)) = failures w + 1"
      by (simp add: failed_def run_recordFailure missed_def ticked_def now_def run_simps split: prod.split)
    show "up (srv (failed c (EVALSHA (ClaimJob (scripts q)) ks args) (ticked c w)))"
      by (rule up_failed) (use r(1) in \<open>simp add: ready_def\<close>)
    show "scripts_in view (failed c (EVALSHA (ClaimJob (scripts q)) ks args) (ticked c w)) = scripts_in view w"
      using null(3) by simp
    show "cstate (failed c (EVALSHA (ClaimJob (scripts q)) ks args) (ticked c w)) =
        (if CircuitBreakerThreshold (copts c) \<le> sint (failures w + 1) then circuitOpen else cstate w)"
      by (simp add: failed_def run_recordFailure missed_def ticked_def now_def run_simps split: prod.split)
  qed
qed

lemma GetJob_clobbered:
  assumes w: "queue_ready view up q w" and k: "db view w (jobKey q i) = Some (VStr (format_int s), Some e)"
  obtains m err w' where "run_state (GetJob q i) w = (Inl (Wrapf m err), w')" "queue_ready view up q w'"
    "db view w' = db view w"
proof -
  note r = queue_readyD [OF w]
  obtain w' where w': "ready up w'" "db view w' = db view w" "scripts_in view w' = scripts_in view w"
    "run_state (Get c (jobKey q i)) w = (Inr (format_int s), w') \<or>
     run_state (Get c (jobKey q i)) w = (Inl (Wrapf ''redis get'' ErrNotFound), w')"
    using Get_volatile [OF r(1) k] by blast
  obtain err where "Unmarshal (format_int s) = Inl err" using Unmarshal_number by blast
  then have "\<exists>m err. run_state (GetJob q i) w = (Inl (Wrapf m err), w')"
    using w'(4) by (auto simp: GetJob_def q_client run_simps)
  moreover have "queue_ready view up q w'" using w'(1-3) r(2,3) by (simp add: queue_ready_def)
  ultimately show thesis using that w'(2) by blast
qed

lemma claim_nonempty:
  assumes w: "queue_ready view up q w" and n: "0 < whole_seconds (LockTTL (qopts q))"
    and e: "pend (queue_view q (db view w)) l \<noteq> []"
  obtains m err w' where
    "run_state (claimFromQueue q (pending_key (Prefix (qopts q)) l)) w = (Inl (Wrapf m err), w')"
    "queue_ready view up q w'"
    "queue_view q (db view w') = a_claim l (time_Unix (clock_of c w)) (queue_view q (db view w))"
    "\<exists>ex. db view w' (jobKey q (last (pend (queue_view q (db view w)) l))) =
       Some (VStr (format_int (time_Unix (clock_of c w))), Some ex)"
proof -
  define i where "i = last (pend (queue_view q (db view w)) l)"
  define ks where "ks = [pending_key (Prefix (qopts q)) l, processingKey q, Prefix (qopts q) @ '':job:'', timestampsKey q]"
  define args where "args = [format_int (whole_seconds (LockTTL (qopts q))), format_int (time_Unix (clock_of c w))]"
  define cmd where "cmd = EVALSHA (ClaimJob (scripts q)) ks args"
  note t = queue_ready_ticked [OF w]
  note r = queue_readyD [OF t]
  have sc: "scripts_in view (ticked c w) (ClaimJob (scripts q)) = Some claimJobScript"
    using r(3) by (simp add: scripts_loaded_def)
  have script: "in_script t claimJobScript ks args (db view (ticked c w)) =
      (Inr (RBulk i), claim_db q l (time_Unix (clock_of c w)) (t + 1000 * whole_seconds (LockTTL (qopts q))) (db view w))" for t
    using claim_script_run [OF t refl n clock_second] e by (simp add: ks_def args_def i_def)
  obtain ex where d: "db view (sent c cmd (ticked c w)) = claim_db q l (time_Unix (clock_of c w)) ex (db view w)"
    using EvalSha_db [OF r(1) sc, of ks args] unfolding script cmd_def by auto
  have run: "run_state (EvalSha c (ClaimJob (scripts q)) ks args) (ticked c w) = (Inr (RBulk i), sent c cmd (ticked c w))"
    unfolding cmd_def by (rule EvalSha_run [OF r(1) sc]) (simp only: script fst_conv goredis.simps)
  have s: "queue_ready view up q (sent c cmd (ticked c w))"
    unfolding cmd_def by (rule queue_ready_script [OF t sc])
      (use d r(2) claim_db_wf in \<open>simp add: cmd_def\<close>)
  obtain m err w' where g: "run_state (GetJob q i) (sent c cmd (ticked c w)) = (Inl (Wrapf m err), w')"
    "queue_ready view up q w'" "db view w' = db view (sent c cmd (ticked c w))"
    using GetJob_clobbered [OF s, of i] d claim_db_lock i_def by metis
  show thesis
  proof (rule that [OF _ g(2)])
    show "run_state (claimFromQueue q (pending_key (Prefix (qopts q)) l)) w = (Inl (Wrapf m err), w')"
      using run g(1) by (simp add: claimFromQueue_def q_client run_simps Let_def getAndUpdateJob_def
          ks_def args_def)
    show "\<exists>ex. db view w' (jobKey q (last (pend (queue_view q (db view w)) l))) =
       Some (VStr (format_int (time_Unix (clock_of c w))), Some ex)"
      using claim_db_lock by (simp only: g(3) d) blast
  qed (simp add: g(3) d claim_db_view)
qed

text \<open>\<open>Claim\<close> ends at its first queue: both outcomes there are wrapped errors, which differ from the
  sentinel \<open>redis.ErrNotFound\<close> that the loop compares with.\<close>

lemma Claim_first_queue:
  assumes "run_state (claimFromQueue q (pending_key (Prefix (qopts q)) High)) w = (Inl (Wrapf m err), w')"
  shows "run_state (Claim q timeout) w = (Inl (Wrapf m err), w')"
  using assms by (simp add: Claim_def PriorityQueues_levels run_simps ErrNotFound_def)

subsection \<open>Duplicates\<close>

lemma Enqueue_unique_run:
  assumes w: "queue_ready view up q w" and j: "Validate (uuid_ok (cenv c)) j = None" "job_wf j" "UniqueKey j \<noteq> []"
    and n: "whole_seconds (DeduplicationTTL (qopts q)) = n" "0 < n"
  obtains t w' where "stime (srv w) \<le> t" "queue_ready view up q w'"
    "run_state (Enqueue q j) w =
       (if lookup t (db view w) (dedupKey q (UniqueKey j)) = None then Inr () else Inl ErrDuplicateJob, w')"
    "queue_view q (db view w') =
       (if lookup t (db view w) (dedupKey q (UniqueKey j)) = None
        then a_enqueue (level_of (Priority j)) (ID j) (job_text j) (queue_view q (db view w))
        else queue_view q (db view w))"
    "db view w' (dedupKey q (UniqueKey j)) =
       (if lookup t (db view w) (dedupKey q (UniqueKey j)) = None
        then Some (VStr ''1'', Some (t + 1000 * n)) else db view w (dedupKey q (UniqueKey j)))"
    "t \<le> stime (srv w')"
proof -
  obtain t w1 where w1: "stime (srv w) \<le> t" "queue_ready view up q w1"
    "run_state (checkDeduplication q (UniqueKey j)) w =
       (Inr (lookup t (db view w) (dedupKey q (UniqueKey j)) \<noteq> None), w1)"
    "db view w1 = (if lookup t (db view w) (dedupKey q (UniqueKey j)) = None
       then put_str (dedupKey q (UniqueKey j)) ''1'' (Some (t + 1000 * n)) (db view w) else db view w)"
    "stime (srv w1) = t"
    using checkDeduplication_run [OF w n] by blast
  show thesis
  proof (cases "lookup t (db view w) (dedupKey q (UniqueKey j)) = None")
    case False
    then have "run_state (Enqueue q j) w = (Inl ErrDuplicateJob, w1)"
      using j w1(3) by (simp add: Enqueue_def q_client run_simps)
    then show thesis using that [OF w1(1,2)] w1(4,5) False by simp
  next
    case True
    define d where "d = job_text j"
    obtain w' where "queue_ready view up q w'"
      "run_state (Set (qclient q) (jobKey q (ID j)) d 0) w1 = (Inr (), sent c (SET (jobKey q (ID j)) d 0) w1)"
      "run_state (LPush (qclient q) (pending_key (Prefix (qopts q)) (level_of (Priority j))) [ID j])
         (sent c (SET (jobKey q (ID j)) d 0) w1) = (Inr (), w')"
      "queue_view q (db view w') = a_enqueue (level_of (Priority j)) (ID j) d (queue_view q (db view w1))"
      "\<And>u. db view w' (dedupKey q u) = db view w1 (dedupKey q u)" "stime (srv w1) \<le> stime (srv w')"
      using store_and_push [OF w1(2), of "ID j" d "level_of (Priority j)"] by metis
    moreover from this have "run_state (Enqueue q j) w = (Inr (), w')"
      using j w1(3) True by (simp add: Enqueue_def q_client run_simps Marshal_job_text d_def [symmetric]
          GetPriorityQueueKey_level)
    ultimately show thesis using that [OF w1(1), of w'] w1(4,5) True by (simp add: d_def)
  qed
qed

subsection \<open>Reading and housekeeping\<close>

lemma GetStats_run:
  assumes w: "queue_ready view up q w"
  obtains w' where "queue_ready view up q w'" "db view w' = db view w"
    "run_state (GetStats q) w = (let a = queue_view q (db view w) in
       Inr \<lparr>PendingHigh = int (length (pend a High)), PendingNormal = int (length (pend a Normal)),
         PendingLow = int (length (pend a Low)), Processing = int (length (running a)),
         Dead = int (length (dead a))\<rparr>, w')"
proof -
  have step: "queue_ready view up q (sent c (LLEN k) w) \<and> db view (sent c (LLEN k) w) = db view w"
    if "queue_ready view up q w" "is_list (db view w) k" for w k
    using that queue_readyD(1,2) [OF that(1)] by (auto intro: queue_ready_sent)
  let ?k = "pending_key (Prefix (qopts q))"
  define w1 where "w1 = sent c (LLEN (?k High)) w"
  define w2 where "w2 = sent c (LLEN (?k Normal)) w1"
  define w3 where "w3 = sent c (LLEN (?k Low)) w2"
  define w4 where "w4 = sent c (LLEN (processingKey q)) w3"
  define w5 where "w5 = sent c (LLEN (dlqKey q)) w4"
  note r = queue_readyD [OF w]
  have w1: "queue_ready view up q w1" "db view w1 = db view w"
    using step [OF w, of "?k High"] r(4) by (simp_all add: w1_def)
  have w2: "queue_ready view up q w2" "db view w2 = db view w"
    using step [OF w1(1), of "?k Normal"] r(4) w1 by (simp_all add: w2_def)
  have w3: "queue_ready view up q w3" "db view w3 = db view w"
    using step [OF w2(1), of "?k Low"] r(4) w2 by (simp_all add: w3_def)
  have w4: "queue_ready view up q w4" "db view w4 = db view w"
    using step [OF w3(1), of "processingKey q"] r(5) w3 by (simp_all add: w4_def)
  have w5: "queue_ready view up q w5" "db view w5 = db view w"
    using step [OF w4(1), of "dlqKey q"] r(6) w4 by (simp_all add: w5_def)
  note rs = queue_readyD(1) [OF w] queue_readyD(1) [OF w1(1)] queue_readyD(1) [OF w2(1)]
    queue_readyD(1) [OF w3(1)] queue_readyD(1) [OF w4(1)]
  show thesis
    by (rule that [OF w5]) (simp add: GetStats_def q_client run_simps PriorityQueues_levels Let_def rs
        w1_def [symmetric] w2_def [symmetric] w3_def [symmetric] w4_def [symmetric] w5_def [symmetric]
        w1(2) w2(2) w3(2) w4(2) r(4,5,6))
qed

lemma lrem_pending:
  assumes "queue_ready view up q w"
  shows "run_state (LRem c (pending_key (Prefix (qopts q)) l) 1 i) w =
      (Inr (), sent c (LREM (pending_key (Prefix (qopts q)) l) 1 i) w)"
    and "queue_ready view up q (sent c (LREM (pending_key (Prefix (qopts q)) l) 1 i) w)"
    and "db view (sent c (LREM (pending_key (Prefix (qopts q)) l) 1 i) w) =
      put_list (pending_key (Prefix (qopts q)) l) (remove1 i (list_of (db view w) (pending_key (Prefix (qopts q)) l)))
        None (db view w)"
  using assms queue_readyD(1,2) [OF assms] queue_readyD(4) [OF assms, of l]
  by (auto simp: run_simps intro: queue_ready_sent)

lemma DeleteJob_run:
  assumes w: "queue_ready view up q w"
  obtains w' where "queue_ready view up q w'" "run_state (DeleteJob q i) w = (Inr (), w')" "db view w' (jobKey q i) = None"
    "queue_view q (db view w') =
      (let a = queue_view q (db view w) in
       a\<lparr>pend := (\<lambda>l. remove1 i (pend a l)), stored := (stored a)(i := None)\<rparr>)"
proof -
  let ?cmd = "\<lambda>l. LREM (pending_key (Prefix (qopts q)) l) 1 i"
  define w1 where "w1 = sent c (?cmd High) w"
  define w2 where "w2 = sent c (?cmd Normal) w1"
  define w3 where "w3 = sent c (?cmd Low) w2"
  define w4 where "w4 = sent c (DEL [jobKey q i]) w3"
  note a1 = lrem_pending [OF w, of High i, folded w1_def]
  note a2 = lrem_pending [OF a1(2), of Normal i, folded w2_def]
  note a3 = lrem_pending [OF a2(2), of Low i, folded w3_def]
  have d: "run_state (Del c [jobKey q i]) w3 = (Inr (), w4)" "db view w4 = rm (jobKey q i) (db view w3)"
    using queue_readyD(1) [OF a3(2)] by (simp_all add: w4_def run_simps)
  have r4: "queue_ready view up q w4"
    unfolding w4_def by (rule queue_ready_sent [OF a3(2)])
      (use d(2) queue_readyD(2) [OF a3(2)] in \<open>simp_all add: w4_def\<close>)
  have run: "run_state (DeleteJob q i) w = (Inr (), w4)"
    using a1(1) a2(1) a3(1) d(1) by (simp add: DeleteJob_def q_client run_simps PriorityQueues_levels)
  have "queue_view q (db view w4) =
      (let a = queue_view q (db view w) in
       a\<lparr>pend := ((pend a)(High := remove1 i (pend a High)))(Normal := remove1 i (pend a Normal),
         Low := remove1 i (pend a Low)), stored := (stored a)(i := None)\<rparr>)"
    by (simp add: d(2) a1(3) a2(3) a3(3) key_simps Let_def)
  also have "\<dots> = (let a = queue_view q (db view w) in
       a\<lparr>pend := (\<lambda>l. remove1 i (pend a l)), stored := (stored a)(i := None)\<rparr>)"
  proof -
    have "(f(High := remove1 i (f High)))(Normal := remove1 i (f Normal), Low := remove1 i (f Low)) =
        (\<lambda>l. remove1 i (f l))" for f :: "level \<Rightarrow> string list"
      by (rule ext) (metis (full_types) fun_upd_apply level.exhaust)
    then show ?thesis by (simp add: Let_def)
  qed
  finally have view: "queue_view q (db view w4) = (let a = queue_view q (db view w) in
       a\<lparr>pend := (\<lambda>l. remove1 i (pend a l)), stored := (stored a)(i := None)\<rparr>)" .
  have "db view w4 (jobKey q i) = None" by (simp add: d(2) rm_def)
  then show thesis using view by (rule that [OF r4 run])
qed

subsection \<open>Dead letters\<close>

lemma RetryDLQJob_run:
  assumes w: "queue_ready view up q w" and j: "stored (queue_view q (db view w)) i = Some (job_text j)"
    "job_wf j" "ID j = i"
  defines "j' \<equiv> (stored_form j)\<lparr>Status := StatusPending, Attempts := 0, LastError := []\<rparr>"
  obtains w' where "queue_ready view up q w'" "run_state (RetryDLQJob q i) w = (Inr (), w')"
    "queue_view q (db view w') =
      (let a = queue_view q (db view w) in
       a_enqueue (level_of (Priority j)) i (job_text j') (a\<lparr>dead := remove1 i (dead a)\<rparr>))"
proof -
  have wf: "job_wf j'" using job_wf_stored_form [OF j(2)] by (simp add: job_wf_def j'_def status_known_def int64_range_def)
  have id: "ID j' = i" "Priority j' = Priority j" by (simp_all add: j'_def j(3))
  define w1 where "w1 = sent c (GET (jobKey q i)) w"
  define w2 where "w2 = sent c (SET (jobKey q i) (job_text j') 0) w1"
  define w3 where "w3 = sent c (LREM (dlqKey q) 1 i) w2"
  note g = GetJob_run [OF w j(1), folded w1_def]
  note st = set_job [OF g(2), of i "job_text j'", folded w2_def]
  have l: "run_state (LRem (qclient q) (dlqKey q) 1 i) w2 = (Inr (), w3)"
      "db view w3 = put_list (dlqKey q) (remove1 i (list_of (db view w2) (dlqKey q))) None (db view w2)"
    using queue_readyD(1,6) [OF st(2)] by (simp_all add: w3_def run_simps q_client)
  have r3: "queue_ready view up q w3"
    unfolding w3_def by (rule queue_ready_sent [OF st(2)])
      (use l(2) queue_readyD(2) [OF st(2)] in \<open>simp_all add: w3_def\<close>)
  note p = push_pending [OF r3, of "level_of (Priority j)" i]
  show thesis
  proof (rule that [OF p(2)])
    show "run_state (RetryDLQJob q i) w =
        (Inr (), sent c (LPUSH (pending_key (Prefix (qopts q)) (level_of (Priority j))) [i]) w3)"
      using g(1) st(1) l(1) p(1) Marshal_job_text [OF wf] id j(3)
      by (simp add: RetryDLQJob_def run_simps Unmarshal_job [OF j(2)] j'_def [symmetric] Let_def
          GetPriorityQueueKey_level)
  qed (simp add: p(3) l(2) st(3) g(3) a_enqueue_def Let_def key_simps)
qed

text \<open>The jobs that can be read back among a list of identifiers.\<close>

lemma get_jobs_run:
  assumes "queue_ready view up q w"
    and "\<forall>i \<in> set is. db view w (jobKey q i) = None \<or> stored (queue_view q (db view w)) i \<noteq> None"
  shows "\<exists>w'. queue_ready view up q w' \<and> db view w' = db view w \<and>
    run_state (get_jobs q is) w = (List.map_filter (stored_job (queue_view q (db view w))) is, w')"
  using assms
proof (induction "is" arbitrary: w)
  case (Cons i ids)
  have "\<exists>w1. queue_ready view up q w1 \<and> db view w1 = db view w \<and>
      (case stored_job (queue_view q (db view w)) i of
         None \<Rightarrow> \<exists>e. run_state (GetJob q i) w = (Inl e, w1)
       | Some j \<Rightarrow> run_state (GetJob q i) w = (Inr j, w1))"
  proof (cases "stored (queue_view q (db view w)) i")
    case None
    then have "db view w (jobKey q i) = None" using Cons.prems(2) by auto
    then show ?thesis using GetJob_missing [OF Cons.prems(1), of i] None by (auto simp: stored_job_def)
  next
    case (Some d)
    show ?thesis using GetJob_run [OF Cons.prems(1) Some] Some
      by (intro exI [of _ "sent c (GET (jobKey q i)) w"]) (auto simp: stored_job_def split: sum.splits)
  qed
  then obtain w1 where w1: "queue_ready view up q w1" "db view w1 = db view w"
    "case stored_job (queue_view q (db view w)) i of
         None \<Rightarrow> \<exists>e. run_state (GetJob q i) w = (Inl e, w1)
       | Some j \<Rightarrow> run_state (GetJob q i) w = (Inr j, w1)" by blast
  obtain w2 where w2: "queue_ready view up q w2" "db view w2 = db view w"
    "run_state (get_jobs q ids) w1 = (List.map_filter (stored_job (queue_view q (db view w))) ids, w2)"
    using Cons.IH [OF w1(1)] Cons.prems(2) w1(2) by auto
  then show ?case using w1(3)
    by (auto simp: run_simps List.map_filter_simps split: option.splits)
qed (simp add: List.map_filter_simps)

lemma ListDLQ_run:
  assumes w: "queue_ready view up q w"
    and "\<forall>i \<in> set (dead (queue_view q (db view w))).
      db view w (jobKey q i) = None \<or> stored (queue_view q (db view w)) i \<noteq> None"
  obtains w' where "queue_ready view up q w'" "db view w' = db view w"
    "run_state (ListDLQ q off cnt) w =
       (Inr (List.map_filter (stored_job (queue_view q (db view w)))
          (lrange off (i64 (off + cnt - 1)) (dead (queue_view q (db view w))))), w')"
proof -
  note r = queue_readyD [OF w]
  let ?b = "i64 (off + cnt - 1)"
  define w1 where "w1 = sent c (LRANGE (dlqKey q) off ?b) w"
  have w1: "queue_ready view up q w1" "db view w1 = db view w"
    using queue_ready_sent [OF w] r(1,2,6) by (simp_all add: w1_def)
  have "set (lrange off ?b xs) \<subseteq> set xs" for xs :: "string list"
    by (auto simp: lrange_def Let_def split: if_splits dest!: in_set_takeD in_set_dropD)
  then have "\<forall>i \<in> set (lrange off ?b (list_of (db view w) (dlqKey q))).
      db view w1 (jobKey q i) = None \<or> stored (queue_view q (db view w1)) i \<noteq> None"
    using assms(2) w1(2) by auto
  from get_jobs_run [OF w1(1) this] show thesis using that r(1,6) w1
    by (auto simp: ListDLQ_def q_client run_simps w1_def [symmetric])
qed

end

text \<open>A new queue has its five scripts in the server's cache.\<close>

context redis_server begin

lemma queue_New_run:
  assumes "ready up w"
  shows "\<exists>q w'. run_state (queue_New c opts) w = (Inr q, w') \<and> qclient q = c \<and> qopts q = opts \<and>
    ready up w' \<and> db view w' = db view w \<and> scripts_loaded (scripts_in view w') q"
proof -
  note d = inj_eq [OF sha_inj]
  show ?thesis using assms by (simp add: queue_New_def run_simps scripts_loaded_def d)
qed

end

end
