(* ===== verification/Queue_Theorems.thy ===== *)
theory Queue_Theorems
  imports Queue_Correct "HOL-Library.Multiset"
begin

text \<open>
  The properties of the job queue. The hypothesis \<open>queue_on_redis\<close> names the contract of the
  server and of the other third-party code; \<open>queue_ready\<close> says that the link is up, the breaker not
  open, the scripts loaded and the queue's keys of their types.
\<close>

section \<open>A queue in memory\<close>

definition mem_queue :: "memory queue" where
  "mem_queue = \<lparr>qclient = mem_client, qopts = queue_DefaultOptions,
     scripts = \<lparr>ClaimJob = ''c1'', AckJob_sha = ''a1'', NackJob_sha = ''a2'', RecoverStuck = ''b1'',
       DeduplicationCheck = ''d1''\<rparr>\<rparr>"

definition mem_cache :: "string \<Rightarrow> script option" where
  "mem_cache = [''c1'' \<mapsto> claimJobScript, ''a1'' \<mapsto> ackJobScript, ''a2'' \<mapsto> nackJobScript,
     ''b1'' \<mapsto> recoverStuckJobsScript, ''d1'' \<mapsto> deduplicationCheckScript]"

definition mem_with :: "keyspace \<Rightarrow> memory world" where
  "mem_with D = mem_world\<lparr>srv := mem_start\<lparr>mem := \<lparr>keyspace = D, cached = mem_cache\<rparr>\<rparr>\<rparr>"

interpretation mq: queue_on_redis mem_client mem ms alive sha_text "''0.5''" mem_queue
  by unfold_locales (simp add: mem_queue_def)

lemma mem_queue_contract: "queue_on_redis mem_client mem ms alive sha_text ''0.5'' mem_queue"
  by (rule mq.queue_on_redis_axioms)

lemma mem_with_db [simp]: "db mem (mem_with D) = D"
  by (simp add: mem_with_def db_def)

lemma mem_with_ready: "queue_wf mem_queue D \<Longrightarrow> queue_ready mem alive mem_queue (mem_with D)"
  by (simp add: queue_ready_def ready_def IsHealthy_def scripts_loaded_def scripts_in_def mem_with_def
      mem_world_def mem_start_def mem_queue_def mem_cache_def db_def)

definition empty_db :: keyspace where "empty_db = (\<lambda>_. None)"

lemma empty_queue [simp]:
  "queue_wf q empty_db" "pend (queue_view q empty_db) l = []" "running (queue_view q empty_db) = []"
  "dead (queue_view q empty_db) = []" "stored (queue_view q empty_db) i = None" "str_of empty_db k = None"
  "list_of empty_db k = []"
  by (simp_all add: empty_db_def queue_wf_def queue_view_def content_defs)

text \<open>A keyspace with a well-formed job in processing, and one with a job pending.\<close>

definition mem_job :: Job where "mem_job = sample_job\<lparr>UniqueKey := []\<rparr>"

lemma mem_job_ok [simp]: "job_wf mem_job" "Validate (uuid_ok (cenv mem_client)) mem_job = None" "UniqueKey mem_job = []"
  using sample_job_wf
  by (simp_all add: mem_job_def job_wf_def Validate_None_iff mem_client_def mem_env_def sample_job_def
      NewPriorityJob_def NewJob_def Let_def uuid_shape_def uuid_char_def)

definition busy_db :: keyspace where
  "busy_db = put_list (processingKey mem_queue) [ID mem_job] None empty_db"

definition pending_db :: keyspace where
  "pending_db = put_list (pending_key (Prefix (qopts mem_queue)) High) [ID mem_job] None empty_db"

lemma busy_queue [simp]:
  "queue_wf mem_queue busy_db" "running (queue_view mem_queue busy_db) = [ID mem_job]"
  "stored (queue_view mem_queue busy_db) i = None"
  by (simp_all add: busy_db_def key_simps)

lemma pending_queue [simp]:
  "queue_wf mem_queue pending_db" "pend (queue_view mem_queue pending_db) High = [ID mem_job]"
  by (simp_all add: pending_db_def)

section \<open>Functional correctness\<close>



text \<open>C16. Within the deduplication window a second job with the same unique key is refused: if a job
  with a unique key was enqueued, any other valid job with that key gets \<open>ErrDuplicateJob\<close> as long as
  the server's clock has not advanced by the window since, and the queue is left as it was.\<close>

theorem Enqueue_rejects_duplicates:
  assumes q: "queue_on_redis c view stime up sha rnd q" and w: "queue_ready view up q w"
    and n: "whole_seconds (DeduplicationTTL (qopts q)) = n" "0 < n"
    and j1: "Validate (uuid_ok (cenv c)) j1 = None" "job_wf j1" "UniqueKey j1 \<noteq> []"
    and j2: "Validate (uuid_ok (cenv c)) j2 = None" "job_wf j2" "UniqueKey j2 = UniqueKey j1"
    and r1: "run_state (Enqueue q j1) w = (Inr (), w1)"
    and r2: "run_state (Enqueue q j2) w1 = (r, w2)" "stime (srv w2) < stime (srv w) + 1000 * n"
  shows "r = Inl ErrDuplicateJob \<and> queue_view q (db view w2) = queue_view q (db view w1)"
proof -
  have j2': "UniqueKey j2 \<noteq> []" using j1(3) j2(3) by simp
  obtain t1 where t1: "stime (srv w) \<le> t1" "queue_ready view up q w1"
    "db view w1 (dedupKey q (UniqueKey j1)) = Some (VStr ''1'', Some (t1 + 1000 * n))"
    by (rule queue_on_redis.Enqueue_unique_run [OF q w j1 n]) (auto simp: r1 split: if_splits)
  show ?thesis
  proof (rule queue_on_redis.Enqueue_unique_run [OF q t1(2) j2(1,2) j2' n])
    fix t2 w'
    assume a: "run_state (Enqueue q j2) w1 =
        (if lookup t2 (db view w1) (dedupKey q (UniqueKey j2)) = None then Inr () else Inl ErrDuplicateJob, w')"
      "queue_view q (db view w') =
        (if lookup t2 (db view w1) (dedupKey q (UniqueKey j2)) = None
         then a_enqueue (level_of (Priority j2)) (ID j2) (job_text j2) (queue_view q (db view w1))
         else queue_view q (db view w1))" "t2 \<le> stime (srv w')"
    then have "lookup t2 (db view w1) (dedupKey q (UniqueKey j1)) \<noteq> None"
      using t1 r2 by (simp add: lookup_def)
    then show ?thesis using a r2(1) j2(3) by simp
  qed
qed

definition twin_job :: Job where "twin_job = sample_job\<lparr>ID := nth_uuid 7\<rparr>"

lemma sample_jobs_valid [simp]:
  "Validate (uuid_ok (cenv mem_client)) sample_job = None" "Validate (uuid_ok (cenv mem_client)) twin_job = None"
  "job_wf twin_job" "UniqueKey sample_job = ''u1''" "UniqueKey twin_job = ''u1''"
  using sample_job_wf uuid_shape_nth [of 7] nth_uuid_text [of 7]
  by (simp_all add: twin_job_def job_wf_def Validate_None_iff mem_client_def mem_env_def sample_job_def
      NewPriorityJob_def NewJob_def Let_def uuid_shape_def uuid_char_def)

lemma mem_seconds [simp]:
  "whole_seconds (DeduplicationTTL (qopts mem_queue)) = 86400" "whole_seconds (LockTTL (qopts mem_queue)) = 600"
  using whole_seconds_exact [of 86400] whole_seconds_exact [of 600]
  by (simp_all add: mem_queue_def queue_DefaultOptions_def)

text \<open>How far the clock in memory moves in a run.\<close>

definition slow :: "int \<Rightarrow> (memory world, 'a) state \<Rightarrow> bool" where
  "slow k m \<longleftrightarrow> (\<forall>w. ms (srv (snd (run_state m w))) \<le> ms (srv w) + k)"

lemma slow_call: "slow 2 (call mem_client nil_ok op conv cmd)"
  by (auto simp: slow_def run_call run_checkCircuit run_recordFailure mem_client_def mem_env_def
      split: prod.splits option.splits sum.splits if_splits)

lemma slow_ret: "slow 0 (ret x)"
  by (simp add: slow_def)

lemma slow_or_return: "slow a m \<Longrightarrow> (\<And>x. slow b (k x)) \<Longrightarrow> 0 \<le> b \<Longrightarrow> slow (a + b) (or_return m f k)"
  unfolding slow_def run_or_return
  by (simp add: split: prod.split sum.split) (smt (verit) snd_conv)

lemma slow_bind: "slow a m \<Longrightarrow> (\<And>x. slow b (k x)) \<Longrightarrow> slow (a + b) (m \<bind> k)"
  unfolding slow_def by (simp split: prod.split) (smt (verit) snd_conv)

lemma slow_mono: "slow a m \<Longrightarrow> a \<le> b \<Longrightarrow> slow b m"
  unfolding slow_def by (smt (verit))

lemma slow_Enqueue: "slow 8 (Enqueue mem_queue j)"
proof -
  let ?c = "qclient mem_queue"
  have c: "?c = mem_client" by (simp add: mem_queue_def)
  have call: "slow 2 (Set ?c k v d)" "slow 2 (LPush ?c k vs)" "slow 2 (Del ?c ks)" "slow 2 (EvalSha ?c h ks vs)"
    for k v d vs ks h by (simp_all add: c wrapper_defs slow_call)
  have push: "slow (2 + 2) (LPush ?c k vs \<bind> (\<lambda>r. case r of
      Inl err \<Rightarrow> Del ?c ds \<bind> (\<lambda>_. ret (Inl (f err))) | Inr _ \<Rightarrow> ret (Inr ())))"
    for k vs ds and f :: "goerror \<Rightarrow> goerror"
  proof (rule slow_bind [OF call(2)])
    show "slow 2 (case r of Inl err \<Rightarrow> Del ?c ds \<bind> (\<lambda>_. ret (Inl (f err))) | Inr _ \<Rightarrow> ret (Inr ()))"
      for r :: "goerror + unit"
      using slow_bind [OF call(3) slow_ret] by (cases r) (auto intro: slow_mono [OF slow_ret])
  qed
  have dedup: "slow 2 (if u \<noteq> [] then or_return (checkDeduplication mem_queue u) g
      (\<lambda>b. ret (if b then Inl e else Inr ())) else ret (Inr ()))" for u e and g :: "goerror \<Rightarrow> goerror"
  proof -
    have "slow (2 + 0) (checkDeduplication mem_queue u)"
      unfolding checkDeduplication_def Let_def by (intro slow_or_return call slow_ret) simp
    then have "slow (2 + 0 + 0) (or_return (checkDeduplication mem_queue u) g (\<lambda>b. ret (if b then Inl e else Inr ())))"
      by (intro slow_or_return slow_ret) simp_all
    then show ?thesis by (auto intro: slow_mono [OF slow_ret])
  qed
  show ?thesis
  proof (cases "Validate (uuid_ok (cenv ?c)) j")
    case None
    have "slow (2 + (0 + (2 + (2 + 2)))) (Enqueue mem_queue j)"
      unfolding Enqueue_def None option.case
      by (intro slow_or_return push call(1) dedup slow_ret) simp_all
    then show ?thesis by simp
  qed (simp add: Enqueue_def slow_mono [OF slow_ret])
qed

theorem Enqueue_rejects_duplicates_witness:
  "\<exists>w1 w2. run_state (Enqueue mem_queue sample_job) (mem_with empty_db) = (Inr (), w1) \<and>
     run_state (Enqueue mem_queue twin_job) w1 = (Inl ErrDuplicateJob, w2)"
proof -
  let ?w = "mem_with empty_db"
  have "lookup t empty_db k = None" for t k by (simp add: empty_db_def lookup_def)
  then obtain w1 where w1: "run_state (Enqueue mem_queue sample_job) ?w = (Inr (), w1)"
    by (rule_tac mq.Enqueue_unique_run [OF mem_with_ready [OF empty_queue(1)] sample_jobs_valid(1) sample_job_wf _
        mem_seconds(1)]) auto
  obtain r w2 where w2: "run_state (Enqueue mem_queue twin_job) w1 = (r, w2)" by (rule prod.exhaust)
  have "ms (srv w2) \<le> ms (srv ?w) + 8 + 8"
    using slow_Enqueue [unfolded slow_def, rule_format, of sample_job ?w]
      slow_Enqueue [unfolded slow_def, rule_format, of twin_job w1] w1 w2 by simp
  then show ?thesis
    using Enqueue_rejects_duplicates [OF mem_queue_contract mem_with_ready [OF empty_queue(1)] mem_seconds(1) _
        sample_jobs_valid(1) sample_job_wf _ sample_jobs_valid(2,3) _ w1 w2] w1 w2 by simp
qed

text \<open>C6. Acknowledging takes exactly one occurrence of the identifier out of processing, with its start
  time, and leaves pending jobs, dead letters and stored jobs alone; for a job that is not in
  processing it reports \<open>ErrJobNotFound\<close> and changes nothing.\<close>

theorem Ack_finishes:
  assumes "queue_on_redis c view stime up sha rnd q" "queue_ready view up q w"
    and "stored (queue_view q (db view w)) (i @ '':lock'') = None"
  shows "\<exists>w'. queue_ready view up q w' \<and>
    (if i \<in> set (running (queue_view q (db view w)))
     then run_state (Ack q i) w = (Inr (), w') \<and> queue_view q (db view w') = a_ack i (queue_view q (db view w))
     else run_state (Ack q i) w = (Inl ErrJobNotFound, w') \<and> db view w' = db view w)"
  by (rule queue_on_redis.Ack_run [OF assms(1,2), of i]) (use assms(3) queue_view_finish in \<open>force split: if_splits\<close>)

theorem Ack_finishes_witness:
  "\<exists>w'. run_state (Ack mem_queue (ID mem_job)) (mem_with busy_db) = (Inr (), w') \<and>
     running (queue_view mem_queue (db mem w')) = []"
  using Ack_finishes [OF mem_queue_contract mem_with_ready [OF busy_queue(1)], of "ID mem_job"]
  by (auto simp: a_ack_def simp del: queue_view_sel)

text \<open>C5. A negative acknowledgement of a job in processing stores it with one more attempt and moves
  it, exactly once: back to its priority list while a retry was asked for and attempts remain, to the
  dead letters otherwise. For a job that is not in processing no list changes and the result is
  \<open>ErrJobNotFound\<close> (its stored text is overwritten all the same).\<close>

theorem Nack_moves:
  assumes q: "queue_on_redis c view stime up sha rnd q" and w: "queue_ready view up q w"
    and j: "job_wf j" "valid_utf8 e" and lock: "stored (queue_view q (db view w)) (ID j @ '':lock'') = None"
  shows "\<exists>j' w'. queue_ready view up q w' \<and> job_wf j' \<and> ID j' = ID j \<and> Attempts j' = i64 (Attempts j + 1) \<and>
    LastError j' = e \<and> Status j' = (if r \<and> i64 (Attempts j + 1) < MaxRetries j then StatusFailed else StatusDead) \<and>
    (let a = queue_view q (db view w); retry = r \<and> i64 (Attempts j + 1) < MaxRetries j in
     if ID j \<in> set (running a) then
       run_state (Nack q j e r) w = ((j', Inr ()), w') \<and>
       queue_view q (db view w') =
         (if retry then a_retry (level_of (Priority j)) (ID j) (job_text j') a else a_bury (ID j) (job_text j') a)
     else run_state (Nack q j e r) w = ((j', Inl ErrJobNotFound), w') \<and>
       queue_view q (db view w') = a\<lparr>stored := (stored a)(ID j \<mapsto> job_text j')\<rparr>)"
proof (rule queue_on_redis.Nack_run [OF q w j lock, of r])
  fix t t' w'
  assume a: "queue_ready view up q w'" "job_wf (nacked t t' e r j)"
    "run_state (Nack q j e r) w =
       ((nacked t t' e r j, if ID j \<in> set (running (queue_view q (db view w))) then Inr () else Inl ErrJobNotFound), w')"
    "queue_view q (db view w') =
       (let a = queue_view q (db view w); d = job_text (nacked t t' e r j) in
        if ID j \<in> set (running a) then
          if nack_retries r j then a_retry (level_of (Priority j)) (ID j) d a else a_bury (ID j) d a
        else a\<lparr>stored := (stored a)(ID j \<mapsto> d)\<rparr>)"
  show ?thesis
    by (intro exI [of _ "nacked t t' e r j"] exI [of _ w'])
      (use a in \<open>simp add: Let_def nack_retries_def split: if_splits\<close>)
qed

theorem Nack_moves_witness:
  "\<exists>j' w'. run_state (Nack mem_queue mem_job ''boom'' True) (mem_with busy_db) = ((j', Inr ()), w') \<and>
     Attempts j' = 1 \<and> pend (queue_view mem_queue (db mem w')) Normal = [ID mem_job] \<and>
     running (queue_view mem_queue (db mem w')) = []"
proof -
  have j: "Priority mem_job = 9" "Attempts mem_job = 0" "MaxRetries mem_job = 5"
    by (simp_all add: mem_job_def sample_job_def NewPriorityJob_def NewJob_def Let_def)
  have u: "valid_utf8 ''boom''" by (simp add: utf8_size.simps)
  have p: "pend (queue_view mem_queue busy_db) l = []" for l by (simp add: busy_db_def key_simps empty_db_def list_of_def)
  show ?thesis
    using Nack_moves [OF mem_queue_contract mem_with_ready [OF busy_queue(1)] mem_job_ok(1) u, of True] j p
    by (auto simp: a_retry_def a_enqueue_def a_ack_def level_of_def Let_def int64_range_def simp del: queue_view_sel)
qed

section \<open>Claiming\<close>

text \<open>C17. \<open>Claim\<close> never hands out a job, although the link works. With an empty critical list it returns
  the script's null reply as an error, without looking at the other lists, and counts it as a
  failure of Redis. With a critical job pending it moves the oldest one to processing and then returns
  an error too: the claim script wrote its lock over the stored job, which can no longer be read.\<close>

theorem Claim_never_delivers:
  assumes q: "queue_on_redis c view stime up sha rnd q" and w: "queue_ready view up q w"
    and n: "0 < whole_seconds (LockTTL (qopts q))"
  shows "\<exists>m err w'. run_state (Claim q timeout) w = (Inl (Wrapf m err), w') \<and>
    (if pend (queue_view q (db view w)) High = []
     then err = Wrapf ''redis evalsha'' ErrNotFound \<and> db view w' = db view w \<and> failures w' = failures w + 1
     else \<exists>s. queue_view q (db view w') = a_claim High s (queue_view q (db view w)))"
proof (cases "pend (queue_view q (db view w)) High = []")
  case True
  show ?thesis
    by (rule queue_on_redis.claim_empty [OF q w n True])
      (use True queue_on_redis.Claim_first_queue [OF q] in fastforce)
next
  case False
  show ?thesis
    by (rule queue_on_redis.claim_nonempty [OF q w n False])
      (use False queue_on_redis.Claim_first_queue [OF q] in fastforce)
qed

theorem Claim_never_delivers_witness:
  "\<exists>e w'. run_state (Claim mem_queue 1000) (mem_with pending_db) = (Inl e, w') \<and>
     running (queue_view mem_queue (db mem w')) = [ID mem_job] \<and>
     stored (queue_view mem_queue (db mem w')) (ID mem_job) = None"
proof -
  have p: "running (queue_view mem_queue pending_db) = []"
    by (simp add: pending_db_def key_simps empty_db_def list_of_def)
  show ?thesis
    using Claim_never_delivers [OF mem_queue_contract mem_with_ready [OF pending_queue(1)], of 1000] p
    by (auto simp: a_claim_def Let_def simp del: queue_view_sel)
qed

text \<open>Polling an idle queue.\<close>

fun polls :: "'s queue \<Rightarrow> int \<Rightarrow> nat \<Rightarrow> 's world \<Rightarrow> 's world" where
  "polls q timeout 0 w = w"
| "polls q timeout (Suc n) w = polls q timeout n (snd (run_state (Claim q timeout) w))"

lemma idle_polls:
  assumes q: "queue_on_redis c view stime up sha rnd q" and n: "0 < whole_seconds (LockTTL (qopts q))"
    and thr: "CircuitBreakerThreshold (copts c) < 2 ^ 31"
  shows "queue_ready view up q w \<Longrightarrow> pend (queue_view q (db view w)) High = [] \<Longrightarrow> cstate w = circuitClosed \<Longrightarrow>
    failures w = of_nat k \<Longrightarrow> 0 < m \<Longrightarrow> int (k + m) = CircuitBreakerThreshold (copts c) \<Longrightarrow>
    cstate (polls q timeout m w) = circuitOpen \<and> db view (polls q timeout m w) = db view w"
proof (induction m arbitrary: w k)
  case (Suc m)
  obtain w' where w': "run_state (Claim q timeout) w =
      (Inl (Wrapf ''claim script blew up'' (Wrapf ''redis evalsha'' ErrNotFound)), w')"
    "db view w' = db view w" "failures w' = failures w + 1" "up (srv w')" "scripts_in view w' = scripts_in view w"
    "cstate w' = (if CircuitBreakerThreshold (copts c) \<le> sint (failures w + 1) then circuitOpen else cstate w)"
    by (rule queue_on_redis.claim_empty [OF q Suc.prems(1) n Suc.prems(2)])
      (use queue_on_redis.Claim_first_queue [OF q] in blast)
  have k: "int k < 2 ^ 31 - 1" using Suc.prems(6) thr by simp
  have s: "sint (failures w + 1) = int k + 1"
    using k sint_Suc [of "of_nat k"] Suc.prems(4) by (simp add: signed_of_nat signed_take_bit_int_eq_self)
  show ?case
  proof (cases m)
    case 0
    then show ?thesis using w' s Suc.prems(6) by simp
  next
    case (Suc m')
    then have c: "cstate w' = circuitClosed" using w'(6) s \<open>int (k + Suc m) = _\<close> \<open>cstate w = _\<close> by simp
    have "queue_ready view up q w'"
      using w' c queue_readyD(2,3) [OF \<open>queue_ready view up q w\<close>] by (simp add: queue_ready_def ready_def IsHealthy_def)
    then show ?thesis
      using Suc.IH [of w' "Suc k"] c w' Suc \<open>failures w = _\<close> \<open>int (k + Suc m) = _\<close> \<open>pend _ High = []\<close>
      by (simp add: add.commute)
  qed
qed simp

text \<open>Polling an idle queue opens the circuit breaker: with Redis up and no critical job, as many calls
  of \<open>Claim\<close> as the breaker's threshold leave the circuit open, so that every other operation of the
  process is refused until the timeout passes.\<close>

theorem idle_polling_opens_circuit:
  assumes "queue_on_redis c view stime up sha rnd q" "queue_ready view up q w"
    and "0 < whole_seconds (LockTTL (qopts q))" "pend (queue_view q (db view w)) High = []"
    and "cstate w = circuitClosed" "failures w = 0"
    and "0 < CircuitBreakerThreshold (copts c)" "CircuitBreakerThreshold (copts c) < 2 ^ 31"
  shows "cstate (polls q timeout (nat (CircuitBreakerThreshold (copts c))) w) = circuitOpen"
  using idle_polls [OF assms(1,3,8,2,4,5), of 0 "nat (CircuitBreakerThreshold (copts c))"] assms(6,7) by simp

theorem idle_polling_opens_circuit_witness:
  "cstate (polls mem_queue 1000 5 (mem_with empty_db)) = circuitOpen"
proof -
  have "cstate (mem_with empty_db) = circuitClosed" "failures (mem_with empty_db) = 0"
    "CircuitBreakerThreshold (copts mem_client) = 5"
    by (simp_all add: mem_with_def mem_world_def mem_client_def redis_DefaultOptions_def)
  then show ?thesis
    using idle_polling_opens_circuit [OF mem_queue_contract mem_with_ready [OF empty_queue(1)], of 1000] by simp
qed

section \<open>Dead letters\<close>

text \<open>C24. Retrying a dead letter resets the job (pending, no attempts, no error), takes one occurrence of
  its identifier off the dead letters and pushes it to its priority list. Nothing checks that the job
  is a dead letter: for a job that is not, the dead letters stay as they are and the identifier is
  pushed all the same, a second time if it was pending already.\<close>

theorem RetryDLQJob_requeues:
  assumes "queue_on_redis c view stime up sha rnd q" "queue_ready view up q w"
    and "stored (queue_view q (db view w)) i = Some (job_text j)" "job_wf j" "ID j = i"
  shows "\<exists>w'. run_state (RetryDLQJob q i) w = (Inr (), w') \<and> queue_ready view up q w' \<and>
    dead (queue_view q (db view w')) = remove1 i (dead (queue_view q (db view w))) \<and>
    pend (queue_view q (db view w')) (level_of (Priority j)) =
      i # pend (queue_view q (db view w)) (level_of (Priority j)) \<and>
    running (queue_view q (db view w')) = running (queue_view q (db view w)) \<and>
    fst (run_state (GetJob q i) w') =
      Inr ((stored_form j)\<lparr>Status := StatusPending, Attempts := 0, LastError := []\<rparr>)"
proof -
  let ?j = "(stored_form j)\<lparr>Status := StatusPending, Attempts := 0, LastError := []\<rparr>"
  have wf: "job_wf ?j" using job_wf_stored_form [OF assms(4)]
    by (simp add: job_wf_def status_known_def int64_range_def)
  have sf: "stored_form ?j = ?j" by (simp add: stored_form_def)
  obtain w' where w': "queue_ready view up q w'" "run_state (RetryDLQJob q i) w = (Inr (), w')"
    "queue_view q (db view w') =
      a_enqueue (level_of (Priority j)) i (job_text ?j)
        ((queue_view q (db view w))\<lparr>dead := remove1 i (dead (queue_view q (db view w)))\<rparr>)"
    using queue_on_redis.RetryDLQJob_run [OF assms] by (auto simp: Let_def)
  then have "stored (queue_view q (db view w')) i = Some (job_text ?j)"
    by (simp add: a_enqueue_def del: queue_view_sel)
  then have "fst (run_state (GetJob q i) w') = Inr ?j"
    using queue_on_redis.GetJob_run(1) [OF assms(1) w'(1)] Unmarshal_job [OF wf] sf by simp
  with w' show ?thesis by (auto simp: a_enqueue_def simp del: queue_view_sel)
qed

text \<open>A keyspace in which a job is pending and stored.\<close>

definition stored_db :: keyspace where
  "stored_db = put_str (jobKey mem_queue (ID mem_job)) (job_text mem_job) None
     (put_list (pending_key (Prefix (qopts mem_queue)) Normal) [ID mem_job] None empty_db)"

lemma stored_queue [simp]:
  "queue_wf mem_queue stored_db" "pend (queue_view mem_queue stored_db) Normal = [ID mem_job]"
  "stored (queue_view mem_queue stored_db) (ID mem_job) = Some (job_text mem_job)"
  "dead (queue_view mem_queue stored_db) = []"
  by (simp_all add: stored_db_def key_simps)

theorem RetryDLQJob_requeues_witness:
  "\<exists>w'. run_state (RetryDLQJob mem_queue (ID mem_job)) (mem_with stored_db) = (Inr (), w') \<and>
     pend (queue_view mem_queue (db mem w')) Normal = [ID mem_job, ID mem_job]"
proof -
  have "level_of (Priority mem_job) = Normal"
    by (simp add: mem_job_def sample_job_def NewPriorityJob_def level_of_def)
  then show ?thesis
    using RetryDLQJob_requeues [OF mem_queue_contract mem_with_ready [OF stored_queue(1)] _ mem_job_ok(1) refl]
    by (auto simp del: queue_view_sel)
qed

section \<open>Start\<close>

text \<open>\<open>New\<close> on a working link returns a queue over the given client and options whose five
  scripts are in the server's cache under the digests it keeps, without touching the keyspace.\<close>

theorem queue_New_loads:
  assumes "redis_server c view stime up sha rnd" "ready up w"
  shows "\<exists>q w'. run_state (queue_New c opts) w = (Inr q, w') \<and> qclient q = c \<and> qopts q = opts \<and>
    ready up w' \<and> db view w' = db view w \<and> scripts_loaded (scripts_in view w') q"
  by (rule redis_server.queue_New_run [OF assms])

theorem queue_New_loads_witness:
  "\<exists>q w'. run_state (queue_New mem_client queue_DefaultOptions) mem_world = (Inr q, w') \<and>
     scripts_loaded (scripts_in mem w') q"
  using queue_New_loads [OF memory_contract mem_world_ready(1), of queue_DefaultOptions] by blast

section \<open>No job is lost or duplicated\<close>

text \<open>The identifiers held anywhere in the queue.\<close>

definition all_ids :: "aqueue \<Rightarrow> string multiset" where
  "all_ids a = mset (pend a High) + mset (pend a Normal) + mset (pend a Low) + mset (running a) + mset (dead a)"

lemma all_ids_enqueue: "all_ids (a_enqueue l i d a) = add_mset i (all_ids a)"
  by (cases l) (simp_all add: all_ids_def a_enqueue_def)

lemma all_ids_ack: "i \<in> set (running a) \<Longrightarrow> add_mset i (all_ids (a_ack i a)) = all_ids a"
  by (simp add: all_ids_def a_ack_def)

lemma all_ids_bury: "i \<in> set (running a) \<Longrightarrow> all_ids (a_bury i d a) = all_ids a"
  using all_ids_ack [of i a] by (simp add: all_ids_def a_bury_def a_ack_def)

lemma mset_butlast_last: "xs \<noteq> [] \<Longrightarrow> add_mset (last xs) (mset (butlast xs)) = mset xs"
  by (cases xs rule: rev_cases) simp_all

lemma all_ids_claim: "pend a l \<noteq> [] \<Longrightarrow> all_ids (a_claim l s a) = all_ids a"
  using mset_butlast_last [of "pend a l"] by (cases l) (auto simp: all_ids_def a_claim_def Let_def)

lemma stored_ops [simp]:
  "stored (a_enqueue l i d a) = (stored a)(i \<mapsto> d)" "stored (a_ack i a) = stored a"
  "stored (a_retry l i d a) = (stored a)(i \<mapsto> d)" "stored (a_bury i d a) = (stored a)(i \<mapsto> d)"
  "stored (a_claim l s a) = (stored a)(last (pend a l) := None)"
  by (simp_all add: a_enqueue_def a_ack_def a_retry_def a_bury_def a_claim_def Let_def)

lemma all_ids_retry: "i \<in> set (running a) \<Longrightarrow> all_ids (a_retry l i d a) = all_ids a"
  by (simp add: a_retry_def all_ids_enqueue all_ids_ack)

text \<open>
  Runs of the queue as sequences of completed operations: enqueueing a valid job, claiming from a list
  that is not empty, acknowledging, and negative acknowledgement. \<open>Enq i\<close> and \<open>Done i\<close> are the two
  events that add and remove an identifier.
\<close>

datatype event = Enq string | Move | Done string

inductive queue_step :: "('s \<Rightarrow> rstate) \<Rightarrow> 's queue \<Rightarrow> 's world \<Rightarrow> event \<Rightarrow> 's world \<Rightarrow> bool"
  for view :: "'s \<Rightarrow> rstate" and q :: "'s queue" where
  enqueue: "Validate (uuid_ok (cenv (qclient q))) j = None \<Longrightarrow> job_wf j \<Longrightarrow> UniqueKey j = [] \<Longrightarrow>
    run_state (Enqueue q j) w = (Inr (), w') \<Longrightarrow> queue_step view q w (Enq (ID j)) w'"
| claim: "pend (queue_view q (db view w)) l \<noteq> [] \<Longrightarrow>
    run_state (claimFromQueue q (pending_key (Prefix (qopts q)) l)) w = (r, w') \<Longrightarrow> queue_step view q w Move w'"
| ack: "run_state (Ack q i) w = (Inr (), w') \<Longrightarrow> queue_step view q w (Done i) w'"
| nack: "job_wf j \<Longrightarrow> valid_utf8 e \<Longrightarrow> uuid_ok (cenv (qclient q)) (ID j) \<Longrightarrow>
    run_state (Nack q j e r) w = ((j', Inr ()), w') \<Longrightarrow> queue_step view q w Move w'"

inductive queue_run :: "('s \<Rightarrow> rstate) \<Rightarrow> 's queue \<Rightarrow> 's world \<Rightarrow> event list \<Rightarrow> 's world \<Rightarrow> bool"
  for view :: "'s \<Rightarrow> rstate" and q :: "'s queue" where
  stop: "queue_run view q w [] w"
| step: "queue_step view q w e w' \<Longrightarrow> queue_run view q w' es w'' \<Longrightarrow> queue_run view q w (e # es) w''"

inductive_cases queue_run_NilE: "queue_run view q w [] w'"
inductive_cases queue_run_ConsE: "queue_run view q w (e # es) w'"

primrec entered :: "event list \<Rightarrow> string multiset" where
  "entered [] = {#}"
| "entered (e # es) = (case e of Enq i \<Rightarrow> {#i#} | _ \<Rightarrow> {#}) + entered es"

primrec finished :: "event list \<Rightarrow> string multiset" where
  "finished [] = {#}"
| "finished (e # es) = (case e of Done i \<Rightarrow> {#i#} | _ \<Rightarrow> {#}) + finished es"

text \<open>The state between two operations: the queue is ready and no job is stored under a lock's name.\<close>

definition queue_inv :: "('s \<Rightarrow> rstate) \<Rightarrow> ('s \<Rightarrow> bool) \<Rightarrow> 's queue \<Rightarrow> 's world \<Rightarrow> bool" where
  "queue_inv view up q w \<longleftrightarrow>
     queue_ready view up q w \<and> (\<forall>i. stored (queue_view q (db view w)) (i @ '':lock'') = None)"

lemma nack_step_inv:
  assumes q: "queue_on_redis c view stime up sha rnd q" and i: "queue_inv view up q w"
    and j: "job_wf j" "valid_utf8 e'" and run: "run_state (Nack q j e' r) w = ((j', Inr ()), w')" and id: "uuid_ok (cenv c) (ID j)"
  shows "queue_inv view up q w' \<and> all_ids (queue_view q (db view w')) = all_ids (queue_view q (db view w))"
proof -
  have w: "queue_ready view up q w" "stored (queue_view q (db view w)) (ID j @ '':lock'') = None"
    using i by (simp_all add: queue_inv_def)
  have u: "i @ '':lock'' \<noteq> ID j" for i
    using redis_server.uuid_text [OF queue_on_redis.axioms(1) [OF q] id, of i] by auto
  show ?thesis
  proof (rule queue_on_redis.Nack_run [OF q w(1) j w(2), of r])
    fix t t' w1
    assume a: "queue_ready view up q w1" "run_state (Nack q j e' r) w = ((nacked t t' e' r j,
        if ID j \<in> set (running (queue_view q (db view w))) then Inr () else Inl ErrJobNotFound), w1)"
      "queue_view q (db view w1) =
        (let a = queue_view q (db view w); d = job_text (nacked t t' e' r j) in
         if ID j \<in> set (running a) then
           if nack_retries r j then a_retry (level_of (Priority j)) (ID j) d a else a_bury (ID j) d a
         else a\<lparr>stored := (stored a)(ID j \<mapsto> d)\<rparr>)"
    have r: "ID j \<in> set (running (queue_view q (db view w)))" "w1 = w'"
      using a(2) run by (auto split: if_splits)
    show ?thesis
      using a(1,3) r u i all_ids_retry [OF r(1)] all_ids_bury [OF r(1)]
      by (auto simp: queue_inv_def Let_def simp del: queue_view_sel)
  qed
qed

lemma queue_step_inv:
  assumes q: "queue_on_redis c view stime up sha rnd q" and n: "0 < whole_seconds (LockTTL (qopts q))"
    and "queue_step view q w e w'" "queue_inv view up q w"
  shows "queue_inv view up q w' \<and>
    all_ids (queue_view q (db view w')) + finished [e] = all_ids (queue_view q (db view w)) + entered [e]"
  using assms(3,4)
proof cases
  case (enqueue j)
  have c: "qclient q = c" by (rule queue_on_redis.q_client [OF q])
  have w: "queue_ready view up q w" using assms(4) by (simp add: queue_inv_def)
  have "i @ '':lock'' \<noteq> ID j" for i
    using redis_server.uuid_text [OF queue_on_redis.axioms(1) [OF q], of "ID j" i] enqueue(2) c
    by (auto simp: Validate_None_iff)
  moreover obtain w1 where "run_state (Enqueue q j) w = (Inr (), w1)" "queue_ready view up q w1"
      "queue_view q (db view w1) = a_enqueue (level_of (Priority j)) (ID j) (job_text j) (queue_view q (db view w))"
    using queue_on_redis.Enqueue_run [OF q w _ enqueue(3,4)] enqueue(2) c by blast
  ultimately show ?thesis using enqueue(1,5) assms(4)
    by (auto simp: queue_inv_def all_ids_enqueue simp del: queue_view_sel)
next
  case (claim l r)
  have w: "queue_ready view up q w" using assms(4) by (simp add: queue_inv_def)
  obtain w1 where "run_state (claimFromQueue q (pending_key (Prefix (qopts q)) l)) w = (r, w1)"
      "queue_ready view up q w1"
      "queue_view q (db view w1) = a_claim l (time_Unix (clock_of c w)) (queue_view q (db view w))"
    using queue_on_redis.claim_nonempty [OF q w n claim(2)] claim(3) by (metis prod.inject)
  then show ?thesis using claim assms(4)
    by (auto simp: queue_inv_def all_ids_claim simp del: queue_view_sel)
next
  case (ack i)
  have w: "queue_ready view up q w" using assms(4) by (simp add: queue_inv_def)
  have "i \<in> set (running (queue_view q (db view w))) \<and> queue_ready view up q w' \<and> db view w' = finish_db q i (db view w)"
    by (rule queue_on_redis.Ack_run [OF q w, of i]) (use ack(2) in \<open>auto split: if_splits\<close>)
  then show ?thesis using ack(1) assms(4) all_ids_ack [of i "queue_view q (db view w)"]
    by (auto simp: queue_inv_def queue_view_finish simp del: queue_view_sel)
next
  case (nack j e' r j')
  then show ?thesis using nack_step_inv [OF q assms(4) nack(2,3), of r j' w'] queue_on_redis.q_client [OF q] by simp
qed

text \<open>C3. No job is lost or duplicated: over any sequence of successful enqueues, claims, acknowledgements
  and negative acknowledgements, the identifiers held in the five lists are exactly those that were
  there plus those that entered, less those that were acknowledged, each with its multiplicity.\<close>

theorem queue_run_conserves_jobs:
  assumes "queue_on_redis c view stime up sha rnd q" "0 < whole_seconds (LockTTL (qopts q))"
    and "queue_run view q w es w'" "queue_inv view up q w"
  shows "queue_inv view up q w' \<and>
    all_ids (queue_view q (db view w')) + finished es = all_ids (queue_view q (db view w)) + entered es"
  using assms(3,4)
proof (induction rule: queue_run.induct)
  case (step w e w' es w'')
  have s: "queue_inv view up q w'"
    "all_ids (queue_view q (db view w')) + finished [e] = all_ids (queue_view q (db view w)) + entered [e]"
    using queue_step_inv [OF assms(1,2) step.hyps(1) step.prems] by auto
  have "all_ids (queue_view q (db view w'')) + finished (e # es) =
      (all_ids (queue_view q (db view w'')) + finished es) + finished [e]" by (simp add: ac_simps)
  also have "\<dots> = (all_ids (queue_view q (db view w')) + finished [e]) + entered es"
    using step.IH [OF s(1)] by (simp add: ac_simps)
  also have "\<dots> = all_ids (queue_view q (db view w)) + entered (e # es)"
    using s(2) by (simp add: ac_simps)
  finally show ?case using step.IH [OF s(1)] by simp
qed simp

theorem queue_run_conserves_jobs_witness:
  "\<exists>w'. queue_run mem mem_queue (mem_with empty_db) [Enq (ID mem_job), Move] w' \<and>
     all_ids (queue_view mem_queue (db mem w')) = {#ID mem_job#}"
proof -
  have i: "queue_inv mem alive mem_queue (mem_with empty_db)"
    using mem_with_ready [OF empty_queue(1)] by (simp add: queue_inv_def)
  have p: "level_of (Priority mem_job) = Normal"
    by (simp add: mem_job_def sample_job_def NewPriorityJob_def level_of_def)
  obtain w1 where w1: "run_state (Enqueue mem_queue mem_job) (mem_with empty_db) = (Inr (), w1)"
      "queue_view mem_queue (db mem w1) =
        a_enqueue Normal (ID mem_job) (job_text mem_job) (queue_view mem_queue empty_db)"
    using mq.Enqueue_run [OF mem_with_ready [OF empty_queue(1)] mem_job_ok(2,1,3)] unfolding p mem_with_db by blast
  obtain r w2 where w2: "run_state (claimFromQueue mem_queue (pending_key (Prefix (qopts mem_queue)) Normal)) w1 = (r, w2)"
    by (rule prod.exhaust)
  have "queue_step mem mem_queue (mem_with empty_db) (Enq (ID mem_job)) w1"
    by (rule queue_step.enqueue [OF _ mem_job_ok(1,3) w1(1)]) (use mem_job_ok in \<open>simp add: mq.q_client\<close>)
  moreover have "queue_step mem mem_queue w1 Move w2"
    by (rule queue_step.claim [OF _ w2]) (use w1(2) in \<open>simp add: a_enqueue_def del: queue_view_sel\<close>)
  ultimately have run: "queue_run mem mem_queue (mem_with empty_db) [Enq (ID mem_job), Move] w2"
    using queue_run.step [OF _ queue_run.step [OF _ queue_run.stop]] by blast
  have "all_ids (queue_view mem_queue empty_db) = {#}" by (simp add: all_ids_def)
  then show ?thesis
    using run queue_run_conserves_jobs [OF mem_queue_contract _ run i] by auto
qed

end
