(* ===== verification/Queue_Ack.thy ===== *)
theory Queue_Ack
  imports Queue
begin

text \<open>
  The rest of package \<open>queue\<close>: completing and failing a job (\<open>internal/queue/ack.go\<close>), the backoff
  (\<open>internal/queue/retry.go\<close>) and the dead-letter operations (\<open>internal/queue/dlq.go\<close>). \<open>AckJob\<close> and
  \<open>NackJob\<close> change the job they are given, so the job is part of their results.
\<close>

section \<open>Backoff\<close>

record BackoffConfig =
  Initial :: int
  Max_backoff :: int
  Factor :: rat
  Jitter :: rat

definition DefaultBackoffConfig :: BackoffConfig where
  "DefaultBackoffConfig = \<lparr>Initial = 1 * second, Max_backoff = 1 * hour, Factor = 2, Jitter = f_round (1 / 10)\<rparr>"

text \<open>\<open>math.Pow\<close> at a whole exponent, as the rounded power.\<close>

definition f_pow :: "rat \<Rightarrow> int \<Rightarrow> rat" where
  "f_pow x n = f_round (x ^ nat n)"

text \<open>\<open>r\<close> is the value of \<open>rand.Float64()\<close>, which is only drawn when there is jitter.\<close>

definition CalculateBackoff :: "BackoffConfig \<Rightarrow> rat \<Rightarrow> int \<Rightarrow> int" where
  "CalculateBackoff cfg r attempt =
    (let attempt = (if attempt < 0 then 0 else attempt);
         backoff = f_mul (f_of_int (Initial cfg)) (f_pow (Factor cfg) attempt);
         backoff = (if backoff > f_of_int (Max_backoff cfg) then f_of_int (Max_backoff cfg) else backoff);
         backoff =
           (if Jitter cfg > 0 then
              let jitterRange = f_mul backoff (Jitter cfg);
                  jitter = f_sub (f_mul (f_mul r 2) jitterRange) jitterRange
              in f_add backoff jitter
            else backoff);
         backoff = (if backoff < f_of_int (Initial cfg) then f_of_int (Initial cfg) else backoff)
     in f_trunc backoff)"

definition NextRetryTime :: "'s client \<Rightarrow> BackoffConfig \<Rightarrow> int \<Rightarrow> ('s world, gotime) state" where
  "NextRetryTime c cfg attempt = do {
     r \<leftarrow> (if Jitter cfg > 0 then on_srv (rand_Float64 (cenv c)) else ret 0);
     let backoff = CalculateBackoff cfg r attempt;
     t \<leftarrow> now c;
     ret (time_Add t backoff)
   }"

section \<open>Completing and failing a job\<close>

record AckResult =
  ack_JobID :: string
  ack_Success :: bool
  ack_Result :: "string option"
  ack_Error :: "goerror option"

record NackResult =
  nack_JobID :: string
  nack_Attempt :: int
  nack_MaxRetries :: int
  nack_WillRetry :: bool
  nack_MovedToDLQ :: bool
  nack_NextRetryAt :: "string option"
  nack_Error :: "goerror option"

text \<open>
  The results are the pointer to the result (\<open>None\<close> for nil), the error, and the job afterwards.
  A nil job is refused.
\<close>

definition AckJob :: "'s queue \<Rightarrow> Job option \<Rightarrow> string option \<Rightarrow>
    ('s world, AckResult option \<times> goerror option \<times> Job option) state" where
  "AckJob q jp result =
    (case jp of
       None \<Rightarrow> ret (None, Some (Errorf ''can't ack nil job''), None)
     | Some j \<Rightarrow> do {
         t \<leftarrow> now (qclient q);
         let j = MarkCompleted t result j;
         st \<leftarrow> or_return (ret (Marshal j)) (Wrapf ''couldn't serialize job'') (\<lambda>data.
               or_return (Set (qclient q) (jobKey q (ID j)) data 0) (Wrapf ''couldn't update job'') (\<lambda>_.
               ret (Inr ())));
         case st of
           Inl err \<Rightarrow> ret (None, Some err, Some j)
         | Inr _ \<Rightarrow> do {
             r \<leftarrow> Ack q (ID j);
             case r of
               Inl err \<Rightarrow> ret (Some \<lparr>ack_JobID = ID j, ack_Success = False, ack_Result = result,
                 ack_Error = Some err\<rparr>, Some err, Some j)
             | Inr _ \<Rightarrow> ret (Some \<lparr>ack_JobID = ID j, ack_Success = True, ack_Result = result,
                 ack_Error = None\<rparr>, None, Some j)
           }
       })"

definition NackJob :: "'s queue \<Rightarrow> Job option \<Rightarrow> string \<Rightarrow> BackoffConfig \<Rightarrow>
    ('s world, NackResult option \<times> goerror option \<times> Job option) state" where
  "NackJob q jp errMsg cfg =
    (case jp of
       None \<Rightarrow> ret (None, Some (Errorf ''can't nack nil job''), None)
     | Some j \<Rightarrow> do {
         let nextAttempt = i64 (Attempts j + 1);
         let shouldRetry = nextAttempt < MaxRetries j;
         let result = \<lparr>nack_JobID = ID j, nack_Attempt = nextAttempt, nack_MaxRetries = MaxRetries j,
           nack_WillRetry = shouldRetry, nack_MovedToDLQ = \<not> shouldRetry, nack_NextRetryAt = None,
           nack_Error = None\<rparr>;
         result \<leftarrow> (if shouldRetry then do {
             t \<leftarrow> NextRetryTime (qclient q) cfg nextAttempt;
             ret (result\<lparr>nack_NextRetryAt := Some (format_RFC3339 t)\<rparr>)
           } else ret result);
         (j, r) \<leftarrow> Nack q j errMsg shouldRetry;
         case r of
           Inl err \<Rightarrow> ret (Some (result\<lparr>nack_Error := Some err\<rparr>), Some err, Some j)
         | Inr _ \<Rightarrow> ret (Some result, None, Some j)
       })"

section \<open>Dead-letter operations\<close>

text \<open>\<open>NewDLQOperations\<close> accepts the package's own implementation of the interface and refuses any other (\<open>None\<close>); \<open>dlq\<close> is
  that queue.\<close>

definition NewDLQOperations :: "'s queue option \<Rightarrow> goerror + 's queue" where
  "NewDLQOperations q = (case q of None \<Rightarrow> Inl (Errorf ''dlq: invalid queue type'') | Some qq \<Rightarrow> Inr qq)"

definition dlq_List :: "'s queue \<Rightarrow> int \<Rightarrow> int \<Rightarrow> ('s world, goerror + Job list) state" where
  "dlq_List d offset limit = ListDLQ d offset limit"

definition dlq_Count :: "'s queue \<Rightarrow> ('s world, goerror + int) state" where
  "dlq_Count d = LLen (qclient d) (dlqKey d)"

definition dlq_Retry :: "'s queue \<Rightarrow> string \<Rightarrow> ('s world, goerror + unit) state" where
  "dlq_Retry d jobID = RetryDLQJob d jobID"

definition dlq_Delete :: "'s queue \<Rightarrow> string \<Rightarrow> ('s world, goerror + unit) state" where
  "dlq_Delete d jobID =
    or_return (LRem (qclient d) (dlqKey d) 1 jobID) (Wrapf ''dlq delete: failed to remove from list'') (\<lambda>_.
    or_return (Del (qclient d) [jobKey d jobID]) (Wrapf ''dlq delete: failed to delete job data'') (\<lambda>_.
    ret (Inr ())))"

fun del_each :: "'s queue \<Rightarrow> string list \<Rightarrow> ('s world, unit) state" where
  "del_each d [] = ret ()"
| "del_each d (jobID # ids) = do { _ \<leftarrow> Del (qclient d) [jobKey d jobID]; del_each d ids }"

definition dlq_Purge :: "'s queue \<Rightarrow> ('s world, goerror + int) state" where
  "dlq_Purge d =
    or_return (LRange (qclient d) (dlqKey d) 0 (- 1)) (Wrapf ''dlq purge: failed to list jobs'') (\<lambda>jobIDs. do {
      del_each d jobIDs;
      or_return (Del (qclient d) [dlqKey d]) (Wrapf ''dlq purge: failed to clear dlq'') (\<lambda>_.
      ret (Inr (int (length jobIDs))))
    })"

end
