(* ===== verification/Queue_Ack_Theorems.thy ===== *)
theory Queue_Ack_Theorems
  imports Queue_Theorems Queue_Ack
begin

text \<open>
  Correctness of completing and failing jobs, of the backoff and of the dead-letter operations.
\<close>

section \<open>Backoff\<close>

text \<open>The steps of the computation, as functions of the backoff so far.\<close>

definition capped :: "BackoffConfig \<Rightarrow> int \<Rightarrow> rat" where
  "capped cfg attempt =
    min (f_of_int (Max_backoff cfg)) (f_mul (f_of_int (Initial cfg)) (f_pow (Factor cfg) (max 0 attempt)))"

definition jittered :: "BackoffConfig \<Rightarrow> rat \<Rightarrow> rat \<Rightarrow> rat" where
  "jittered cfg r b =
    (if Jitter cfg > 0
     then f_add b (f_sub (f_mul (f_mul r 2) (f_mul b (Jitter cfg))) (f_mul b (Jitter cfg))) else b)"

lemma CalculateBackoff_steps:
  "CalculateBackoff cfg r attempt = f_trunc (max (f_of_int (Initial cfg)) (jittered cfg r (capped cfg attempt)))"
proof -
  have a: "(if attempt < 0 then 0 else attempt) = max 0 attempt" by (simp add: max_def)
  have m: "(if x > y then y else x) = min y x" "(if x < y then y else x) = max y x" for x y :: rat
    by (simp_all add: min_def max_def)
  show ?thesis by (simp only: CalculateBackoff_def Let_def a m capped_def jittered_def)
qed

lemma capped_nonneg: "0 \<le> Initial cfg \<Longrightarrow> 0 \<le> Max_backoff cfg \<Longrightarrow> 0 \<le> Factor cfg \<Longrightarrow> 0 \<le> capped cfg attempt"
  by (simp add: capped_def f_ops f_pow_def f_round_nonneg)

lemma jitter_bound:
  assumes "0 \<le> b" "f_round b = b" "0 \<le> Jitter cfg" "0 \<le> r" "r < 1"
  shows "jittered cfg r b \<le> f_add b (f_mul b (Jitter cfg))"
proof (cases "Jitter cfg > 0")
  case True
  define jr where "jr = f_mul b (Jitter cfg)"
  have jr: "0 \<le> jr" "f_round jr = jr" "f_round (2 * jr) = 2 * jr"
    using assms by (simp_all add: jr_def f_mul_def f_round_nonneg)
  have "f_mul r 2 \<le> 2" using f_round_mono [of "r * 2" "of_int 2"] assms f_round_of_int [of 2] by (simp add: f_mul_def)
  then have "f_mul r 2 * jr \<le> 2 * jr" by (rule mult_right_mono [OF _ jr(1)])
  then have "f_mul (f_mul r 2) jr \<le> 2 * jr"
    using f_round_le [of "f_mul r 2 * jr" "2 * jr"] jr by (simp add: f_mul_def [of "f_mul r 2"])
  then have "f_sub (f_mul (f_mul r 2) jr) jr \<le> jr"
    using f_round_le [of "f_mul (f_mul r 2) jr - jr" jr] jr by (simp add: f_sub_def)
  then have "f_round (b + f_sub (f_mul (f_mul r 2) jr) jr) \<le> f_round (b + jr)"
    using assms(1) jr(1) by (intro f_round_le) auto
  then show ?thesis using True by (simp add: jittered_def jr_def f_add_def)
next
  case False
  then have "Jitter cfg = 0" using assms(3) by simp
  then show ?thesis using assms(2) by (simp add: jittered_def f_add_def f_mul_def)
qed



text \<open>Without jitter the wait grows with the attempts until it reaches the cap, and never exceeds it.\<close>

theorem CalculateBackoff_monotone:
  assumes "0 \<le> Initial cfg" "Initial cfg \<le> Max_backoff cfg" "Max_backoff cfg < 2 ^ 53" "1 \<le> Factor cfg"
    and "Jitter cfg = 0" "a \<le> b"
  shows "CalculateBackoff cfg r a \<le> CalculateBackoff cfg r b \<and> CalculateBackoff cfg r b \<le> Max_backoff cfg"
proof -
  have fi: "f_of_int (Initial cfg) = of_int (Initial cfg)" "f_of_int (Max_backoff cfg) = of_int (Max_backoff cfg)"
    using assms by (simp_all add: f_of_int_def)
  have "Factor cfg ^ nat (max 0 a) \<le> Factor cfg ^ nat (max 0 b)"
    using assms by (intro power_increasing) auto
  then have "f_pow (Factor cfg) (max 0 a) \<le> f_pow (Factor cfg) (max 0 b)"
    unfolding f_pow_def using assms(4) by (intro f_round_mono) auto
  then have "f_mul (of_int (Initial cfg)) (f_pow (Factor cfg) (max 0 a)) \<le>
      f_mul (of_int (Initial cfg)) (f_pow (Factor cfg) (max 0 b))"
    unfolding f_mul_def using assms(1,4) by (intro f_round_mono mult_left_mono) (auto simp: f_pow_def f_round_nonneg)
  then have "capped cfg a \<le> capped cfg b" by (auto simp: capped_def fi)
  moreover have "capped cfg b \<le> of_int (Max_backoff cfg)" by (simp add: capped_def fi)
  ultimately show ?thesis
    unfolding CalculateBackoff_steps fi
    using assms(2,5) f_trunc_mono [of "max (of_int (Initial cfg)) (capped cfg a)" "max (of_int (Initial cfg)) (capped cfg b)"]
      f_trunc_mono [of "max (of_int (Initial cfg)) (capped cfg b)" "of_int (Max_backoff cfg)"]
    by (auto simp: jittered_def)
qed

theorem CalculateBackoff_monotone_witness:
  "CalculateBackoff \<lparr>Initial = 1000, Max_backoff = 8000, Factor = 2, Jitter = 0\<rparr> 0 1 \<le>
      CalculateBackoff \<lparr>Initial = 1000, Max_backoff = 8000, Factor = 2, Jitter = 0\<rparr> 0 5 \<and>
    CalculateBackoff \<lparr>Initial = 1000, Max_backoff = 8000, Factor = 2, Jitter = 0\<rparr> 0 5 \<le> 8000"
  using CalculateBackoff_monotone [of "\<lparr>Initial = 1000, Max_backoff = 8000, Factor = 2, Jitter = 0\<rparr>" 1 5 0]
  by simp

section \<open>Completing and failing a job\<close>

lemma MarkCompleted_simps [simp]:
  "ID (MarkCompleted t r j) = ID j" "Priority (MarkCompleted t r j) = Priority j"
  "Status (MarkCompleted t r j) = StatusCompleted" "Result (MarkCompleted t r j) = r"
  by (simp_all add: MarkCompleted_def)

lemma MarkCompleted_wf: "job_wf j \<Longrightarrow> time_wf (time_UTC t) \<Longrightarrow> job_wf (MarkCompleted t r j)"
  by (simp add: job_wf_def MarkCompleted_def status_known_def)

context queue_on_redis begin

lemma AckJob_run:
  assumes w: "queue_ready view up q w" and j: "job_wf j"
    and lock: "stored (queue_view q (db view w)) (ID j @ '':lock'') = None"
  obtains t w' where "queue_ready view up q w'" "job_wf (MarkCompleted t r j)"
    "run_state (AckJob q (Some j) r) w =
      (if ID j \<in> set (running (queue_view q (db view w)))
       then (Some \<lparr>ack_JobID = ID j, ack_Success = True, ack_Result = r, ack_Error = None\<rparr>, None,
             Some (MarkCompleted t r j))
       else (Some \<lparr>ack_JobID = ID j, ack_Success = False, ack_Result = r, ack_Error = Some ErrJobNotFound\<rparr>,
             Some ErrJobNotFound, Some (MarkCompleted t r j)), w')"
    "queue_view q (db view w') =
      (let a = (queue_view q (db view w))\<lparr>stored := (stored (queue_view q (db view w)))(ID j \<mapsto> job_text (MarkCompleted t r j))\<rparr>
       in if ID j \<in> set (running a) then a_ack (ID j) a else a)"
proof -
  define j' where "j' = MarkCompleted (clock_of c w) r j"
  have wf: "job_wf j'" using MarkCompleted_wf [OF j] clock_laws(3) by (simp add: j'_def)
  define w1 where "w1 = sent c (SET (jobKey q (ID j)) (job_text j') 0) (ticked c w)"
  note st = set_job [OF queue_ready_ticked [OF w], of "ID j" "job_text j'", folded w1_def]
  have v1: "queue_view q (db view w1) =
      (queue_view q (db view w))\<lparr>stored := (stored (queue_view q (db view w)))(ID j \<mapsto> job_text j')\<rparr>"
    by (simp add: st(3))
  show thesis
  proof (rule Ack_run [OF st(2), of "ID j"])
    fix w' assume a: "queue_ready view up q w'"
      "run_state (Ack q (ID j)) w1 =
        (if ID j \<in> set (running (queue_view q (db view w1))) then Inr () else Inl ErrJobNotFound, w')"
      "db view w' = (if ID j \<in> set (running (queue_view q (db view w1))) then finish_db q (ID j) (db view w1) else db view w1)"
    show thesis
    proof (rule that [OF a(1)])
      show "job_wf (MarkCompleted (clock_of c w) r j)" using wf by (simp add: j'_def)
      show "run_state (AckJob q (Some j) r) w =
        (if ID j \<in> set (running (queue_view q (db view w)))
         then (Some \<lparr>ack_JobID = ID j, ack_Success = True, ack_Result = r, ack_Error = None\<rparr>, None,
               Some (MarkCompleted (clock_of c w) r j))
         else (Some \<lparr>ack_JobID = ID j, ack_Success = False, ack_Result = r, ack_Error = Some ErrJobNotFound\<rparr>,
               Some ErrJobNotFound, Some (MarkCompleted (clock_of c w) r j)), w')"
        using a(2) st(1) Marshal_job_text [OF wf] v1
        by (simp add: AckJob_def q_client run_simps j'_def [symmetric] Let_def del: queue_view_sel)
      show "queue_view q (db view w') =
        (let a = (queue_view q (db view w))\<lparr>stored := (stored (queue_view q (db view w)))(ID j \<mapsto> job_text (MarkCompleted (clock_of c w) r j))\<rparr>
         in if ID j \<in> set (running a) then a_ack (ID j) a else a)"
        using a(3) v1 lock queue_view_finish [of q "db view w1" "ID j"]
        by (auto simp: Let_def j'_def simp del: queue_view_sel)
    qed
  qed
qed

lemma queue_ready_random:
  "queue_ready view up q w \<Longrightarrow> run_state (on_srv (rand_Float64 (cenv c))) w = (x, w') \<Longrightarrow>
     queue_ready view up q w' \<and> db view w' = db view w \<and> 0 \<le> x \<and> x < 1"
  using random [of "srv w"]
  by (auto simp: run_on_srv queue_ready_def ready_def IsHealthy_def db_def scripts_in_def split: prod.splits)

lemma NextRetryTime_run:
  assumes "queue_ready view up q w"
  obtains t w' where "run_state (NextRetryTime c cfg n) w = (t, w')" "queue_ready view up q w'" "db view w' = db view w"
proof -
  obtain x w1 where w1: "run_state (if Jitter cfg > 0 then on_srv (rand_Float64 (cenv c)) else ret 0) w = (x, w1)"
    by (rule prod.exhaust)
  then have "queue_ready view up q w1 \<and> db view w1 = db view w"
    using queue_ready_random [OF assms] assms by (auto split: if_splits)
  then show thesis using that [of _ "ticked c w1"] w1 by (simp add: NextRetryTime_def run_simps Let_def)
qed

lemma NackJob_run:
  assumes w: "queue_ready view up q w" and j: "job_wf j" "valid_utf8 e"
    and lock: "stored (queue_view q (db view w)) (ID j @ '':lock'') = None"
  obtains t t' res w' where "queue_ready view up q w'" "job_wf (nacked t t' e True j)"
    "run_state (NackJob q (Some j) e cfg) w =
       (if ID j \<in> set (running (queue_view q (db view w)))
        then (Some res, None, Some (nacked t t' e True j))
        else (Some (res\<lparr>nack_Error := Some ErrJobNotFound\<rparr>), Some ErrJobNotFound, Some (nacked t t' e True j)), w')"
    "nack_JobID res = ID j" "nack_Attempt res = i64 (Attempts j + 1)" "nack_MaxRetries res = MaxRetries j"
    "nack_WillRetry res = nack_retries True j" "nack_MovedToDLQ res = (\<not> nack_retries True j)"
    "nack_NextRetryAt res = None \<longleftrightarrow> \<not> nack_retries True j"
    "queue_view q (db view w') =
       (let a = queue_view q (db view w); d = job_text (nacked t t' e True j) in
        if ID j \<in> set (running a) then
          if nack_retries True j then a_retry (level_of (Priority j)) (ID j) d a else a_bury (ID j) d a
        else a\<lparr>stored := (stored a)(ID j \<mapsto> d)\<rparr>)"
proof -
  let ?n = "i64 (Attempts j + 1)" and ?r = "nack_retries True j"
  obtain rt w0 where rt: "run_state (NextRetryTime c cfg ?n) w = (rt, w0)" "queue_ready view up q w0" "db view w0 = db view w"
    using NextRetryTime_run [OF w] by metis
  define w1 where "w1 = (if ?r then w0 else w)"
  define res where "res = \<lparr>nack_JobID = ID j, nack_Attempt = ?n, nack_MaxRetries = MaxRetries j,
    nack_WillRetry = ?r, nack_MovedToDLQ = \<not> ?r, nack_NextRetryAt = (if ?r then Some (format_RFC3339 rt) else None),
    nack_Error = None\<rparr>"
  have w1: "queue_ready view up q w1" "db view w1 = db view w" using w rt by (simp_all add: w1_def)
  have lock1: "stored (queue_view q (db view w1)) (ID j @ '':lock'') = None" using lock w1(2) by simp
  have same: "nack_retries ?r j = ?r" "nacked t t' e ?r j = nacked t t' e True j" for t t'
    by (auto simp: nack_retries_def nacked_def)
  show thesis
  proof (rule Nack_run [OF w1(1) j lock1, of ?r])
    fix t t' w'
    assume a: "queue_ready view up q w'" "job_wf (nacked t t' e ?r j)"
      "run_state (Nack q j e ?r) w1 = ((nacked t t' e ?r j,
         if ID j \<in> set (running (queue_view q (db view w1))) then Inr () else Inl ErrJobNotFound), w')"
      "queue_view q (db view w') =
       (let a = queue_view q (db view w1); d = job_text (nacked t t' e ?r j) in
        if ID j \<in> set (running a) then
          if nack_retries ?r j then a_retry (level_of (Priority j)) (ID j) d a else a_bury (ID j) d a
        else a\<lparr>stored := (stored a)(ID j \<mapsto> d)\<rparr>)"
    have "run_state (NackJob q (Some j) e cfg) w =
       (if ID j \<in> set (running (queue_view q (db view w)))
        then (Some res, None, Some (nacked t t' e True j))
        else (Some (res\<lparr>nack_Error := Some ErrJobNotFound\<rparr>), Some ErrJobNotFound, Some (nacked t t' e True j)), w')"
    proof (cases ?r)
      case True
      then show ?thesis using a(3) rt(1) w1(2)
        by (simp add: NackJob_def q_client run_simps Let_def res_def w1_def nack_retries_def del: queue_view_sel)
    next
      case False
      then show ?thesis using a(3) w1(2) same(2) [of t t']
        by (simp add: NackJob_def q_client run_simps Let_def res_def w1_def nack_retries_def del: queue_view_sel)
    qed
    then show thesis
      using that [OF a(1) a(2) [unfolded same], of res] a(4) [unfolded same w1(2)] by (simp add: res_def)
  qed
qed

end

text \<open>\<open>AckJob\<close> of a job in processing reports success with the result, stores the job as completed
  with that result and takes one occurrence of it out of processing. A job that is not in
  processing is reported as \<open>ErrJobNotFound\<close>, with the lists unchanged; its stored text is replaced
  all the same.\<close>

theorem AckJob_completes:
  assumes "queue_on_redis c view stime up sha rnd q" "queue_ready view up q w" "job_wf j"
    and "stored (queue_view q (db view w)) (ID j @ '':lock'') = None"
  shows "\<exists>j' w'. queue_ready view up q w' \<and> job_wf j' \<and> ID j' = ID j \<and> Status j' = StatusCompleted \<and> Result j' = r \<and>
    (let a = queue_view q (db view w); b = a\<lparr>stored := (stored a)(ID j \<mapsto> job_text j')\<rparr> in
     if ID j \<in> set (running a) then
       run_state (AckJob q (Some j) r) w =
         ((Some \<lparr>ack_JobID = ID j, ack_Success = True, ack_Result = r, ack_Error = None\<rparr>, None, Some j'), w') \<and>
       queue_view q (db view w') = a_ack (ID j) b
     else
       run_state (AckJob q (Some j) r) w =
         ((Some \<lparr>ack_JobID = ID j, ack_Success = False, ack_Result = r, ack_Error = Some ErrJobNotFound\<rparr>,
           Some ErrJobNotFound, Some j'), w') \<and>
       queue_view q (db view w') = b)"
  by (rule queue_on_redis.AckJob_run [OF assms, of r], rule exI, rule exI)
    (auto simp: Let_def simp del: queue_view_sel)

theorem AckJob_completes_witness:
  "\<exists>j' w'. run_state (AckJob mem_queue (Some mem_job) (Some ''ok'')) (mem_with busy_db) =
     ((Some \<lparr>ack_JobID = ID mem_job, ack_Success = True, ack_Result = Some ''ok'', ack_Error = None\<rparr>, None, Some j'), w') \<and>
     Status j' = StatusCompleted \<and> running (queue_view mem_queue (db mem w')) = []"
  using AckJob_completes [OF mem_queue_contract mem_with_ready [OF busy_queue(1)] mem_job_ok(1), of "Some ''ok''"]
  by (auto simp: Let_def a_ack_def simp del: queue_view_sel)

text \<open>What \<open>NackJob\<close> reports is what happens: it announces a retry, with the time of it, exactly when
  the job goes back to its priority list, and a move to the dead letters exactly when it goes there.\<close>

theorem NackJob_reports:
  assumes q: "queue_on_redis c view stime up sha rnd q" and w: "queue_ready view up q w" and j: "job_wf j" "valid_utf8 e"
    and lock: "stored (queue_view q (db view w)) (ID j @ '':lock'') = None"
    and run: "ID j \<in> set (running (queue_view q (db view w)))"
  shows "\<exists>res j' w'. run_state (NackJob q (Some j) e cfg) w = ((Some res, None, Some j'), w') \<and> queue_ready view up q w' \<and>
    nack_Attempt res = Attempts j' \<and> nack_MovedToDLQ res = (\<not> nack_WillRetry res) \<and>
    (nack_NextRetryAt res \<noteq> None) = nack_WillRetry res \<and>
    queue_view q (db view w') =
      (if nack_WillRetry res then a_retry (level_of (Priority j)) (ID j) (job_text j') (queue_view q (db view w))
       else a_bury (ID j) (job_text j') (queue_view q (db view w)))"
proof (rule queue_on_redis.NackJob_run [OF q w j lock, of cfg])
  fix t t' res w'
  assume a: "queue_ready view up q w'"
    "run_state (NackJob q (Some j) e cfg) w =
       (if ID j \<in> set (running (queue_view q (db view w)))
        then (Some res, None, Some (nacked t t' e True j))
        else (Some (res\<lparr>nack_Error := Some ErrJobNotFound\<rparr>), Some ErrJobNotFound, Some (nacked t t' e True j)), w')"
    "nack_Attempt res = i64 (Attempts j + 1)"
    "nack_WillRetry res = nack_retries True j" "nack_MovedToDLQ res = (\<not> nack_retries True j)"
    "(nack_NextRetryAt res = None) = (\<not> nack_retries True j)"
    "queue_view q (db view w') =
       (let a = queue_view q (db view w); d = job_text (nacked t t' e True j) in
        if ID j \<in> set (running a) then
          if nack_retries True j then a_retry (level_of (Priority j)) (ID j) d a else a_bury (ID j) d a
        else a\<lparr>stored := (stored a)(ID j \<mapsto> d)\<rparr>)"
  show ?thesis
    by (intro exI [of _ res] exI [of _ "nacked t t' e True j"] exI [of _ w'])
      (use a run in \<open>simp add: Let_def del: queue_view_sel\<close>)
qed

theorem NackJob_reports_witness:
  "\<exists>res j' w'. run_state (NackJob mem_queue (Some mem_job) ''boom'' DefaultBackoffConfig) (mem_with busy_db) =
     ((Some res, None, Some j'), w') \<and> nack_MovedToDLQ res = (\<not> nack_WillRetry res)"
proof -
  have u: "valid_utf8 ''boom''" by (simp add: utf8_size.simps)
  show ?thesis
    using NackJob_reports [OF mem_queue_contract mem_with_ready [OF busy_queue(1)] mem_job_ok(1) u, of DefaultBackoffConfig]
    by (auto simp del: queue_view_sel)
qed

text \<open>A job that fails again and again: each step is a \<open>NackJob\<close> that announced a retry, in whatever
  state of the queue it was called.\<close>

inductive retried :: "('s \<Rightarrow> rstate) \<Rightarrow> ('s \<Rightarrow> bool) \<Rightarrow> 's queue \<Rightarrow> Job \<Rightarrow> nat \<Rightarrow> Job \<Rightarrow> bool"
  for view :: "'s \<Rightarrow> rstate" and up :: "'s \<Rightarrow> bool" and q :: "'s queue" where
  fresh: "retried view up q j 0 j"
| again: "retried view up q j n j' \<Longrightarrow> queue_inv view up q w \<Longrightarrow> valid_utf8 e \<Longrightarrow>
    run_state (NackJob q (Some j') e cfg) w = ((Some res, err, Some j''), w') \<Longrightarrow> nack_WillRetry res \<Longrightarrow>
    retried view up q j (Suc n) j''"

text \<open>C19. Retries are bounded: a job is retried fewer times than its maximum, every retry counts one
  attempt, and so a job that keeps failing reaches the dead letters.\<close>

theorem retries_bounded:
  assumes q: "queue_on_redis c view stime up sha rnd q" and "retried view up q j n j'" "job_wf j" "0 \<le> Attempts j" "Attempts j < 2 ^ 63 - 1"
  shows "job_wf j' \<and> MaxRetries j' = MaxRetries j \<and> Attempts j' = Attempts j + int n \<and>
    (n = 0 \<or> Attempts j + int n < MaxRetries j)"
  using assms(2-5)
proof (induction rule: retried.induct)
  case (again j n j' w e cfg res err j'' w')
  then have IH: "job_wf j'" "MaxRetries j' = MaxRetries j" "Attempts j' = Attempts j + int n"
    "n = 0 \<or> Attempts j + int n < MaxRetries j" by simp_all
  have r: "queue_ready view up q w" "stored (queue_view q (db view w)) (ID j' @ '':lock'') = None"
    using again.hyps(2) by (simp_all add: queue_inv_def)
  show ?case
  proof (rule queue_on_redis.NackJob_run [OF q r(1) IH(1) again.hyps(3) r(2), of cfg])
    fix t t' res' w1
    assume a: "job_wf (nacked t t' e True j')"
      "run_state (NackJob q (Some j') e cfg) w =
        (if ID j' \<in> set (running (queue_view q (db view w)))
         then (Some res', None, Some (nacked t t' e True j'))
         else (Some (res'\<lparr>nack_Error := Some ErrJobNotFound\<rparr>), Some ErrJobNotFound, Some (nacked t t' e True j')), w1)"
      "nack_WillRetry res' = nack_retries True j'"
    have j'': "j'' = nacked t t' e True j'" "nack_retries True j'"
      using a(2,3) again.hyps(4,5) by (auto split: if_splits)
    have "MaxRetries j < 2 ^ 63" using IH(1,2) by (simp add: job_wf_def int64_range_def)
    then have "i64 (Attempts j' + 1) = Attempts j' + 1"
      using again.prems(2,3) IH(3,4) by (intro i64_id) (auto simp: int64_range_def)
    then show ?case using j'' a(1) IH by (auto simp: nack_retries_def)
  qed
qed simp

theorem retries_bounded_witness:
  "\<exists>j'. retried mem alive mem_queue mem_job 1 j' \<and> Attempts j' = 1 \<and> 1 < MaxRetries mem_job"
proof -
  have u: "valid_utf8 ''boom''" by (simp add: utf8_size.simps)
  have j: "Attempts mem_job = 0" "MaxRetries mem_job = 5"
    by (simp_all add: mem_job_def sample_job_def NewPriorityJob_def NewJob_def Let_def)
  then have n: "nack_retries True mem_job" by (simp add: nack_retries_def int64_range_def)
  have i: "queue_inv mem alive mem_queue (mem_with busy_db)"
    using mem_with_ready [OF busy_queue(1)] busy_queue(3) by (simp add: queue_inv_def del: queue_view_sel)
  obtain j' where c: "retried mem alive mem_queue mem_job 1 j'"
    by (rule mq.NackJob_run [OF mem_with_ready [OF busy_queue(1)] mem_job_ok(1) u, of DefaultBackoffConfig])
      (use n in \<open>auto simp del: queue_view_sel dest!: again [OF fresh i u]\<close>)
  show ?thesis using c retries_bounded [OF mem_queue_contract c mem_job_ok(1)] j by auto
qed

section \<open>Dead letters\<close>

definition a_forget :: "string list \<Rightarrow> aqueue \<Rightarrow> aqueue" where
  "a_forget ds a = a\<lparr>stored := (\<lambda>i. if i \<in> set ds then None else stored a i)\<rparr>"

lemma a_forget_dead: "a_forget ds (a\<lparr>dead := xs\<rparr>) = (a_forget ds a)\<lparr>dead := xs\<rparr>"
  by (simp add: a_forget_def cong: if_cong)

context queue_on_redis begin

lemma del_job:
  assumes "queue_ready view up q w"
  shows "run_state (Del c [jobKey q i]) w = (Inr (), sent c (DEL [jobKey q i]) w)"
    and "queue_ready view up q (sent c (DEL [jobKey q i]) w)"
    and "queue_view q (db view (sent c (DEL [jobKey q i]) w)) = a_forget [i] (queue_view q (db view w))"
  using assms queue_readyD(1,2) [OF assms]
  by (auto simp: run_simps a_forget_def fun_upd_def intro: queue_ready_sent)

lemma del_each_run:
  "queue_ready view up q w \<Longrightarrow>
     \<exists>w'. run_state (del_each q ds) w = ((), w') \<and> queue_ready view up q w' \<and>
       queue_view q (db view w') = a_forget ds (queue_view q (db view w))"
proof (induction ds arbitrary: w)
  case (Cons i ds)
  let ?w = "sent c (DEL [jobKey q i]) w"
  obtain w' where "run_state (del_each q ds) ?w = ((), w')" "queue_ready view up q w'"
    "queue_view q (db view w') = a_forget ds (queue_view q (db view ?w))"
    using Cons.IH [OF del_job(2) [OF Cons.prems]] by blast
  moreover have "a_forget ds (a_forget [i] a) = a_forget (i # ds) a" for a
    by (simp add: a_forget_def) (rule arg_cong [of _ _ "\<lambda>f. a\<lparr>stored := f\<rparr>"], auto)
  ultimately show ?case using del_job [OF Cons.prems, of i] by (simp add: q_client run_simps)
qed (simp add: a_forget_def del: queue_view_sel)

lemma lrange_all [simp]: "lrange 0 (- 1) xs = xs"
  by (auto simp: lrange_def Let_def)

lemma dlq_Purge_run:
  assumes w: "queue_ready view up q w"
  obtains w' where "queue_ready view up q w'"
    "run_state (dlq_Purge q) w = (Inr (int (length (dead (queue_view q (db view w))))), w')"
    "queue_view q (db view w') =
      (a_forget (dead (queue_view q (db view w))) (queue_view q (db view w)))\<lparr>dead := []\<rparr>"
proof -
  define w1 where "w1 = sent c (LRANGE (dlqKey q) 0 (- 1)) w"
  note r = queue_readyD [OF w]
  have w1: "queue_ready view up q w1" "db view w1 = db view w"
    using queue_ready_sent [OF w] r(1,2,6) by (simp_all add: w1_def)
  obtain w2 where w2: "run_state (del_each q (dead (queue_view q (db view w)))) w1 = ((), w2)"
    "queue_ready view up q w2"
    "queue_view q (db view w2) = a_forget (dead (queue_view q (db view w))) (queue_view q (db view w1))"
    using del_each_run [OF w1(1)] by blast
  define w3 where "w3 = sent c (DEL [dlqKey q]) w2"
  note r2 = queue_readyD [OF w2(2)]
  have d3: "db view w3 = rm (dlqKey q) (db view w2)" using r2(1) by (simp add: w3_def)
  have "queue_ready view up q w3"
    unfolding w3_def by (rule queue_ready_sent [OF w2(2)]) (use d3 r2(2) in \<open>simp_all add: w3_def\<close>)
  moreover have "run_state (dlq_Purge q) w = (Inr (int (length (dead (queue_view q (db view w))))), w3)"
    using r(1,6) r2(1) w2(1) by (simp add: dlq_Purge_def q_client run_simps w1_def [symmetric] w3_def)
  moreover have "queue_view q (db view w3) =
      (a_forget (dead (queue_view q (db view w))) (queue_view q (db view w)))\<lparr>dead := []\<rparr>"
    using w2(3) w1(2) by (simp add: d3 del: queue_view_sel)
  ultimately show thesis by (rule that)
qed

lemma dlq_Delete_run:
  assumes w: "queue_ready view up q w"
  obtains w' where "queue_ready view up q w'" "run_state (dlq_Delete q i) w = (Inr (), w')"
    "queue_view q (db view w') =
      (a_forget [i] (queue_view q (db view w)))\<lparr>dead := remove1 i (dead (queue_view q (db view w)))\<rparr>"
proof -
  define w1 where "w1 = sent c (LREM (dlqKey q) 1 i) w"
  note r = queue_readyD [OF w]
  have d1: "db view w1 = put_list (dlqKey q) (remove1 i (list_of (db view w) (dlqKey q))) None (db view w)"
    using r(1,6) by (simp add: w1_def)
  have w1: "queue_ready view up q w1"
    unfolding w1_def by (rule queue_ready_sent [OF w]) (use d1 r(2) in \<open>simp_all add: w1_def\<close>)
  note d = del_job [OF w1, of i]
  have "queue_view q (db view w1) =
      (queue_view q (db view w))\<lparr>dead := remove1 i (dead (queue_view q (db view w)))\<rparr>" by (simp add: d1)
  then have "queue_view q (db view (sent c (DEL [jobKey q i]) w1)) =
      (a_forget [i] (queue_view q (db view w)))\<lparr>dead := remove1 i (dead (queue_view q (db view w)))\<rparr>"
    using d(3) by (simp add: a_forget_dead del: queue_view_sel)
  moreover have "run_state (dlq_Delete q i) w = (Inr (), sent c (DEL [jobKey q i]) w1)"
    using r(1,6) d(1) by (simp add: dlq_Delete_def q_client run_simps w1_def [symmetric])
  ultimately show thesis using that [OF d(2)] by blast
qed

end

text \<open>Purging returns the number of dead letters, empties their list and forgets the stored text of
  each of them, leaving every other job and list as it was; deleting a dead letter takes one
  occurrence of it off the list and forgets its text.\<close>

theorem dlq_Purge_and_Delete:
  assumes "queue_on_redis c view stime up sha rnd q" "queue_ready view up q w"
  shows "(\<exists>w'. run_state (dlq_Purge q) w = (Inr (int (length (dead (queue_view q (db view w))))), w') \<and>
      queue_ready view up q w' \<and>
      queue_view q (db view w') =
        (a_forget (dead (queue_view q (db view w))) (queue_view q (db view w)))\<lparr>dead := []\<rparr>) \<and>
    (\<exists>w'. run_state (dlq_Delete q i) w = (Inr (), w') \<and> queue_ready view up q w' \<and>
      queue_view q (db view w') =
        (a_forget [i] (queue_view q (db view w)))\<lparr>dead := remove1 i (dead (queue_view q (db view w)))\<rparr>)"
  using queue_on_redis.dlq_Purge_run [OF assms] queue_on_redis.dlq_Delete_run [OF assms, of i] by metis

definition buried_db :: keyspace where
  "buried_db = put_str (jobKey mem_queue (ID mem_job)) (job_text mem_job) None
     (put_list (dlqKey mem_queue) [ID mem_job, ID mem_job] None empty_db)"

lemma buried_queue [simp]:
  "queue_wf mem_queue buried_db" "dead (queue_view mem_queue buried_db) = [ID mem_job, ID mem_job]"
  "stored (queue_view mem_queue buried_db) (ID mem_job) = Some (job_text mem_job)"
  by (simp_all add: buried_db_def key_simps)

theorem dlq_Purge_and_Delete_witness:
  "\<exists>w'. run_state (dlq_Purge mem_queue) (mem_with buried_db) = (Inr 2, w') \<and>
     stored (queue_view mem_queue (db mem w')) (ID mem_job) = None"
  using dlq_Purge_and_Delete [OF mem_queue_contract mem_with_ready [OF buried_queue(1)], of undefined]
  by (auto simp: a_forget_def simp del: queue_view_sel)

end
