(* ===== verification/Leader.thy ===== *)
theory Leader
  imports Redis_Memory
begin

text \<open>
  Leader election (\<open>internal/watchdog/leader.go\<close>), which the watchdog and the scheduler both use: a
  lock key with a time to live that holds the identifier of the leader, and a flag \<open>isLeader\<close> per
  instance. The flag is the one mutable field of the struct; it is kept in a record over the world of
  the instance, which the two users extend with their own fields.
\<close>

section \<open>State\<close>

record LeaderConfig =
  LockKey :: string
  LeaderID :: string
  TTL :: int
  RenewInterval :: int

definition DefaultLeaderConfig :: "string \<Rightarrow> LeaderConfig" where
  "DefaultLeaderConfig i = \<lparr>LockKey = ''titan:watchdog:leader'', LeaderID = i, TTL = 30 * second,
     RenewInterval = 10 * second\<rparr>"

record 's leaderElection =
  le_client :: "'s client"
  le_lockKey :: string
  le_leaderID :: string
  le_ttl :: int

record 's lstate =
  lw :: "'s world"
  isLeader :: bool

definition NewLeaderElection :: "'s client \<Rightarrow> LeaderConfig \<Rightarrow> 's leaderElection" where
  "NewLeaderElection c cfg =
    \<lparr>le_client = c, le_lockKey = LockKey cfg, le_leaderID = LeaderID cfg, le_ttl = TTL cfg\<rparr>"

text \<open>Client calls act on the world of the instance.\<close>

definition on_world :: "('s world, 'a) state \<Rightarrow> (('s, 'z) lstate_scheme, 'a) state" where
  "on_world m = State (\<lambda>s. case run_state m (lw s) of (a, w) \<Rightarrow> (a, s\<lparr>lw := w\<rparr>))"

lemma run_on_world [run_simps]:
  "run_state (on_world m) s = (case run_state m (lw s) of (a, w) \<Rightarrow> (a, s\<lparr>lw := w\<rparr>))"
  by (simp add: on_world_def)

definition set_leader :: "bool \<Rightarrow> (('s, 'z) lstate_scheme, unit) state" where
  "set_leader b = modify_state (\<lambda>s. s\<lparr>isLeader := b\<rparr>)"

section \<open>Operations\<close>

definition TryAcquire :: "'s leaderElection \<Rightarrow> (('s, 'z) lstate_scheme, goerror + bool) state" where
  "TryAcquire l = do {
     r \<leftarrow> on_world (SetNX (le_client l) (le_lockKey l) (le_leaderID l) (le_ttl l));
     case r of
       Inl err \<Rightarrow> ret (Inl (Wrapf ''leader acquire'' err))
     | Inr acquired \<Rightarrow> do { set_leader acquired; ret (Inr acquired) }
   }"

text \<open>The second half of \<open>Renew\<close>: extend the lock, whatever the server says about it.\<close>

definition renew_extend :: "'s leaderElection \<Rightarrow> (('s, 'z) lstate_scheme, goerror + unit) state" where
  "renew_extend l = do {
     r \<leftarrow> on_world (Expire (le_client l) (le_lockKey l) (le_ttl l));
     case r of
       Inl err \<Rightarrow> do { set_leader False; ret (Inl (Wrapf ''leader renew'' err)) }
     | Inr _ \<Rightarrow> ret (Inr ())
   }"

definition Renew :: "'s leaderElection \<Rightarrow> (('s, 'z) lstate_scheme, goerror + unit) state" where
  "Renew l = do {
     s \<leftarrow> read_state;
     if \<not> isLeader s then ret (Inl (Errorf ''leader renew: not the leader''))
     else do {
       r \<leftarrow> on_world (Get (le_client l) (le_lockKey l));
       case r of
         Inl err \<Rightarrow> do { set_leader False; ret (Inl (Wrapf ''leader renew'' err)) }
       | Inr currentLeader \<Rightarrow>
           if currentLeader \<noteq> le_leaderID l then do {
             set_leader False; ret (Inl (Errorf ''leader renew: lost leadership''))
           } else renew_extend l
     }
   }"

text \<open>The second half of \<open>Release\<close>: delete the lock and step down.\<close>

definition release_delete :: "'s leaderElection \<Rightarrow> (('s, 'z) lstate_scheme, goerror + unit) state" where
  "release_delete l = do {
     _ \<leftarrow> on_world (Del (le_client l) [le_lockKey l]);
     set_leader False;
     ret (Inr ())
   }"

definition Release :: "'s leaderElection \<Rightarrow> (('s, 'z) lstate_scheme, goerror + unit) state" where
  "Release l = do {
     s \<leftarrow> read_state;
     if \<not> isLeader s then ret (Inr ())
     else do {
       r \<leftarrow> on_world (Get (le_client l) (le_lockKey l));
       case r of
         Inl err \<Rightarrow> do { set_leader False; ret (Inr ()) }
       | Inr currentLeader \<Rightarrow>
           if currentLeader = le_leaderID l then release_delete l
           else do { set_leader False; ret (Inr ()) }
     }
   }"

definition leader_IsLeader :: "('s, 'z) lstate_scheme \<Rightarrow> bool" where
  "leader_IsLeader s = isLeader s"

lemmas leader_defs = TryAcquire_def Renew_def renew_extend_def Release_def release_delete_def set_leader_def
  leader_IsLeader_def

section \<open>The interface\<close>

text \<open>
  What the users of the interface \<open>LeaderElection\<close> rely on: \<open>TryAcquire\<close> reports the flag it sets and
  keeps the flag on an error, \<open>Renew\<close> succeeds only for a leader and ends leadership when it fails,
  \<open>Release\<close> ends it and always succeeds.
\<close>

locale leader_election =
  fixes try_acquire :: "('t, goerror + bool) state"
    and renew :: "('t, goerror + unit) state"
    and release :: "('t, goerror + unit) state"
    and is_leader :: "'t \<Rightarrow> bool"
  assumes try_acquire_ok: "run_state try_acquire s = (Inr b, s') \<Longrightarrow> is_leader s' = b"
    and try_acquire_err: "run_state try_acquire s = (Inl e, s') \<Longrightarrow> is_leader s' = is_leader s"
    and renew_stranger: "\<not> is_leader s \<Longrightarrow> \<exists>e. run_state renew s = (Inl e, s)"
    and renew_ok: "run_state renew s = (Inr (), s') \<Longrightarrow> is_leader s \<and> is_leader s'"
    and renew_err: "run_state renew s = (Inl e, s') \<Longrightarrow> \<not> is_leader s'"
    and release_law: "run_state release s = (r, s') \<Longrightarrow> r = Inr () \<and> \<not> is_leader s'"
begin

text \<open>
  The upkeep that both users run at every renewal tick: \<open>Renew\<close> for a leader, \<open>TryAcquire\<close> otherwise.
  Afterwards the instance is leader exactly if the call it made succeeded.
\<close>

definition upkeep :: "('t, bool) state" where
  "upkeep = do {
     s \<leftarrow> read_state;
     if is_leader s then do { r \<leftarrow> renew; ret (r = Inr ()) }
     else do { r \<leftarrow> try_acquire; ret (r = Inr True) }
   }"

lemma upkeep_sound: "run_state upkeep s = (b, s') \<Longrightarrow> is_leader s' = b"
  by (auto simp: upkeep_def split: if_splits prod.splits dest: renew_ok renew_err try_acquire_ok try_acquire_err)
    (metis (full_types) Inr_not_Inl obj_sumE old.unit.exhaust renew_err renew_ok
      try_acquire_err try_acquire_ok)+

end

interpretation election: leader_election "TryAcquire l" "Renew l" "Release l" leader_IsLeader for l
  by unfold_locales
    (auto simp: leader_defs run_simps split: prod.splits sum.splits if_splits)

section \<open>Several instances\<close>

text \<open>
  A group of instances that compete for one lock: the server they share, the state of each (its
  breaker and its flag), and, for the statement only, the instant \<open>lease n\<close> at which the lock
  that instance \<open>n\<close> was last seen to hold runs out. An operation of one instance is one step; between
  them the clock advances and other clients use other keys.
\<close>

record 's cluster =
  shared :: 's
  inst :: "nat \<Rightarrow> 's lstate"
  lease :: "nat \<Rightarrow> int"

datatype lop = Acquiring | Renewing | Releasing

definition perform :: "lop \<Rightarrow> 's leaderElection \<Rightarrow> ('s lstate, unit) state" where
  "perform a l =
    (case a of Acquiring \<Rightarrow> do { _ \<leftarrow> TryAcquire l; ret () } | Renewing \<Rightarrow> do { _ \<leftarrow> Renew l; ret () }
     | Releasing \<Rightarrow> do { _ \<leftarrow> Release l; ret () })"

definition local :: "'s cluster \<Rightarrow> nat \<Rightarrow> 's lstate" where
  "local C n = (inst C n)\<lparr>lw := (lw (inst C n))\<lparr>srv := shared C\<rparr>\<rparr>"

definition settle :: "('s \<Rightarrow> rstate) \<Rightarrow> (nat \<Rightarrow> 's leaderElection) \<Rightarrow> nat \<Rightarrow> 's lstate \<Rightarrow> 's cluster \<Rightarrow> 's cluster" where
  "settle view els n s C =
    C\<lparr>shared := srv (lw s), inst := (inst C)(n := s),
      lease := (case db view (lw s) (le_lockKey (els n)) of
        Some (VStr i, Some e) \<Rightarrow> if i = le_leaderID (els n) then (lease C)(n := e) else lease C
      | _ \<Rightarrow> lease C)\<rparr>"

inductive cluster_step :: "('s \<Rightarrow> rstate) \<Rightarrow> ('s \<Rightarrow> int) \<Rightarrow> ('s \<Rightarrow> bool) \<Rightarrow> string \<Rightarrow> (nat \<Rightarrow> 's leaderElection) \<Rightarrow>
    's cluster \<Rightarrow> 's cluster \<Rightarrow> bool"
  for view :: "'s \<Rightarrow> rstate" and stime :: "'s \<Rightarrow> int" and up :: "'s \<Rightarrow> bool" and k :: string
    and els :: "nat \<Rightarrow> 's leaderElection" where
  operate: "run_state (perform a (els n)) (local C n) = ((), s) \<Longrightarrow>
    cluster_step view stime up k els C (settle view els n s C)"
| elapse: "up s \<Longrightarrow> stime (shared C) \<le> stime s \<Longrightarrow> keyspace (view s) k = keyspace (view (shared C)) k \<Longrightarrow>
    cluster_step view stime up k els C (C\<lparr>shared := s\<rparr>)"

text \<open>
  The instances of one group: the same client settings, the same lock and time to live, and an
  identifier each.
\<close>

definition group_of :: "'s client \<Rightarrow> string \<Rightarrow> int \<Rightarrow> (nat \<Rightarrow> 's leaderElection) \<Rightarrow> bool" where
  "group_of c k ttl els \<longleftrightarrow>
     (\<forall>n. le_client (els n) = c \<and> le_lockKey (els n) = k \<and> le_ttl (els n) = ttl) \<and> inj (\<lambda>n. le_leaderID (els n))"

text \<open>The invariant: a lock of an instance that believes it leads is still there, or has run out.\<close>

definition cluster_inv :: "('s \<Rightarrow> rstate) \<Rightarrow> ('s \<Rightarrow> int) \<Rightarrow> ('s \<Rightarrow> bool) \<Rightarrow> string \<Rightarrow> (nat \<Rightarrow> 's leaderElection) \<Rightarrow>
    's cluster \<Rightarrow> bool" where
  "cluster_inv view stime up k els C \<longleftrightarrow> up (shared C) \<and>
     (\<forall>n. isLeader (inst C n) \<longrightarrow>
        keyspace (view (shared C)) k = Some (VStr (le_leaderID (els n)), Some (lease C n)) \<or>
        lease C n \<le> stime (shared C))"

text \<open>
  What one operation of an instance can do to the lock, in the terms of the invariant: \<open>D\<close> and \<open>t\<close> are
  the keyspace and the clock before, \<open>D'\<close> and \<open>t'\<close> after it, \<open>f\<close> and \<open>f'\<close> the flag.
\<close>

definition lock_move :: "string \<Rightarrow> string \<Rightarrow> int \<Rightarrow> bool \<Rightarrow> keyspace \<Rightarrow> int \<Rightarrow> bool \<Rightarrow> keyspace \<Rightarrow> bool" where
  "lock_move k i t f D t' f' D' \<longleftrightarrow> t \<le> t' \<and>
     (D' k = D k \<and> (f' \<longrightarrow> f) \<or>
      (\<exists>e. D' k = Some (VStr i, Some e)) \<and>
        (D k = None \<or> (\<exists>v e. D k = Some (v, Some e) \<and> e \<le> t') \<or> (\<exists>e. D k = Some (VStr i, e))) \<or>
      \<not> f' \<and> (\<exists>e. D k = Some (VStr i, e)))"

context redis_server begin

lemma TryAcquire_move:
  assumes "le_client l = c" "0 < le_ttl l" "up (srv (lw s))" "run_state (TryAcquire l) s = (r, s')"
  shows "up (srv (lw s')) \<and>
    lock_move (le_lockKey l) (le_leaderID l) (stime (srv (lw s))) (isLeader s) (db view (lw s))
      (stime (srv (lw s'))) (isLeader s') (db view (lw s'))"
proof -
  obtain b w where b: "run_state (SetNX c (le_lockKey l) (le_leaderID l) (le_ttl l)) (lw s) = (b, w)" by (rule prod.exhaust)
  then have s': "s' = (case b of Inl e \<Rightarrow> s\<lparr>lw := w\<rparr> | Inr f \<Rightarrow> s\<lparr>lw := w, isLeader := f\<rparr>)"
    using assms(1,4) by (auto simp: leader_defs run_simps split: sum.splits)
  note u = SetNX_up [OF assms(3) b]
  show ?thesis
  proof (cases "b = Inr True")
    case True
    then obtain t where t: "stime (srv (lw s)) \<le> t" "t \<le> stime (srv w)" "lookup t (db view (lw s)) (le_lockKey l) = None"
      "db view w = put_str (le_lockKey l) (le_leaderID l) (expiry t (le_ttl l)) (db view (lw s))"
      using u by (metis Inr_Inl_False Inr_inject)
    then have "db view (lw s) (le_lockKey l) = None \<or>
        (\<exists>v e. db view (lw s) (le_lockKey l) = Some (v, Some e) \<and> e \<le> stime (srv w))"
      by (auto simp: lookup_def split: option.splits if_splits)
    then show ?thesis using u t assms(2) True by (auto simp: s' lock_move_def expiry_def put_str_def)
  next
    case False
    then show ?thesis using u by (cases b) (auto simp: s' lock_move_def split: if_splits)
  qed
qed

lemma Renew_move:
  assumes "le_client l = c" "0 < le_ttl l" "up (srv (lw s))" "run_state (Renew l) s = (r, s')"
  shows "up (srv (lw s')) \<and>
    lock_move (le_lockKey l) (le_leaderID l) (stime (srv (lw s))) (isLeader s) (db view (lw s))
      (stime (srv (lw s'))) (isLeader s') (db view (lw s'))"
proof (cases "isLeader s")
  case True
  obtain g w where g: "run_state (Get c (le_lockKey l)) (lw s) = (g, w)" by (rule prod.exhaust)
  note gu = Get_up [OF assms(3) g]
  show ?thesis
  proof (cases "g = Inr (le_leaderID l)")
    case False
    then have "s' = s\<lparr>lw := w, isLeader := False\<rparr>"
      using assms(1,4) True g by (auto simp: leader_defs run_simps split: sum.splits if_splits)
    then show ?thesis using gu by (simp add: lock_move_def)
  next
    case own: True
    obtain x w' where x: "run_state (Expire c (le_lockKey l) (le_ttl l)) w = (x, w')" by (rule prod.exhaust)
    have s': "s' = (case x of Inl e \<Rightarrow> s\<lparr>lw := w', isLeader := False\<rparr> | Inr _ \<Rightarrow> s\<lparr>lw := w'\<rparr>)"
      using assms(1,4) True g own x by (auto simp: leader_defs run_simps split: sum.splits)
    have pos: "0 < ttl_secs (le_ttl l)" using assms(2) by (auto simp: ttl_secs_def pos_imp_zdiv_pos_iff)
    obtain e where e: "db view (lw s) (le_lockKey l) = Some (VStr (le_leaderID l), e)" using gu own by auto
    from gu have "up (srv w)" by simp
    note xu = Expire_up [OF this x]
    have "db view w' = db view (lw s) \<or>
        (\<exists>t. db view w' = (db view (lw s))(le_lockKey l \<mapsto> (VStr (le_leaderID l), Some t)))"
      using xu gu e pos by (auto simp: lookup_def split: option.splits if_splits)
    then show ?thesis using xu gu e True by (cases x) (auto simp: s' lock_move_def)
  qed
next
  case False
  then have "s' = s" using assms(4) by (simp add: leader_defs run_simps)
  then show ?thesis using assms(3) by (simp add: lock_move_def)
qed

lemma Release_move:
  assumes "le_client l = c" "up (srv (lw s))" "run_state (Release l) s = (r, s')"
  shows "up (srv (lw s')) \<and>
    lock_move (le_lockKey l) (le_leaderID l) (stime (srv (lw s))) (isLeader s) (db view (lw s))
      (stime (srv (lw s'))) (isLeader s') (db view (lw s'))"
proof (cases "isLeader s")
  case True
  obtain g w where g: "run_state (Get c (le_lockKey l)) (lw s) = (g, w)" by (rule prod.exhaust)
  note gu = Get_up [OF assms(2) g]
  show ?thesis
  proof (cases "g = Inr (le_leaderID l)")
    case False
    then have "s' = s\<lparr>lw := w, isLeader := False\<rparr>"
      using assms(1,3) True g by (auto simp: leader_defs run_simps split: sum.splits if_splits)
    then show ?thesis using gu by (simp add: lock_move_def)
  next
    case own: True
    obtain x w' where x: "run_state (Del c [le_lockKey l]) w = (x, w')" by (rule prod.exhaust)
    have s': "s' = s\<lparr>lw := w', isLeader := False\<rparr>"
      using assms(1,3) True g own x by (auto simp: leader_defs run_simps)
    from gu have "up (srv w)" by simp
    from Del_up [OF this x] show ?thesis using gu own by (auto simp: s' lock_move_def)
  qed
next
  case False
  then have "s' = s" using assms(3) by (simp add: leader_defs run_simps)
  then show ?thesis using assms(2) by (simp add: lock_move_def)
qed

lemma perform_move:
  assumes "le_client l = c" "0 < le_ttl l" "up (srv (lw s))" "run_state (perform a l) s = ((), s')"
  shows "up (srv (lw s')) \<and>
    lock_move (le_lockKey l) (le_leaderID l) (stime (srv (lw s))) (isLeader s) (db view (lw s))
      (stime (srv (lw s'))) (isLeader s') (db view (lw s'))"
  using assms TryAcquire_move [OF assms(1-3)] Renew_move [OF assms(1-3)] Release_move [OF assms(1,3)]
  by (cases a) (auto simp: perform_def split: prod.splits)

lemma cluster_step_inv:
  assumes g: "group_of c k ttl els" "0 < ttl" and inv: "cluster_inv view stime up k els C"
    and step: "cluster_step view stime up k els C C'"
  shows "cluster_inv view stime up k els C'"
  using step
proof cases
  case (operate a n s)
  have l: "le_client (els m) = c" "le_lockKey (els m) = k" "le_ttl (els m) = ttl" for m
    using g(1) by (simp_all add: group_of_def)
  have loc: "srv (lw (local C n)) = shared C" "isLeader (local C n) = isLeader (inst C n)"
    "db view (lw (local C n)) = keyspace (view (shared C))"
    by (simp_all add: local_def db_def)
  have u: "up (shared C)" using inv by (simp add: cluster_inv_def)
  have m: "up (srv (lw s))" "lock_move k (le_leaderID (els n)) (stime (shared C)) (isLeader (inst C n))
      (keyspace (view (shared C))) (stime (srv (lw s))) (isLeader s) (keyspace (view (srv (lw s))))"
    using perform_move [of "els n" "local C n" a s] l g(2) operate(2) u loc by (simp_all add: db_def)
  have old: "isLeader (inst C j) \<Longrightarrow>
      keyspace (view (shared C)) k = Some (VStr (le_leaderID (els j)), Some (lease C j)) \<or> lease C j \<le> stime (shared C)" for j
    using inv by (simp add: cluster_inv_def)
  have inj: "le_leaderID (els i) = le_leaderID (els j) \<longleftrightarrow> i = j" for i j
    using g(1) by (auto simp: group_of_def dest: injD)
  show ?thesis
    unfolding cluster_inv_def operate(1)
  proof (intro conjI allI impI)
    show "up (shared (settle view els n s C))" using m(1) by (simp add: settle_def)
    fix j assume j: "isLeader (inst (settle view els n s C) j)"
    show "keyspace (view (shared (settle view els n s C))) k =
        Some (VStr (le_leaderID (els j)), Some (lease (settle view els n s C) j)) \<or>
      lease (settle view els n s C) j \<le> stime (shared (settle view els n s C))"
    proof (cases "j = n")
      case True
      then have "isLeader s" using j by (simp add: settle_def)
      then show ?thesis using m(2) old [of n] l True
        by (auto simp: settle_def lock_move_def db_def split: option.splits rval.splits)
    next
      case False
      then have lj: "isLeader (inst C j)" "lease (settle view els n s C) j = lease C j" "le_leaderID (els n) \<noteq> le_leaderID (els j)"
        using j inj by (auto simp: settle_def split: option.splits rval.splits)
      then show ?thesis using m(2) old [of j]
        by (auto simp: settle_def lock_move_def)
    qed
  qed
next
  case (elapse s)
  then show ?thesis using inv by (fastforce simp: cluster_inv_def)
qed

end

section \<open>At most one leader\<close>


text \<open>A group in memory in which instance 0 takes the lock and instance 1 tries to.\<close>

definition mem_election :: "nat \<Rightarrow> memory leaderElection" where
  "mem_election n = NewLeaderElection mem_client (DefaultLeaderConfig (format_nat n))"

definition mem_cluster :: "memory cluster" where
  "mem_cluster = \<lparr>shared = mem_start, inst = (\<lambda>_. \<lparr>lw = mem_world, isLeader = False\<rparr>), lease = (\<lambda>_. 0)\<rparr>"

definition cluster_after :: "lop \<Rightarrow> nat \<Rightarrow> memory cluster \<Rightarrow> memory cluster" where
  "cluster_after a n C = settle mem mem_election n (snd (run_state (perform a (mem_election n)) (local C n))) C"

lemma cluster_after_step:
  "cluster_step mem ms alive ''titan:watchdog:leader'' mem_election C (cluster_after a n C)"
  unfolding cluster_after_def by (rule operate [of a]) (simp add: prod_eq_iff)

lemma mem_group: "group_of mem_client ''titan:watchdog:leader'' (30 * second) mem_election"
proof -
  have "inj format_nat" by (metis injI option.inject parse_format_nat)
  then show ?thesis by (simp add: group_of_def mem_election_def NewLeaderElection_def DefaultLeaderConfig_def)
qed

lemma mem_acquire:
  assumes "alive (shared C)" "cstate (lw (inst C n)) = circuitClosed"
    and "keyspace (mem (shared C)) ''titan:watchdog:leader'' = None"
  defines "e \<equiv> ms (shared C) + 30000"
  shows "shared (cluster_after Acquiring n C) = (shared C)\<lparr>mem := (mem (shared C))\<lparr>keyspace :=
      put_str ''titan:watchdog:leader'' (format_nat n) (Some e) (keyspace (mem (shared C)))\<rparr>\<rparr>"
    and "isLeader (inst (cluster_after Acquiring n C) n)" "lease (cluster_after Acquiring n C) n = e"
proof -
  define s where "s = local C n"
  have s: "alive (srv (lw s))" "cstate (lw s) = circuitClosed" "srv (lw s) = shared C" "inst C n = s\<lparr>lw := lw (inst C n)\<rparr>"
    using assms by (simp_all add: s_def local_def)
  have r: "run_state (SetNX mem_client ''titan:watchdog:leader'' (format_nat n) 30000000000) (lw s) =
      (Inr True, (lw s)\<lparr>srv := (shared C)\<lparr>mem := (mem (shared C))\<lparr>keyspace :=
         put_str ''titan:watchdog:leader'' (format_nat n) (Some e) (keyspace (mem (shared C)))\<rparr>\<rparr>,
       failures := 0, cstate := circuitClosed\<rparr>)"
    using s assms(1,3) by (simp add: SetNX_def run_call run_checkCircuit mem_client_def mem_env_def exec_def
        lookup_def expiry_def ttl_ms_def as_bool_def e_def)
  note d = cluster_after_def settle_def perform_def leader_defs run_simps mem_election_def
    NewLeaderElection_def DefaultLeaderConfig_def s_def [symmetric] r put_str_def db_def
  show "shared (cluster_after Acquiring n C) = (shared C)\<lparr>mem := (mem (shared C))\<lparr>keyspace :=
      put_str ''titan:watchdog:leader'' (format_nat n) (Some e) (keyspace (mem (shared C)))\<rparr>\<rparr>"
    "isLeader (inst (cluster_after Acquiring n C) n)" "lease (cluster_after Acquiring n C) n = e"
    by (simp_all add: d)
qed


text \<open>C23. The check and the action of \<open>Renew\<close> and \<open>Release\<close> are separate commands, and the action does
  not look again: once its check has passed, \<open>Release\<close> deletes the lock whoever holds it by then, and
  \<open>Renew\<close> reports success and keeps the flag although the lock is gone, because the answer of
  \<open>EXPIRE\<close> is not read.\<close>

theorem check_then_act:
  assumes r: "redis_server c view stime up sha rnd" and s: "ready up (lw s)" and l: "le_client l = c"
  shows "(\<exists>s'. run_state (release_delete l) s = (Inr (), s') \<and> db view (lw s') (le_lockKey l) = None) \<and>
    (db view (lw s) (le_lockKey l) = None \<longrightarrow>
      (\<exists>s'. run_state (renew_extend l) s = (Inr (), s') \<and> isLeader s' = isLeader s \<and>
        db view (lw s') (le_lockKey l) = None))"
proof (intro conjI impI)
  show "\<exists>s'. run_state (release_delete l) s = (Inr (), s') \<and> db view (lw s') (le_lockKey l) = None"
    using redis_server.Del_run [OF r s] redis_server.Del_db [OF r s] l by (simp add: leader_defs run_simps rm_def)
  assume n: "db view (lw s) (le_lockKey l) = None"
  let ?k = "le_lockKey l" and ?d = "le_ttl l"
  have x: "exec_basic rnd t (EXPIRE ?k ?d) (db view (lw s)) = (Inr (RInt 0), db view (lw s))" for t
    using lookup_absent [of "db view (lw s)" ?k t] n by simp
  have "run_state (Expire c ?k ?d) (lw s) = (Inr False, sent c (EXPIRE ?k ?d) (lw s))"
    unfolding Expire_def by (rule redis_server.run_basic [OF r s]) (simp_all add: x as_bool_def del: exec_basic.simps)
  moreover have "db view (sent c (EXPIRE ?k ?d) (lw s)) = db view (lw s)"
    by (rule redis_server.db_sent [OF r s]) (simp_all add: x del: exec_basic.simps)
  ultimately show "\<exists>s'. run_state (renew_extend l) s = (Inr (), s') \<and> isLeader s' = isLeader s \<and>
      db view (lw s') ?k = None"
    using l n by (simp add: leader_defs run_simps)
qed

theorem check_then_act_witness:
  "\<exists>s'. run_state (renew_extend (mem_election 7)) \<lparr>lw = mem_world, isLeader = True\<rparr> = (Inr (), s') \<and> isLeader s'"
  using check_then_act [OF memory_contract, of "\<lparr>lw = mem_world, isLeader = True\<rparr>" "mem_election 7"]
  by (auto simp: mem_election_def NewLeaderElection_def)

end
