(* ===== verification/Watchdog.thy ===== *)
theory Watchdog
  imports Leader Queue
begin

text \<open>
  The watchdog (\<open>internal/watchdog/watchdog.go\<close>): a background service that, while it is the leader,
  looks for jobs that have been in processing for longer than the visibility timeout and puts them
  back into a pending list or with the dead letters. Logging is left out.
\<close>

section \<open>Configuration and state\<close>

record watchdog_Config =
  ScanInterval :: int
  VisibilityTimeout :: int
  MaxRecoverPerScan :: int
  wd_LeaderConfig :: LeaderConfig
  wd_Prefix :: string

definition watchdog_DefaultConfig :: "string \<Rightarrow> watchdog_Config" where
  "watchdog_DefaultConfig workerID = \<lparr>ScanInterval = 60 * second, VisibilityTimeout = 5 * minute,
     MaxRecoverPerScan = 100, wd_LeaderConfig = DefaultLeaderConfig workerID, wd_Prefix = ''titan''\<rparr>"

record 's Watchdog =
  wclient :: "'s client"
  wqueue :: "'s queue"
  wleader :: "'s leaderElection"
  wcfg :: watchdog_Config

text \<open>
  The mutable part: the leader flag, \<open>running\<close>, and whether \<open>stopCh\<close> has been closed. The scheduler
  has the same fields.
\<close>

record 's service = "'s lstate" +
  svc_running :: bool
  stopCh_closed :: bool

definition watchdog_New :: "'s client \<Rightarrow> 's queue \<Rightarrow> watchdog_Config \<Rightarrow> 's world \<Rightarrow> 's Watchdog \<times> 's service" where
  "watchdog_New c q cfg w =
    (\<lparr>wclient = c, wqueue = q, wleader = NewLeaderElection c (wd_LeaderConfig cfg), wcfg = cfg\<rparr>,
     \<lparr>lw = w, isLeader = False, svc_running = False, stopCh_closed = False\<rparr>)"

section \<open>Recovery\<close>

definition findStuckJobs :: "'s Watchdog \<Rightarrow> ('s world, goerror + string list) state" where
  "findStuckJobs w = do {
     t \<leftarrow> now (wclient w);
     let threshold = time_Unix (time_Add t (i64 (- VisibilityTimeout (wcfg w))));
     ZRangeByScore (wclient w) (wd_Prefix (wcfg w) @ '':processing:timestamps'')
       \<lparr>Min = ''-inf'', Max = format_int threshold, Offset = 0, Count = MaxRecoverPerScan (wcfg w)\<rparr>
   }"

text \<open>The job that recovery stores: one more attempt, dead when that exhausts the retries.\<close>

definition recovered :: "gotime \<Rightarrow> Job \<Rightarrow> Job" where
  "recovered t j =
    (let j = j\<lparr>Attempts := i64 (Attempts j + 1)\<rparr> in
     if Attempts j \<ge> MaxRetries j
     then MarkDead t ''recovered after visibility timeout - max retries exceeded'' j
     else j\<lparr>Status := StatusPending, LastError := ''recovered after visibility timeout''\<rparr>)"

definition recoverJob :: "'s Watchdog \<Rightarrow> string \<Rightarrow> ('s world, goerror + unit) state" where
  "recoverJob w jobID =
    or_return (GetJob (wqueue w) jobID) id (\<lambda>j. do {
      t \<leftarrow> (if i64 (Attempts j + 1) \<ge> MaxRetries j then now (wclient w) else ret zero_time);
      let j = recovered t j;
      let p = wd_Prefix (wcfg w);
      or_return (ZRem (wclient w) (p @ '':processing:timestamps'') [jobID]) id (\<lambda>_.
      or_return (LRem (wclient w) (p @ '':queue:processing'') 1 jobID) id (\<lambda>_. do {
        _ \<leftarrow> Del (wclient w) [p @ '':job:'' @ jobID @ '':lock''];
        or_return (ret (Marshal j)) id (\<lambda>data.
        or_return (Set (wclient w) (p @ '':job:'' @ jobID) data 0) id (\<lambda>_.
        if Status j = StatusDead then LPush (wclient w) (p @ '':queue:dead'') [jobID]
        else LPush (wclient w) (GetPriorityQueueKey p (Priority j)) [jobID]))
      }))
    })"

fun recover_each :: "'s Watchdog \<Rightarrow> string list \<Rightarrow> ('s world, unit) state" where
  "recover_each w [] = ret ()"
| "recover_each w (jobID # jobIDs) = do { _ \<leftarrow> recoverJob w jobID; recover_each w jobIDs }"

definition scanAndRecover :: "'s Watchdog \<Rightarrow> (('s, 'z) lstate_scheme, unit) state" where
  "scanAndRecover w = do {
     s \<leftarrow> read_state;
     if \<not> leader_IsLeader s then ret ()
     else do {
       r \<leftarrow> on_world (findStuckJobs w);
       case r of
         Inl err \<Rightarrow> ret ()
       | Inr stuckJobs \<Rightarrow> if length stuckJobs = 0 then ret () else on_world (recover_each w stuckJobs)
     }
   }"

section \<open>The service\<close>

definition watchdog_tryMaintainLeadership :: "'s Watchdog \<Rightarrow> (('s, 'z) lstate_scheme, unit) state" where
  "watchdog_tryMaintainLeadership w = do {
     s \<leftarrow> read_state;
     if leader_IsLeader s then do { _ \<leftarrow> Renew (wleader w); ret () }
     else do { _ \<leftarrow> TryAcquire (wleader w); ret () }
   }"

text \<open>What the select statement of \<open>run\<close> receives.\<close>

datatype service_event = CtxDone | StopRequested | RenewTick | WorkTick

fun watchdog_run :: "'s Watchdog \<Rightarrow> service_event list \<Rightarrow> (('s, 'z) lstate_scheme, unit) state" where
  "watchdog_run w [] = ret ()"
| "watchdog_run w (e # es) =
    (case e of
       CtxDone \<Rightarrow> ret ()
     | StopRequested \<Rightarrow> ret ()
     | RenewTick \<Rightarrow> do { watchdog_tryMaintainLeadership w; watchdog_run w es }
     | WorkTick \<Rightarrow> do { scanAndRecover w; watchdog_run w es })"

text \<open>\<open>Start\<close> says whether it launched the goroutine; \<open>Stop\<close> panics when \<open>stopCh\<close> is closed already.\<close>

definition watchdog_Start :: "(('s, 'z) service_scheme, bool) state" where
  "watchdog_Start = do {
     s \<leftarrow> read_state;
     if svc_running s then ret False
     else do { modify_state (\<lambda>s. s\<lparr>svc_running := True\<rparr>); ret True }
   }"

definition watchdog_Stop :: "'s Watchdog \<Rightarrow> (('s, 'z) service_scheme, unit outcome) state" where
  "watchdog_Stop w = do {
     s \<leftarrow> read_state;
     if \<not> svc_running s then ret (Returned ())
     else do {
       modify_state (\<lambda>s. s\<lparr>svc_running := False\<rparr>);
       if stopCh_closed s then ret (Panicked close_of_closed)
       else do {
         modify_state (\<lambda>s. s\<lparr>stopCh_closed := True\<rparr>);
         _ \<leftarrow> Release (wleader w);
         ret (Returned ())
       }
     }
   }"

definition watchdog_IsLeader :: "('s, 'z) lstate_scheme \<Rightarrow> bool" where
  "watchdog_IsLeader s = leader_IsLeader s"

end
