(* ===== verification/Watchdog_Theorems.thy ===== *)
theory Watchdog_Theorems
  imports Watchdog Queue_Theorems
begin

text \<open>
  Correctness of the watchdog on a working link: recovery refines the abstract retry and burial of the
  queue, a scan recovers the overdue jobs and no others, only the leader scans, and what happens to
  jobs whose text cannot be read.
\<close>

section \<open>Recovery of one job\<close>

text \<open>The keyspace after a recovery that pushes to the list \<open>dest\<close>.\<close>

definition recovered_db :: "'s queue \<Rightarrow> string \<Rightarrow> string \<Rightarrow> string \<Rightarrow> keyspace \<Rightarrow> keyspace" where
  "recovered_db q dest i d D =
    (let D1 = put_zset (timestampsKey q) (zrem [i] (zset_of D (timestampsKey q))) None D;
         D2 = rm (lockKey q i) (put_list (processingKey q) (remove1 i (list_of D (processingKey q))) None D1);
         D3 = put_str (jobKey q i) d None D2
     in put_list dest (i # list_of D3 dest) None D3)"

text \<open>A watchdog over the queue's own client and keys.\<close>

locale watchdog_on_redis = queue_on_redis c view stime up sha rnd q
  for c :: "'s client" and view :: "'s \<Rightarrow> rstate" and stime :: "'s \<Rightarrow> int" and up :: "'s \<Rightarrow> bool"
    and sha :: "script \<Rightarrow> string" and rnd :: string and q :: "'s queue" +
  fixes wd :: "'s Watchdog"
  assumes wd_parts: "wclient wd = c" "wqueue wd = q" "wd_Prefix (wcfg wd) = Prefix (qopts q)"

lemma wd_keys:
  "Prefix (qopts q) @ '':processing:timestamps'' = timestampsKey q"
  "Prefix (qopts q) @ '':queue:processing'' = processingKey q"
  "Prefix (qopts q) @ '':queue:dead'' = dlqKey q"
  "Prefix (qopts q) @ '':job:'' @ i = jobKey q i"
  "jobKey q (i @ '':lock'') = lockKey q i"
  by (simp_all add: key_defs)

lemma recovered_simps [simp]:
  "ID (recovered t j) = ID j" "Priority (recovered t j) = Priority j" "MaxRetries (recovered t j) = MaxRetries j"
  "Attempts (recovered t j) = i64 (Attempts j + 1)"
  "Status (recovered t j) = (if i64 (Attempts j + 1) \<ge> MaxRetries j then StatusDead else StatusPending)"
  by (simp_all add: recovered_def Let_def MarkDead_def)

lemma recovery_texts:
  "valid_utf8 ''recovered after visibility timeout - max retries exceeded''"
  "valid_utf8 ''recovered after visibility timeout''"
  by (simp_all add: utf8_size.simps)

lemma recovered_wf:
  "job_wf j \<Longrightarrow> (MaxRetries j \<le> i64 (Attempts j + 1) \<Longrightarrow> time_wf (time_UTC t)) \<Longrightarrow> job_wf (recovered t j)"
  using recovery_texts by (simp add: job_wf_def recovered_def Let_def MarkDead_def status_known_def del: valid_utf8.simps)

definition a_recover :: "string \<Rightarrow> Job \<Rightarrow> aqueue \<Rightarrow> aqueue" where
  "a_recover i j a =
    (if Status j = StatusDead then a_bury i (job_text j) a else a_retry (level_of (Priority j)) i (job_text j) a)"

context watchdog_on_redis begin

text \<open>The writes of a recovery, one after the other.\<close>

lemma recovery_writes:
  assumes w: "queue_ready view up q w" and dest: "dest = dlqKey q \<or> (\<exists>l. dest = pending_key (Prefix (qopts q)) l)"
  obtains w3 w4 w5 w6 w7 where "run_state (ZRem c (timestampsKey q) [i]) w = (Inr (), w3)"
    "run_state (LRem c (processingKey q) 1 i) w3 = (Inr (), w4)" "run_state (Del c [lockKey q i]) w4 = (Inr (), w5)"
    "run_state (Set c (jobKey q i) d 0) w5 = (Inr (), w6)" "run_state (LPush c dest [i]) w6 = (Inr (), w7)"
    "queue_ready view up q w7" "db view w7 = recovered_db q dest i d (db view w)"
proof -
  define w3 where "w3 = sent c (ZREM (timestampsKey q) [i]) w"
  note r2 = queue_readyD [OF w]
  have d3: "db view w3 = put_zset (timestampsKey q) (zrem [i] (zset_of (db view w) (timestampsKey q))) None (db view w)"
    using r2(1,7) by (simp add: w3_def)
  have w3: "queue_ready view up q w3"
    unfolding w3_def by (rule queue_ready_sent [OF w]) (use d3 r2(2) in \<open>simp_all add: w3_def\<close>)
  note r3 = queue_readyD [OF w3]
  define w4 where "w4 = sent c (LREM (processingKey q) 1 i) w3"
  have d4: "db view w4 = put_list (processingKey q) (remove1 i (list_of (db view w) (processingKey q))) None (db view w3)"
    using r3(1,5) by (simp add: w4_def d3 key_simps)
  have w4: "queue_ready view up q w4"
    unfolding w4_def by (rule queue_ready_sent [OF w3]) (use d4 r3(2) in \<open>simp_all add: w4_def\<close>)
  note r4 = queue_readyD [OF w4]
  define w5 where "w5 = sent c (DEL [lockKey q i]) w4"
  have d5: "db view w5 = rm (lockKey q i) (db view w4)" using r4(1) by (simp add: w5_def)
  have w5: "queue_ready view up q w5"
    unfolding w5_def by (rule queue_ready_sent [OF w4]) (use d5 r4(2) in \<open>simp_all add: w5_def\<close>)
  define w6 where "w6 = sent c (SET (jobKey q i) d 0) w5"
  note st = set_job [OF w5, of i d, folded w6_def]
  note r6 = queue_readyD [OF st(2)]
  have l: "is_list (db view w6) dest" using r6(4,6) dest by auto
  define w7 where "w7 = sent c (LPUSH dest [i]) w6"
  have d7: "db view w7 = put_list dest (i # list_of (db view w6) dest) None (db view w6)"
    using r6(1) l by (simp add: w7_def)
  have w7: "queue_ready view up q w7"
    unfolding w7_def by (rule queue_ready_sent [OF st(2)]) (use d7 r6(2) dest in \<open>auto simp: w7_def\<close>)
  have "db view w7 = recovered_db q dest i d (db view w)" by (simp only: d7 st(3) d5 d4 d3 recovered_db_def Let_def)
  then show thesis
    by (intro that [of w3 w4 w5 w6 w7])
      (use r2(1,7) r3(1,5) r4(1) st(1) r6(1) l w7 in \<open>simp_all add: run_simps q_client w3_def w4_def w5_def w7_def\<close>)
qed

lemma recoverJob_run:
  assumes w: "queue_ready view up q w" and j: "stored (queue_view q (db view w)) i = Some (job_text j)" "job_wf j"
    and lock: "stored (queue_view q (db view w)) (i @ '':lock'') = None"
  obtains t w' where "run_state (recoverJob wd i) w = (Inr (), w')" "queue_ready view up q w'"
    "job_wf (recovered t (stored_form j))"
    "queue_view q (db view w') = a_recover i (recovered t (stored_form j)) (queue_view q (db view w))"
proof -
  define w1 where "w1 = sent c (GET (jobKey q i)) w"
  note g = GetJob_run [OF w j(1), folded w1_def]
  define dies where "dies \<longleftrightarrow> MaxRetries j \<le> i64 (Attempts j + 1)"
  define t where "t = (if dies then clock_of c w1 else zero_time)"
  define w2 where "w2 = (if dies then ticked c w1 else w1)"
  define j' where "j' = recovered t (stored_form j)"
  define dest where "dest = (if dies then dlqKey q else pending_key (Prefix (qopts q)) (level_of (Priority j)))"
  have "dies \<Longrightarrow> time_wf (time_UTC t)" using clock_laws(3) by (simp add: t_def)
  then have wf: "job_wf j'" using recovered_wf [of "stored_form j" t] j(2) by (simp add: j'_def dies_def)
  have w2: "queue_ready view up q w2" "db view w2 = db view w" using g(2,3) by (simp_all add: w2_def)
  have "dest = dlqKey q \<or> (\<exists>l. dest = pending_key (Prefix (qopts q)) l)" by (auto simp: dest_def)
  then obtain w3 w4 w5 w6 w7 where a: "run_state (ZRem c (timestampsKey q) [i]) w2 = (Inr (), w3)"
    "run_state (LRem c (processingKey q) 1 i) w3 = (Inr (), w4)" "run_state (Del c [lockKey q i]) w4 = (Inr (), w5)"
    "run_state (Set c (jobKey q i) (job_text j') 0) w5 = (Inr (), w6)" "run_state (LPush c dest [i]) w6 = (Inr (), w7)"
    and w7: "queue_ready view up q w7" "db view w7 = recovered_db q dest i (job_text j') (db view w)"
    by (rule recovery_writes [OF w2(1), of dest i "job_text j'"]) (auto simp: w2(2))
  have st': "Status j' = StatusDead \<longleftrightarrow> dies" by (simp add: j'_def dies_def)
  note d = recoverJob_def wd_parts wd_keys wd_keys(4) [simplified] run_simps Unmarshal_job [OF j(2)] Let_def
    Marshal_job_text [OF wf] GetPriorityQueueKey_level
  have "run_state (recoverJob wd i) w = (Inr (), w7)"
  proof (cases dies)
    case True
    then have "recovered (clock_of c w1) (stored_form j) = j'" "w2 = ticked c w1" "dest = dlqKey q" "MaxRetries j \<le> i64 (Attempts j + 1)"
      by (simp_all add: j'_def t_def w2_def dest_def dies_def)
    then show ?thesis using a g(1) True st' by (simp add: d)
  next
    case False
    then have "recovered zero_time (stored_form j) = j'" "w2 = w1" "Priority j' = Priority j"
      "dest = pending_key (Prefix (qopts q)) (level_of (Priority j))" "\<not> MaxRetries j \<le> i64 (Attempts j + 1)"
      by (simp_all add: j'_def t_def w2_def dest_def dies_def)
    then show ?thesis using a g(1) False st' by (simp add: d)
  qed
  moreover have "queue_view q (db view w7) = a_recover i j' (queue_view q (db view w))"
    using fun_upd_idem [of "stored (queue_view q (db view w))", OF lock] st'
    by (simp add: w7(2) recovered_db_def dest_def a_recover_def a_bury_def a_retry_def a_enqueue_def a_ack_def key_simps j'_def)
  ultimately show thesis using that [of w7 t] w7(1) wf by (simp add: j'_def)
qed

end

section \<open>A scan\<close>

text \<open>The identifiers that went into processing at second \<open>thr\<close> or before, oldest first.\<close>

definition overdue :: "int \<Rightarrow> aqueue \<Rightarrow> string list" where
  "overdue thr a = map snd (filter (\<lambda>p. fst p \<le> thr) (started a))"

definition threshold :: "'s Watchdog \<Rightarrow> 's world \<Rightarrow> int" where
  "threshold wd w = time_Unix (time_Add (clock_of (wclient wd) w) (i64 (- VisibilityTimeout (wcfg wd))))"

definition recoverable :: "aqueue \<Rightarrow> string \<Rightarrow> bool" where
  "recoverable a i \<longleftrightarrow> (\<exists>j. stored a i = Some (job_text j) \<and> job_wf j)"

text \<open>What recovering a list of identifiers does.\<close>

definition recovery :: "string list \<Rightarrow> aqueue \<Rightarrow> aqueue \<Rightarrow> bool" where
  "recovery is a a' \<longleftrightarrow>
     running a' = fold remove1 is (running a) \<and> started a' = zrem is (started a) \<and>
     (\<forall>i. i \<notin> set is \<longrightarrow> stored a' i = stored a i) \<and>
     (\<forall>i \<in> set is. \<exists>t j. stored_job a i = Some j \<and> stored a' i = Some (job_text (recovered t j))) \<and>
     (mset is \<subseteq># mset (running a) \<longrightarrow> all_ids a' = all_ids a)"

lemma a_recover_simps [simp]:
  "running (a_recover i j a) = remove1 i (running a)" "started (a_recover i j a) = zrem [i] (started a)"
  "stored (a_recover i j a) = (stored a)(i \<mapsto> job_text j)"
  by (simp_all add: a_recover_def a_bury_def a_retry_def a_enqueue_def a_ack_def)

lemma all_ids_recover: "i \<in> set (running a) \<Longrightarrow> all_ids (a_recover i j a) = all_ids a"
  by (simp add: a_recover_def all_ids_bury all_ids_retry)

lemma zrem_Cons: "zrem is (zrem [i] zs) = zrem (i # is) zs"
  by (simp add: zrem_def)

lemma stored_job_text: "stored a i = Some (job_text j) \<Longrightarrow> job_wf j \<Longrightarrow> stored_job a i = Some (stored_form j)"
  by (simp add: stored_job_def Unmarshal_job)

lemma recovery_Cons:
  assumes "recoverable a i" "i \<notin> set is"
    and "stored_job a i = Some j" "recovery is (a_recover i (recovered t j) a) a'"
  shows "recovery (i # is) a a'"
proof -
  let ?b = "a_recover i (recovered t j) a"
  have jobs: "stored_job ?b k = stored_job a k" if "k \<noteq> i" for k using that by (simp add: stored_job_def)
  have m: "mset is \<subseteq># mset (running ?b) \<and> i \<in> set (running a)" if "mset (i # is) \<subseteq># mset (running a)"
    using that by (metis a_recover_simps(1) insert_subset_eq_iff mset.simps(2) mset_remove1 set_mset_mset)
  show ?thesis
    unfolding recovery_def
  proof (intro conjI)
    show "running a' = fold remove1 (i # is) (running a)" "started a' = zrem (i # is) (started a)"
      "\<forall>k. k \<notin> set (i # is) \<longrightarrow> stored a' k = stored a k"
      using assms(4) by (simp_all add: recovery_def zrem_Cons)
    have "stored a' i = Some (job_text (recovered t j))" using assms(2,4) by (simp add: recovery_def)
    then show "\<forall>k \<in> set (i # is). \<exists>t j. stored_job a k = Some j \<and> stored a' k = Some (job_text (recovered t j))"
      using assms(2-4) jobs by (simp add: recovery_def) metis
    show "mset (i # is) \<subseteq># mset (running a) \<longrightarrow> all_ids a' = all_ids a"
      using assms(4) m all_ids_recover by (auto simp: recovery_def)
  qed
qed

context watchdog_on_redis begin

lemma findStuckJobs_run:
  assumes w: "queue_ready view up q w" and n: "0 < MaxRecoverPerScan (wcfg wd)"
  obtains w' where "queue_ready view up q w'" "db view w' = db view w"
    "run_state (findStuckJobs wd) w =
      (Inr (take (nat (MaxRecoverPerScan (wcfg wd))) (overdue (threshold wd w) (queue_view q (db view w)))), w')"
proof -
  note r = queue_readyD [OF queue_ready_ticked [OF w]]
  have t: "int64_range (threshold wd w)"
    unfolding threshold_def wd_parts by (rule time_Unix_Add_range [OF clock_laws(3) i64_range])
  note z = ZRangeByScore_run [OF r(1,7) t n]
  let ?w = "sent c (ZRANGEBYSCORE (timestampsKey q) ''-inf'' (format_int (threshold wd w)) 0 (MaxRecoverPerScan (wcfg wd)))
    (ticked c w)"
  show thesis
  proof (rule that)
    show "db view ?w = db view w" using z(2) by simp
    then show "queue_ready view up q ?w"
      using queue_ready_sent [OF queue_ready_ticked [OF w]] queue_readyD(2) [OF w] by simp
    show "run_state (findStuckJobs wd) w =
        (Inr (take (nat (MaxRecoverPerScan (wcfg wd))) (overdue (threshold wd w) (queue_view q (db view w)))), ?w)"
      using z(1) by (simp add: findStuckJobs_def wd_parts wd_keys run_simps Let_def threshold_def overdue_def)
  qed
qed

lemma recover_each_run:
  assumes "queue_inv view up q w" "distinct is" "\<forall>i \<in> set is. recoverable (queue_view q (db view w)) i"
  shows "\<exists>w'. run_state (recover_each wd is) w = ((), w') \<and> queue_inv view up q w' \<and>
    recovery is (queue_view q (db view w)) (queue_view q (db view w'))"
  using assms
proof (induction "is" arbitrary: w)
  case Nil
  then show ?case by (simp add: recovery_def zrem_def)
next
  case (Cons i ds)
  let ?a = "queue_view q (db view w)"
  obtain j where j: "stored ?a i = Some (job_text j)" "job_wf j"
    using Cons.prems(3) by (auto simp: recoverable_def simp del: queue_view_sel)
  have w: "queue_ready view up q w" "stored ?a (k @ '':lock'') = None" for k
    using Cons.prems(1) by (simp_all add: queue_inv_def)
  obtain t w1 where w1: "run_state (recoverJob wd i) w = (Inr (), w1)" "queue_ready view up q w1"
    "queue_view q (db view w1) = a_recover i (recovered t (stored_form j)) ?a"
    using recoverJob_run [OF w(1) j w(2)] by metis
  have "k @ '':lock'' \<noteq> i" for k using w(2) j(1) by auto
  then have i1: "queue_inv view up q w1"
    using w1(2,3) w(2) by (simp add: queue_inv_def del: queue_view_sel)
  have "\<forall>k \<in> set ds. recoverable (queue_view q (db view w1)) k"
    using Cons.prems(2,3) w1(3) by (auto simp: recoverable_def simp del: queue_view_sel)
  then obtain w' where w': "run_state (recover_each wd ds) w1 = ((), w')" "queue_inv view up q w'"
    "recovery ds (queue_view q (db view w1)) (queue_view q (db view w'))"
    using Cons.IH [OF i1] Cons.prems(2) by auto
  have "recovery (i # ds) ?a (queue_view q (db view w'))"
    by (rule recovery_Cons [OF _ _ stored_job_text [OF j] w'(3) [unfolded w1(3)]]) (use Cons.prems in auto)
  then show ?case using w1(1) w' by (simp add: run_simps)
qed

end

section \<open>A watchdog in memory\<close>

definition mem_watchdog :: "memory Watchdog" where
  "mem_watchdog = fst (watchdog_New mem_client mem_queue (watchdog_DefaultConfig ''w1'') mem_world)"

definition mem_service :: "keyspace \<Rightarrow> memory service" where
  "mem_service D = \<lparr>lw = mem_with D, isLeader = True, svc_running = True, stopCh_closed = False\<rparr>"

interpretation mwd: watchdog_on_redis mem_client mem ms alive sha_text "''0.5''" mem_queue mem_watchdog
  by unfold_locales (simp_all add: mem_watchdog_def watchdog_New_def watchdog_DefaultConfig_def mem_queue_def queue_DefaultOptions_def)

lemma mem_watchdog_contract: "watchdog_on_redis mem_client mem ms alive sha_text ''0.5'' mem_queue mem_watchdog"
  by (rule mwd.watchdog_on_redis_axioms)

text \<open>A job that has been in processing since 1970.\<close>

definition stuck_db :: keyspace where
  "stuck_db = put_str (jobKey mem_queue (ID mem_job)) (job_text mem_job) None
     (put_list (processingKey mem_queue) [ID mem_job] None
       (put_zset (timestampsKey mem_queue) [(0, ID mem_job)] None empty_db))"

lemma stuck_queue [simp]:
  "queue_wf mem_queue stuck_db" "running (queue_view mem_queue stuck_db) = [ID mem_job]"
  "started (queue_view mem_queue stuck_db) = [(0, ID mem_job)]"
  "stored (queue_view mem_queue stuck_db) i = (if i = ID mem_job then Some (job_text mem_job) else None)"
  by (simp_all add: stuck_db_def key_simps)

lemma stuck_inv: "queue_inv mem alive mem_queue (mem_with stuck_db)"
proof -
  have "uuid_ok (cenv mem_client) (ID mem_job)" using mem_job_ok(2) unfolding Validate_None_iff by blast
  then have "k @ '':lock'' \<noteq> ID mem_job" for k using memory.uuid_text [of "ID mem_job" k] by auto
  then show ?thesis using mem_with_ready [OF stuck_queue(1)] stuck_queue(4) by (simp add: queue_inv_def del: queue_view_sel)
qed

section \<open>Properties\<close>

text \<open>C13. Recovering a job whose text is stored counts one attempt and moves it like a negative
  acknowledgement does: out of processing, with its start time and lock, and back to its priority
  list while attempts remain, to the dead letters otherwise.\<close>

theorem recoverJob_refines:
  assumes "watchdog_on_redis c view stime up sha rnd q wd" "queue_ready view up q w"
    and "stored (queue_view q (db view w)) i = Some (job_text j)" "job_wf j"
    and "stored (queue_view q (db view w)) (i @ '':lock'') = None"
  shows "\<exists>j' w'. run_state (recoverJob wd i) w = (Inr (), w') \<and> queue_ready view up q w' \<and> job_wf j' \<and>
    Attempts j' = i64 (Attempts j + 1) \<and>
    queue_view q (db view w') =
      (if Attempts j' \<ge> MaxRetries j then a_bury i (job_text j') (queue_view q (db view w))
       else a_retry (level_of (Priority j)) i (job_text j') (queue_view q (db view w)))"
proof (rule watchdog_on_redis.recoverJob_run [OF assms])
  fix t w'
  assume a: "run_state (recoverJob wd i) w = (Inr (), w')" "queue_ready view up q w'"
    "job_wf (recovered t (stored_form j))"
    "queue_view q (db view w') = a_recover i (recovered t (stored_form j)) (queue_view q (db view w))"
  show ?thesis
    by (intro exI [of _ "recovered t (stored_form j)"] exI [of _ w'])
      (use a in \<open>simp add: a_recover_def del: queue_view_sel\<close>)
qed

theorem recoverJob_refines_witness:
  "\<exists>w'. run_state (recoverJob mem_watchdog (ID mem_job)) (mem_with stuck_db) = (Inr (), w') \<and>
     running (queue_view mem_queue (db mem w')) = []"
  using recoverJob_refines [OF mem_watchdog_contract mem_with_ready [OF stuck_queue(1)], of "ID mem_job" mem_job]
    stuck_inv
  by (auto simp: a_bury_def a_retry_def a_enqueue_def a_ack_def queue_inv_def simp del: queue_view_sel)



text \<open>C22. A job that was claimed is never recovered: claiming writes the lock over the stored job, so the
  watchdog cannot read it. It returns that error before it takes the job out of processing, and the job
  stays there with its start time for the next scan to fail on.\<close>

theorem claimed_never_recovered:
  assumes wd: "watchdog_on_redis c view stime up sha rnd q wd" and w: "queue_ready view up q w"
    and n: "0 < whole_seconds (LockTTL (qopts q))" and p: "pend (queue_view q (db view w)) l \<noteq> []"
    and claim: "run_state (claimFromQueue q (pending_key (Prefix (qopts q)) l)) w = (r, w1)"
  shows "\<exists>e w2. run_state (recoverJob wd (last (pend (queue_view q (db view w)) l))) w1 = (Inl e, w2) \<and>
    db view w2 = db view w1"
proof -
  let ?i = "last (pend (queue_view q (db view w)) l)"
  note q = watchdog_on_redis.axioms(1) [OF wd]
  have "queue_ready view up q w1 \<and> (\<exists>s ex. db view w1 (jobKey q ?i) = Some (VStr (format_int s), Some ex))"
    by (rule queue_on_redis.claim_nonempty [OF q w n p]) (use claim in auto)
  then obtain s ex where w1: "queue_ready view up q w1" "db view w1 (jobKey q ?i) = Some (VStr (format_int s), Some ex)"
    by blast
  obtain m err w2 where "run_state (GetJob q ?i) w1 = (Inl (Wrapf m err), w2)" "db view w2 = db view w1"
    using queue_on_redis.GetJob_clobbered [OF q w1] by blast
  then show ?thesis by (simp add: recoverJob_def watchdog_on_redis.wd_parts(2) [OF wd] run_simps)
qed

theorem claimed_never_recovered_witness:
  "\<exists>r w1 e w2. run_state (claimFromQueue mem_queue (pending_key (Prefix (qopts mem_queue)) High)) (mem_with pending_db) = (r, w1) \<and>
     run_state (recoverJob mem_watchdog (ID mem_job)) w1 = (Inl e, w2)"
proof -
  obtain r w1 where "run_state (claimFromQueue mem_queue (pending_key (Prefix (qopts mem_queue)) High)) (mem_with pending_db) = (r, w1)"
    by (rule prod.exhaust)
  then show ?thesis
    using claimed_never_recovered [OF mem_watchdog_contract mem_with_ready [OF pending_queue(1)], of High r w1]
    by (auto simp del: queue_view_sel)
qed

text \<open>The service is a one-shot: \<open>Stop\<close> closes the channel that \<open>Start\<close> never makes anew, so after a
  restart the loop has a stop request waiting from the beginning, and the second \<open>Stop\<close> panics.\<close>

theorem restart_panics:
  assumes "svc_running s = False" "stopCh_closed s = False"
  shows "\<exists>s1 s2 s3 s4. run_state watchdog_Start s = (True, s1) \<and>
    run_state (watchdog_Stop w) s1 = (Returned (), s2) \<and> \<not> isLeader s2 \<and> stopCh_closed s2 \<and>
    run_state watchdog_Start s2 = (True, s3) \<and>
    run_state (watchdog_Stop w) s3 = (Panicked close_of_closed, s4)"
proof -
  let ?s1 = "s\<lparr>svc_running := True\<rparr>"
  obtain r s2 where s2: "run_state (Release (wleader w)) (?s1\<lparr>svc_running := False, stopCh_closed := True\<rparr>) = (r, s2)"
    by (rule prod.exhaust)
  have kept: "svc_running s2 = False \<and> stopCh_closed s2 = True"
    using s2 by (auto simp: leader_defs run_simps split: if_splits prod.splits sum.splits)
  have l: "\<not> isLeader s2" using election.release_law [OF s2] by (simp add: leader_IsLeader_def)
  show ?thesis
    using assms s2 kept l
    by (intro exI [of _ ?s1] exI [of _ s2] exI [of _ "s2\<lparr>svc_running := True\<rparr>"]
        exI [of _ "s2\<lparr>svc_running := False\<rparr>"])
      (simp add: watchdog_Start_def watchdog_Stop_def run_simps)
qed

theorem restart_panics_witness:
  "\<exists>s1 s2 s3 s4. run_state watchdog_Start (snd (watchdog_New mem_client mem_queue (watchdog_DefaultConfig ''w1'') mem_world)) = (True, s1) \<and>
    run_state (watchdog_Stop mem_watchdog) s1 = (Returned (), s2) \<and> run_state watchdog_Start s2 = (True, s3) \<and>
    run_state (watchdog_Stop mem_watchdog) s3 = (Panicked close_of_closed, s4)"
  using restart_panics [of "snd (watchdog_New mem_client mem_queue (watchdog_DefaultConfig ''w1'') mem_world)" mem_watchdog]
  by (auto simp: watchdog_New_def)

end
