(* ===== verification/Scheduler.thy ===== *)
theory Scheduler
  imports Watchdog
begin

text \<open>
  The scheduler (\<open>internal/scheduler/scheduler.go\<close>): jobs to run later are kept in a sorted set by the
  second they are due at; the leader moves the due ones to the pending lists at every poll. The
  life cycle is that of the watchdog, with its own code. Logging is left out.
\<close>

section \<open>Configuration and state\<close>

record scheduler_Config =
  PollInterval :: int
  BatchSize :: int
  KeyPrefix :: string
  sch_LeaderConfig :: LeaderConfig

definition scheduler_DefaultConfig :: "string \<Rightarrow> scheduler_Config" where
  "scheduler_DefaultConfig schedulerID = \<lparr>PollInterval = 1 * second, BatchSize = 100, KeyPrefix = ''titan'',
     sch_LeaderConfig = \<lparr>LockKey = ''titan:scheduler:leader'', LeaderID = schedulerID, TTL = 30 * second,
       RenewInterval = 10 * second\<rparr>\<rparr>"

record 's Scheduler =
  sclient :: "'s client"
  squeue :: "'s queue"
  sleader :: "'s leaderElection"
  sconfig :: scheduler_Config

definition scheduler_New :: "'s client \<Rightarrow> 's queue \<Rightarrow> scheduler_Config \<Rightarrow> 's world \<Rightarrow> 's Scheduler \<times> 's service" where
  "scheduler_New c q cfg w =
    (\<lparr>sclient = c, squeue = q, sleader = NewLeaderElection c (sch_LeaderConfig cfg), sconfig = cfg\<rparr>,
     \<lparr>lw = w, isLeader = False, svc_running = False, stopCh_closed = False\<rparr>)"

section \<open>Scheduling\<close>

text \<open>The second that a job is due at is a score; \<open>float64\<close> holds every second of the calendar exactly.\<close>

definition Schedule :: "'s Scheduler \<Rightarrow> Job \<Rightarrow> gotime \<Rightarrow> ('s world, goerror + unit) state" where
  "Schedule s j runAt =
    or_return (ret (Marshal j)) id (\<lambda>data.
    or_return (Set (sclient s) (KeyPrefix (sconfig s) @ '':job:'' @ ID j) data 0) id (\<lambda>_.
    ZAdd (sclient s) (KeyPrefix (sconfig s) @ '':scheduled'') [Z (time_Unix runAt) (ID j)]))"

definition ScheduleDelay :: "'s Scheduler \<Rightarrow> Job \<Rightarrow> int \<Rightarrow> ('s world, goerror + unit) state" where
  "ScheduleDelay s j delay = do {
     t \<leftarrow> now (sclient s);
     Schedule s j (time_Add t delay)
   }"

definition Cancel :: "'s Scheduler \<Rightarrow> string \<Rightarrow> ('s world, goerror + unit) state" where
  "Cancel s jobID = ZRem (sclient s) (KeyPrefix (sconfig s) @ '':scheduled'') [jobID]"

definition GetScheduledCount :: "'s Scheduler \<Rightarrow> ('s world, goerror + int) state" where
  "GetScheduledCount s = ZCard (sclient s) (KeyPrefix (sconfig s) @ '':scheduled'')"

section \<open>Polling\<close>

definition moveJobToPending :: "'s Scheduler \<Rightarrow> string \<Rightarrow> ('s world, goerror + unit) state" where
  "moveJobToPending s jobID =
    or_return (GetJob (squeue s) jobID) id (\<lambda>j. Enqueue (squeue s) (j\<lparr>Status := StatusPending\<rparr>))"

text \<open>The loop over the due jobs: one that cannot be moved is skipped and stays scheduled.\<close>

fun move_each :: "'s Scheduler \<Rightarrow> string list \<Rightarrow> ('s world, unit) state" where
  "move_each s [] = ret ()"
| "move_each s (jobID # jobIDs) = do {
     r \<leftarrow> moveJobToPending s jobID;
     case r of
       Inl err \<Rightarrow> move_each s jobIDs
     | Inr _ \<Rightarrow> do {
         _ \<leftarrow> ZRem (sclient s) (KeyPrefix (sconfig s) @ '':scheduled'') [jobID];
         move_each s jobIDs
       }
   }"

definition pollAndEnqueue :: "'s Scheduler \<Rightarrow> (('s, 'z) lstate_scheme, unit) state" where
  "pollAndEnqueue s = do {
     st \<leftarrow> read_state;
     if \<not> leader_IsLeader st then ret ()
     else do {
       t \<leftarrow> on_world (now (sclient s));
       r \<leftarrow> on_world (ZRangeByScore (sclient s) (KeyPrefix (sconfig s) @ '':scheduled'')
         \<lparr>Min = ''-inf'', Max = format_int (time_Unix t), Offset = 0, Count = BatchSize (sconfig s)\<rparr>);
       case r of
         Inl err \<Rightarrow> ret ()
       | Inr jobIDs \<Rightarrow> if length jobIDs = 0 then ret () else on_world (move_each s jobIDs)
     }
   }"

section \<open>The service\<close>

definition scheduler_tryMaintainLeadership :: "'s Scheduler \<Rightarrow> (('s, 'z) lstate_scheme, unit) state" where
  "scheduler_tryMaintainLeadership s = do {
     st \<leftarrow> read_state;
     if leader_IsLeader st then do { _ \<leftarrow> Renew (sleader s); ret () }
     else do { _ \<leftarrow> TryAcquire (sleader s); ret () }
   }"

fun scheduler_run :: "'s Scheduler \<Rightarrow> service_event list \<Rightarrow> (('s, 'z) lstate_scheme, unit) state" where
  "scheduler_run s [] = ret ()"
| "scheduler_run s (e # es) =
    (case e of
       CtxDone \<Rightarrow> ret ()
     | StopRequested \<Rightarrow> ret ()
     | RenewTick \<Rightarrow> do { scheduler_tryMaintainLeadership s; scheduler_run s es }
     | WorkTick \<Rightarrow> do { pollAndEnqueue s; scheduler_run s es })"

definition scheduler_Start :: "(('s, 'z) service_scheme, bool) state" where
  "scheduler_Start = do {
     st \<leftarrow> read_state;
     if svc_running st then ret False
     else do { modify_state (\<lambda>st. st\<lparr>svc_running := True\<rparr>); ret True }
   }"

definition scheduler_Stop :: "'s Scheduler \<Rightarrow> (('s, 'z) service_scheme, unit outcome) state" where
  "scheduler_Stop s = do {
     st \<leftarrow> read_state;
     if \<not> svc_running st then ret (Returned ())
     else do {
       modify_state (\<lambda>st. st\<lparr>svc_running := False\<rparr>);
       if stopCh_closed st then ret (Panicked close_of_closed)
       else do {
         modify_state (\<lambda>st. st\<lparr>stopCh_closed := True\<rparr>);
         _ \<leftarrow> Release (sleader s);
         ret (Returned ())
       }
     }
   }"

definition scheduler_IsLeader :: "('s, 'z) lstate_scheme \<Rightarrow> bool" where
  "scheduler_IsLeader s = leader_IsLeader s"

end
