(* ===== verification/Interleaving.thy ===== *)
theory Interleaving
  imports Watchdog_Theorems Queue_Ack Scheduler
begin

text \<open>
  Many clients of one Redis. The server runs one command at a time, so what several API servers, workers and watchdogs do
  to it is one sequence of the commands that they issue, in any order. Here: which commands the operations of the queue, the
  watchdog and the scheduler issue, what each does to the lists of identifiers, and what the log of a shared server says of them.
\<close>

section \<open>The commands of the queue\<close>

text \<open>A key that is none of the queue's lists nor its set of start times: job texts and locks, the delayed jobs, leader locks.\<close>

definition foreign :: "'s queue \<Rightarrow> string \<Rightarrow> bool" where
  "foreign q k \<longleftrightarrow> (\<forall>l. k \<noteq> pending_key (Prefix (qopts q)) l) \<and> k \<noteq> processingKey q \<and> k \<noteq> dlqKey q \<and> k \<noteq> timestampsKey q"

lemma foreign_keys [simp]:
  "foreign q (jobKey q i)" "foreign q (lockKey q i)" "foreign q (dedupKey q u)" "foreign q (Prefix (qopts q) @ '':scheduled'')"
  by (auto simp: foreign_def key_simps) (auto simp: key_defs split: level.splits)

inductive issued :: "'s queue \<Rightarrow> rcmd \<Rightarrow> bool" for q where
  get: "issued q (GET k)"
| llen: "issued q (LLEN k)"
| lrange: "issued q (LRANGE k a b)"
| zrangebyscore: "issued q (ZRANGEBYSCORE k lo hi off cnt)"
| zcard: "issued q (ZCARD k)"
| set_key: "foreign q k \<Longrightarrow> issued q (SET k v d)"
| setnx_key: "foreign q k \<Longrightarrow> issued q (SETNX k v d)"
| expire_key: "foreign q k \<Longrightarrow> issued q (EXPIRE k d)"
| del_key: "foreign q k \<Longrightarrow> issued q (DEL [k])"
| zadd_key: "foreign q k \<or> k = timestampsKey q \<Longrightarrow> issued q (ZADD k sms)"
| zrem_key: "foreign q k \<or> k = timestampsKey q \<Longrightarrow> issued q (ZREM k is)"
| push_pending: "issued q (LPUSH (pending_key (Prefix (qopts q)) l) [i])"
| push_dead: "issued q (LPUSH (dlqKey q) [i])"
| rem_pending: "issued q (LREM (pending_key (Prefix (qopts q)) l) 1 i)"
| rem_dead: "issued q (LREM (dlqKey q) 1 i)"
| rem_processing: "issued q (LREM (processingKey q) 1 i)"
| move: "issued q (BLMOVE (pending_key (Prefix (qopts q)) High) (processingKey q) ''RIGHT'' ''LEFT'' d)"
| claim_script: "int64_range s \<Longrightarrow>
    issued q (EVALSHA (ClaimJob (scripts q)) [pending_key (Prefix (qopts q)) l, processingKey q, Prefix (qopts q) @ '':job:'', timestampsKey q]
      [format_int (whole_seconds (LockTTL (qopts q))), format_int s])"
| ack_script: "issued q (EVALSHA (AckJob_sha (scripts q)) [processingKey q, lockKey q i, timestampsKey q] [i])"
| retry_script: "issued q (EVALSHA (NackJob_sha (scripts q))
    [processingKey q, pending_key (Prefix (qopts q)) l, lockKey q i, timestampsKey q] [i, act])"
| bury_script: "issued q (EVALSHA (NackJob_sha (scripts q)) [processingKey q, dlqKey q, lockKey q i, timestampsKey q] [i, act])"
| dedup_script: "issued q (EVALSHA (DeduplicationCheck (scripts q)) [dedupKey q u] [format_int (whole_seconds (DeduplicationTTL (qopts q)))])"

section \<open>What a command does to the lists\<close>

datatype place = Waiting | Running | Buried

fun ids_at :: "place \<Rightarrow> aqueue \<Rightarrow> string multiset" where
  "ids_at Waiting a = mset (pend a High) + mset (pend a Normal) + mset (pend a Low)"
| "ids_at Running a = mset (running a)"
| "ids_at Buried a = mset (dead a)"

definition list_place :: "'s queue \<Rightarrow> string \<Rightarrow> place option" where
  "list_place q k =
    (if k \<in> set (PriorityQueues (Prefix (qopts q))) then Some Waiting
     else if k = processingKey q then Some Running
     else if k = dlqKey q then Some Buried else None)"

lemma list_place_simps [simp]:
  "list_place q (pending_key (Prefix (qopts q)) l) = Some Waiting" "list_place q (processingKey q) = Some Running"
  "list_place q (dlqKey q) = Some Buried"
  by (cases l) (simp_all add: list_place_def PriorityQueues_levels key_simps)

text \<open>The identifiers that enter and leave a place with a command that was answered \<open>r\<close>.\<close>

type_synonym transfer = "rcmd \<times> (goerror + reply)"

fun enters :: "'s queue \<Rightarrow> place \<Rightarrow> transfer \<Rightarrow> string multiset" where
  "enters q pl (LPUSH k is, r) = (if list_place q k = Some pl then mset is else {#})"
| "enters q pl (BLMOVE k k' f p d, r) =
    (case r of Inr (RBulk i) \<Rightarrow> if list_place q k' = Some pl then {#i#} else {#} | _ \<Rightarrow> {#})"
| "enters q pl (EVALSHA h ks args, r) =
    (if h = ClaimJob (scripts q) then (case r of Inr (RBulk i) \<Rightarrow> if list_place q (ks ! 1) = Some pl then {#i#} else {#} | _ \<Rightarrow> {#})
     else if h = NackJob_sha (scripts q) \<and> r = Inr (RInt 1) \<and> list_place q (ks ! 1) = Some pl then {#args ! 0#}
     else {#})"
| "enters q pl (_, r) = {#}"

fun leaves :: "'s queue \<Rightarrow> place \<Rightarrow> transfer \<Rightarrow> string multiset" where
  "leaves q pl (LREM k n i, r) =
    (case r of Inr (RInt m) \<Rightarrow> if list_place q k = Some pl then replicate_mset (nat m) i else {#} | _ \<Rightarrow> {#})"
| "leaves q pl (BLMOVE k k' f p d, r) =
    (case r of Inr (RBulk i) \<Rightarrow> if list_place q k = Some pl then {#i#} else {#} | _ \<Rightarrow> {#})"
| "leaves q pl (EVALSHA h ks args, r) =
    (if h = ClaimJob (scripts q) then (case r of Inr (RBulk i) \<Rightarrow> if list_place q (ks ! 0) = Some pl then {#i#} else {#} | _ \<Rightarrow> {#})
     else if (h = AckJob_sha (scripts q) \<or> h = NackJob_sha (scripts q)) \<and> r = Inr (RInt 1) \<and> list_place q (ks ! 0) = Some pl
     then {#args ! 0#} else {#})"
| "leaves q pl (_, r) = {#}"

text \<open>The server's state as the clients of a queue expect it.\<close>

definition shared_ok :: "'s queue \<Rightarrow> rstate \<Rightarrow> bool" where
  "shared_ok q R \<longleftrightarrow> queue_wf q (keyspace R) \<and> scripts_loaded (cached R) q"

definition held :: "'s queue \<Rightarrow> rstate \<Rightarrow> place \<Rightarrow> string multiset" where
  "held q R pl = ids_at pl (queue_view q (keyspace R))"

definition balanced :: "'s queue \<Rightarrow> rstate \<Rightarrow> transfer \<Rightarrow> rstate \<Rightarrow> bool" where
  "balanced q R tr R' \<longleftrightarrow> shared_ok q R' \<and> (\<forall>pl. held q R' pl + leaves q pl tr = held q R pl + enters q pl tr)"

text \<open>The server runs a command at time \<open>t\<close>.\<close>

definition step_balanced :: "(script \<Rightarrow> string) \<Rightarrow> string \<Rightarrow> int \<Rightarrow> 's queue \<Rightarrow> rstate \<Rightarrow> rcmd \<Rightarrow> bool" where
  "step_balanced sha rnd t q R cmd \<longleftrightarrow> (case exec sha rnd t cmd R of (r, R') \<Rightarrow> balanced q R (cmd, r) R')"

lemma all_places: "(\<forall>pl. P pl) \<longleftrightarrow> P Waiting \<and> P Running \<and> P Buried"
  by (metis place.exhaust)

lemma scripts_distinct:
  "scripts_loaded m q \<Longrightarrow> ClaimJob (scripts q) \<noteq> AckJob_sha (scripts q) \<and> ClaimJob (scripts q) \<noteq> NackJob_sha (scripts q) \<and>
     AckJob_sha (scripts q) \<noteq> NackJob_sha (scripts q) \<and> DeduplicationCheck (scripts q) \<noteq> ClaimJob (scripts q) \<and>
     DeduplicationCheck (scripts q) \<noteq> AckJob_sha (scripts q) \<and> DeduplicationCheck (scripts q) \<noteq> NackJob_sha (scripts q)"
  by (auto simp: scripts_loaded_def)

lemma basic_balanced:
  assumes "shared_ok q R" "basic cmd" "exec_basic rnd t cmd (keyspace R) = (r, D)" "queue_wf q D"
    and "\<And>pl. ids_at pl (queue_view q D) + leaves q pl (cmd, r) = held q R pl + enters q pl (cmd, r)"
  shows "step_balanced sha rnd t q R cmd"
  using assms by (simp add: exec_basic_cmd step_balanced_def balanced_def shared_ok_def held_def)

lemma script_balanced:
  assumes "shared_ok q R" "cached R h = Some sc" "run_state (run_script sc (server_call rnd t) ks args) (keyspace R) = (r, D)" "queue_wf q D"
    and "\<And>pl. ids_at pl (queue_view q D) + leaves q pl (EVALSHA h ks args, r) = held q R pl + enters q pl (EVALSHA h ks args, r)"
  shows "step_balanced sha rnd t q R (EVALSHA h ks args)"
  using assms by (simp add: exec_def run_lua_def step_balanced_def balanced_def shared_ok_def held_def)

lemma read_balanced:
  assumes "shared_ok q R" "cmd \<in> range GET \<union> range LLEN \<union> {LRANGE k a b | k a b. True} \<union> {ZRANGEBYSCORE k lo hi off cnt | k lo hi off cnt. True} \<union> range ZCARD"
  shows "step_balanced sha rnd t q R cmd"
proof -
  have "snd (exec_basic rnd t cmd (keyspace R)) = keyspace R" "basic cmd"
    and e: "\<And>pl r. enters q pl (cmd, r) = {#}" "\<And>pl r. leaves q pl (cmd, r) = {#}"
    using assms(2) by (auto simp: with_list_def zrange_by_score_def with_zset_def split: option.splits rval.splits)
  then show ?thesis
    using assms(1) basic_balanced [of q R cmd rnd t "fst (exec_basic rnd t cmd (keyspace R))" "keyspace R" sha]
    by (simp add: prod_eq_iff shared_ok_def held_def)
qed

lemma shared_okD:
  assumes "shared_ok q R"
  shows "queue_wf q (keyspace R)" "is_list (keyspace R) (pending_key (Prefix (qopts q)) l)" "is_list (keyspace R) (processingKey q)"
    "is_list (keyspace R) (dlqKey q)" "is_zset (keyspace R) (timestampsKey q)" "scripts_loaded (cached R) q"
  using assms by (auto simp: shared_ok_def queue_wf_def intro: queue_wf_pending)

lemma list_length_remove1: "int (length xs) - int (length (remove1 x xs)) = (if x \<in> set xs then 1 else 0)"
  using length_remove1_in [of x xs] by (auto simp: remove1_idem)

lemma push_balanced:
  assumes "shared_ok q R" "k = dlqKey q \<or> (\<exists>l. k = pending_key (Prefix (qopts q)) l)"
  shows "step_balanced sha rnd t q R (LPUSH k [i])"
proof (rule basic_balanced [OF assms(1)])
  note d = shared_okD [OF assms(1)]
  have l: "is_list (keyspace R) k" using assms(2) d by auto
  show "exec_basic rnd t (LPUSH k [i]) (keyspace R) =
      (Inr (RInt (int (length (i # list_of (keyspace R) k)))), put_list k (i # list_of (keyspace R) k) None (keyspace R))"
    using l by (simp add: with_list_is_list Let_def)
  show "queue_wf q (put_list k (i # list_of (keyspace R) k) None (keyspace R))" using d(1) assms(2) by auto
  show "ids_at pl (queue_view q (put_list k (i # list_of (keyspace R) k) None (keyspace R))) + leaves q pl (LPUSH k [i], r) =
      held q R pl + enters q pl (LPUSH k [i], r)" for pl r
    using assms(2) by (cases pl) (auto simp: held_def key_simps, metis level.exhaust)
qed simp

lemma rem_balanced:
  assumes "shared_ok q R" "k = processingKey q \<or> k = dlqKey q \<or> (\<exists>l. k = pending_key (Prefix (qopts q)) l)"
  shows "step_balanced sha rnd t q R (LREM k 1 i)"
proof (rule basic_balanced [OF assms(1)])
  note d = shared_okD [OF assms(1)]
  let ?xs = "list_of (keyspace R) k"
  let ?r = "Inr (RInt (if i \<in> set ?xs then 1 else 0)) :: goerror + reply"
  have l: "is_list (keyspace R) k" using assms(2) d by auto
  show "exec_basic rnd t (LREM k 1 i) (keyspace R) = (?r, put_list k (remove1 i ?xs) None (keyspace R))"
    using l by (simp add: with_list_is_list Let_def list_length_remove1)
  show "queue_wf q (put_list k (remove1 i ?xs) None (keyspace R))" using d(1) assms(2) by auto
  have m: "mset (remove1 i xs) + (if i \<in> set xs then {#i#} else {#}) = mset xs" for xs by (simp add: remove1_idem)
  consider (p) l where "k = pending_key (Prefix (qopts q)) l" | (o) "k = processingKey q" | (d) "k = dlqKey q" using assms(2) by blast
  then show "ids_at pl (queue_view q (put_list k (remove1 i ?xs) None (keyspace R))) + leaves q pl (LREM k 1 i, ?r) =
      held q R pl + enters q pl (LREM k 1 i, ?r)" for pl
  proof cases
    case p
    then show ?thesis using m [of ?xs] by (cases pl; cases l) (auto simp: held_def key_simps remove1_idem)
  next
    case o
    then show ?thesis using m [of ?xs] by (cases pl) (auto simp: held_def key_simps remove1_idem)
  next
    case d
    then show ?thesis using m [of ?xs] by (cases pl) (auto simp: held_def key_simps remove1_idem)
  qed
qed simp

lemma foreign_balanced:
  assumes ok: "shared_ok q R" and k: "foreign q k" and cmd: "cmd \<in> {SET k v d, SETNX k v d, EXPIRE k d, DEL [k], ZADD k sms, ZREM k is}"
  shows "step_balanced sha rnd t q R cmd"
proof -
  obtain r D where e: "exec_basic rnd t cmd (keyspace R) = (r, D)" by (cases "exec_basic rnd t cmd (keyspace R)")
  have "snd (exec_basic rnd t cmd (keyspace R)) k' = keyspace R k'" if "k' \<noteq> k" for k'
    using that cmd by (auto simp: put_defs with_zset_def Let_def split: option.split rval.split)
  then have D: "D k' = keyspace R k'" if "k' \<noteq> k" for k' using that e by simp
  have "D (processingKey q) = keyspace R (processingKey q)" "D (dlqKey q) = keyspace R (dlqKey q)"
    "D (timestampsKey q) = keyspace R (timestampsKey q)"
    "D (pending_key (Prefix (qopts q)) l) = keyspace R (pending_key (Prefix (qopts q)) l)" for l
    using k by (auto simp: foreign_def intro!: D)
  then have "queue_wf q D" "ids_at pl (queue_view q D) = held q R pl" for pl
    using shared_okD(1) [OF ok] by (cases pl; simp add: queue_wf_def held_def content_defs)+
  moreover have "enters q pl (cmd, r) = {#}" "leaves q pl (cmd, r) = {#}" "basic cmd" for pl using cmd by auto
  ultimately show ?thesis by (intro basic_balanced [OF ok _ e]) auto
qed

lemma stamp_balanced:
  assumes "shared_ok q R" "cmd \<in> {ZADD (timestampsKey q) sms, ZREM (timestampsKey q) is}"
  shows "step_balanced sha rnd t q R cmd"
proof -
  have v: "held q (R\<lparr>keyspace := put_zset (timestampsKey q) zs None (keyspace R)\<rparr>) pl = held q R pl" for zs pl
    by (cases pl) (auto simp: held_def key_simps)
  show ?thesis
    using assms(2) shared_okD(1,5,6) [OF assms(1)] v
    by (auto simp: exec_basic_cmd step_balanced_def balanced_def shared_ok_def with_zset_is_zset Let_def)
qed

lemma move_balanced:
  assumes "shared_ok q R" "cmd = BLMOVE (pending_key (Prefix (qopts q)) High) (processingKey q) ''RIGHT'' ''LEFT'' d"
  shows "step_balanced sha rnd t q R cmd"
proof -
  note d = shared_okD [OF assms(1)]
  let ?k = "pending_key (Prefix (qopts q)) High"
  have "lmove t ?k (processingKey q) ''RIGHT'' ''LEFT'' (keyspace R) =
      (if list_of (keyspace R) ?k = [] then (Inr RNull, keyspace R)
       else (Inr (RBulk (last (list_of (keyspace R) ?k))),
         put_list (processingKey q) (last (list_of (keyspace R) ?k) # list_of (keyspace R) (processingKey q)) None
           (put_list ?k (butlast (list_of (keyspace R) ?k)) None (keyspace R))))"
    by (rule lmove_lists) (use d(2,3) in \<open>simp_all add: key_simps\<close>)
  then show ?thesis
    using d(1,6) mset_butlast_last [of "list_of (keyspace R) ?k"]
    by (auto simp: assms(2) exec_basic_cmd step_balanced_def balanced_def shared_ok_def held_def all_places key_simps)
qed

lemma claim_balanced:
  assumes "shared_ok q R" "int64_range s" "0 < whole_seconds (LockTTL (qopts q))"
    "cmd = EVALSHA (ClaimJob (scripts q)) [pending_key (Prefix (qopts q)) l, processingKey q, Prefix (qopts q) @ '':job:'', timestampsKey q]
      [format_int (whole_seconds (LockTTL (qopts q))), format_int s]"
  shows "step_balanced sha rnd t q R cmd"
proof -
  note d = shared_okD [OF assms(1)]
  let ?n = "whole_seconds (LockTTL (qopts q))" and ?k = "pending_key (Prefix (qopts q)) l" and ?D = "keyspace R"
  have "run_state (claimJob_lua (server_call rnd t) [?k, processingKey q, Prefix (qopts q) @ '':job:'', timestampsKey q] [format_int ?n, format_int s]) ?D =
      (if list_of ?D ?k = [] then (Inr RNull, ?D)
       else (Inr (RBulk (last (list_of ?D ?k))), claim_db q l s (t + 1000 * ?n) ?D))"
    using claim_script_db [OF d(1) refl assms(3,2)] by simp
  moreover have c: "cached R (ClaimJob (scripts q)) = Some claimJobScript" using d(6) by (simp add: scripts_loaded_def)
  moreover have "ids_at pl (queue_view q (claim_db q l s e ?D)) + leaves q pl (cmd, Inr (RBulk (last (list_of ?D ?k)))) =
      held q R pl + enters q pl (cmd, Inr (RBulk (last (list_of ?D ?k))))" if "list_of ?D ?k \<noteq> []" for e pl
    using mset_butlast_last [OF that]
    by (cases pl; cases l) (auto simp: held_def claim_db_view a_claim_def Let_def assms(4))
  ultimately show ?thesis
    using d(1,6) claim_db_wf [OF d(1)]
    by (auto simp: assms(4) exec_def run_lua_def step_balanced_def balanced_def shared_ok_def held_def simp del: queue_view_sel)
qed

lemma finish_lists:
  "list_of (finish_db q i D) (pending_key (Prefix (qopts q)) l) = list_of D (pending_key (Prefix (qopts q)) l)"
  "list_of (finish_db q i D) (processingKey q) = remove1 i (list_of D (processingKey q))"
  "list_of (finish_db q i D) (dlqKey q) = list_of D (dlqKey q)"
  by (simp_all add: finish_db_def key_simps)

lemma ack_balanced:
  assumes "shared_ok q R" "cmd = EVALSHA (AckJob_sha (scripts q)) [processingKey q, lockKey q i, timestampsKey q] [i]"
  shows "step_balanced sha rnd t q R cmd"
proof -
  note d = shared_okD [OF assms(1)]
  let ?D = "keyspace R"
  have "run_state (ackJob_lua (server_call rnd t) [processingKey q, lockKey q i, timestampsKey q] [i]) ?D =
      (if i \<in> set (list_of ?D (processingKey q)) then (Inr (RInt 1), finish_db q i ?D) else (Inr (RInt 0), ?D))"
    using ackJob_script [OF d(3,5), of "lockKey q i" rnd t i] by (simp add: key_simps finish_db_def)
  moreover have c: "cached R (AckJob_sha (scripts q)) = Some ackJobScript" using d(6) by (simp add: scripts_loaded_def)
  ultimately show ?thesis
    using d(1,6) scripts_distinct [OF d(6)]
    by (auto simp: assms(2) exec_def run_lua_def step_balanced_def balanced_def shared_ok_def held_def all_places finish_lists)
qed

lemma nack_balanced:
  assumes "shared_ok q R" "dest = dlqKey q \<or> (\<exists>l. dest = pending_key (Prefix (qopts q)) l)"
    "cmd = EVALSHA (NackJob_sha (scripts q)) [processingKey q, dest, lockKey q i, timestampsKey q] [i, act]"
  shows "step_balanced sha rnd t q R cmd"
proof -
  note d = shared_okD [OF assms(1)]
  let ?D = "keyspace R"
  let ?D' = "put_list dest (i # list_of ?D dest) None (finish_db q i ?D)"
  have k: "is_list ?D dest" "dest \<noteq> processingKey q" "dest \<noteq> lockKey q i" "dest \<noteq> timestampsKey q"
    using d(2,4) assms(2) by (auto simp: key_simps)
  have run: "run_state (nackJob_lua (server_call rnd t) [processingKey q, dest, lockKey q i, timestampsKey q] [i, act]) ?D =
      (if i \<in> set (list_of ?D (processingKey q)) then (Inr (RInt 1), ?D') else (Inr (RInt 0), ?D))"
    using nackJob_script [OF d(3) k(1) d(5), of "lockKey q i" rnd t i act] k by (auto simp: finish_db_def key_simps)
  have c: "cached R (NackJob_sha (scripts q)) = Some nackJobScript" using d(6) by (simp add: scripts_loaded_def)
  have wf: "queue_wf q ?D'" using d(1) assms(2) by auto
  have "ids_at pl (queue_view q ?D') + leaves q pl (cmd, Inr (RInt 1)) = held q R pl + enters q pl (cmd, Inr (RInt 1))"
    if "i \<in> set (list_of ?D (processingKey q))" for pl
    using assms(2) that scripts_distinct [OF d(6)]
    by (cases pl) (auto simp: assms(3) held_def finish_lists key_simps, metis level.exhaust)
  then show ?thesis
    using run c d(1,6) wf scripts_distinct [OF d(6)]
    by (auto simp: assms(3) exec_def run_lua_def step_balanced_def balanced_def shared_ok_def held_def simp del: queue_view_sel queue_view_put)
qed

lemma dedup_balanced:
  assumes "shared_ok q R" "0 < whole_seconds (DeduplicationTTL (qopts q))"
    "cmd = EVALSHA (DeduplicationCheck (scripts q)) [dedupKey q u] [format_int (whole_seconds (DeduplicationTTL (qopts q)))]"
  shows "step_balanced sha rnd t q R cmd"
proof -
  note d = shared_okD [OF assms(1)]
  have "parse_int (format_int (whole_seconds (DeduplicationTTL (qopts q)))) = Some (whole_seconds (DeduplicationTTL (qopts q)))"
    using parse_format_int i64_range by (simp add: whole_seconds_def)
  note run = deduplicationCheck_script [OF this assms(2), of rnd t "dedupKey q u" "keyspace R"]
  have c: "cached R (DeduplicationCheck (scripts q)) = Some deduplicationCheckScript" using d(6) by (simp add: scripts_loaded_def)
  then show ?thesis
    using run d(1,6) scripts_distinct [OF d(6)]
    by (auto simp: assms(3) exec_def run_lua_def step_balanced_def balanced_def shared_ok_def held_def split: if_splits)
qed

text \<open>Every command of the queue keeps the keys in order and moves identifiers as its answer says.\<close>

definition ttls_ok :: "'s queue \<Rightarrow> bool" where
  "ttls_ok q \<longleftrightarrow> 0 < whole_seconds (LockTTL (qopts q)) \<and> 0 < whole_seconds (DeduplicationTTL (qopts q))"

lemma exec_balanced:
  assumes "issued q cmd" "shared_ok q R" "ttls_ok q"
  shows "step_balanced sha rnd t q R cmd"
  using assms(1)
proof cases
  case (claim_script s l)
  then show ?thesis using assms(3) by (intro claim_balanced [OF assms(2)]) (auto simp: ttls_ok_def)
next
  case (dedup_script u)
  then show ?thesis using assms(3) by (intro dedup_balanced [OF assms(2)]) (auto simp: ttls_ok_def)
next
  case (retry_script l i act)
  then show ?thesis by (intro nack_balanced [OF assms(2)]) auto
next
  case (bury_script i act)
  then show ?thesis by (intro nack_balanced [OF assms(2)]) auto
qed (use assms(2) in \<open>auto intro: read_balanced push_balanced rem_balanced stamp_balanced move_balanced ack_balanced foreign_balanced\<close>)

section \<open>Interleavings\<close>

text \<open>The commands that the server runs one after the other, each with the server's clock, and their answers.\<close>

fun run_trace :: "(script \<Rightarrow> string) \<Rightarrow> string \<Rightarrow> (int \<times> rcmd) list \<Rightarrow> rstate \<Rightarrow> transfer list \<times> rstate" where
  "run_trace sha rnd [] R = ([], R)"
| "run_trace sha rnd ((t, cmd) # xs) R =
    (case exec sha rnd t cmd R of (r, R1) \<Rightarrow> (case run_trace sha rnd xs R1 of (trs, R2) \<Rightarrow> ((cmd, r) # trs, R2)))"

lemma run_trace_cmds: "list_all (\<lambda>x. P (snd x)) xs \<Longrightarrow> list_all (\<lambda>tr. P (fst tr)) (fst (run_trace sha rnd xs R))"
  by (induction sha rnd xs R rule: run_trace.induct) (auto split: prod.split)

definition all_enter :: "'s queue \<Rightarrow> place \<Rightarrow> transfer list \<Rightarrow> string multiset" where
  "all_enter q pl trs = sum_list (map (enters q pl) trs)"

definition all_leave :: "'s queue \<Rightarrow> place \<Rightarrow> transfer list \<Rightarrow> string multiset" where
  "all_leave q pl trs = sum_list (map (leaves q pl) trs)"

text \<open>The log of a shared server accounts for the identifiers in every place.\<close>

definition accounts :: "'s queue \<Rightarrow> rstate \<Rightarrow> transfer list \<Rightarrow> rstate \<Rightarrow> bool" where
  "accounts q R trs R' \<longleftrightarrow> shared_ok q R' \<and> (\<forall>pl. held q R' pl + all_leave q pl trs = held q R pl + all_enter q pl trs)"

lemma accounts_Nil [simp]: "accounts q R [] R \<longleftrightarrow> shared_ok q R"
  by (simp add: accounts_def all_enter_def all_leave_def)

lemma balanced_union:
  fixes a :: "'a multiset"
  shows "b + l = a + e \<Longrightarrow> c + l' = b + e' \<Longrightarrow> c + (l + l') = a + (e + e')"
  by (metis add.assoc add.commute add.left_commute)

lemma accounts_append:
  assumes "accounts q R trs R1" "accounts q R1 trs' R2"
  shows "accounts q R (trs @ trs') R2"
  unfolding accounts_def
proof (intro conjI allI)
  show "shared_ok q R2" using assms(2) by (simp add: accounts_def)
  show "held q R2 pl + all_leave q pl (trs @ trs') = held q R pl + all_enter q pl (trs @ trs')" for pl
    using balanced_union [of "held q R1 pl" "all_leave q pl trs" "held q R pl" "all_enter q pl trs" "held q R2 pl"] assms
    by (simp add: accounts_def all_enter_def all_leave_def)
qed

lemma run_trace_accounts:
  assumes "list_all (\<lambda>x. issued q (snd x)) xs" "shared_ok q R" "ttls_ok q" "run_trace sha rnd xs R = (trs, R')"
  shows "accounts q R trs R'"
  using assms
proof (induction sha rnd xs R arbitrary: trs rule: run_trace.induct)
  case (2 sha rnd t cmd xs R)
  obtain r R1 where e: "exec sha rnd t cmd R = (r, R1)" by (cases "exec sha rnd t cmd R")
  obtain trs' where t: "run_trace sha rnd xs R1 = (trs', R')" "trs = (cmd, r) # trs'"
    using "2.prems"(4) by (auto simp: e split: prod.splits)
  have b: "balanced q R (cmd, r) R1" using exec_balanced [of q cmd R sha rnd t] "2.prems" by (simp add: e step_balanced_def)
  then have "accounts q R [(cmd, r)] R1" by (simp add: accounts_def balanced_def all_enter_def all_leave_def)
  moreover have "accounts q R1 trs' R'" using "2.IH" [OF e [symmetric]] "2.prems" b t by (auto simp: balanced_def)
  ultimately show ?case using accounts_append [of q R "[(cmd, r)]" R1 trs'] by (simp add: t)
qed simp

section \<open>What the programs send\<close>

text \<open>
  A program sends only commands of \<open>P\<close>: whatever these commands, readings of the clock and random numbers keep of the outside
  world, the program keeps. \<open>f\<close> finds the outside world in the state of the program.
\<close>

definition stable :: "'s client \<Rightarrow> (rcmd \<Rightarrow> bool) \<Rightarrow> ('s \<Rightarrow> bool) \<Rightarrow> bool" where
  "stable c P I \<longleftrightarrow>
    (\<forall>cmd s. P cmd \<and> I s \<longrightarrow> I (snd (run_state (rdb (cenv c) cmd) s))) \<and>
    (\<forall>s. I s \<longrightarrow> I (snd (run_state (time_Now (cenv c)) s)) \<and> time_wf (time_UTC (fst (run_state (time_Now (cenv c)) s)))) \<and>
    (\<forall>s. I s \<longrightarrow> I (snd (run_state (rand_Float64 (cenv c)) s)))"

definition sends :: "('t \<Rightarrow> 's) \<Rightarrow> 's client \<Rightarrow> (rcmd \<Rightarrow> bool) \<Rightarrow> ('t, 'a) state \<Rightarrow> bool" where
  "sends f c P m \<longleftrightarrow> (\<forall>I st. stable c P I \<longrightarrow> I (f st) \<longrightarrow> I (f (snd (run_state m st))))"

lemma stableD:
  assumes "stable c P I" "I s"
  shows "P cmd \<Longrightarrow> run_state (rdb (cenv c) cmd) s = (r, s') \<Longrightarrow> I s'"
    and "run_state (time_Now (cenv c)) s = (t, s') \<Longrightarrow> I s' \<and> time_wf (time_UTC t)"
    and "run_state (rand_Float64 (cenv c)) s = (x, s') \<Longrightarrow> I s'"
  using assms unfolding stable_def by (metis snd_conv fst_conv)+

lemma sends_ret: "sends f c P (ret a)" "sends f c P read_state"
  by (simp_all add: sends_def)

lemma sends_modify: "(\<And>st. f (g st) = f st) \<Longrightarrow> sends f c P (modify_state g)"
  by (simp add: sends_def)

lemma sends_bind:
  assumes "sends f c P m" "\<And>a. sends f c P (k a)"
  shows "sends f c P (State_Monad.bind m k)"
  unfolding sends_def
proof (intro allI impI)
  fix I st
  assume h: "stable c P I" "I (f st)"
  obtain a st1 where m: "run_state m st = (a, st1)" by (cases "run_state m st")
  have "I (f st1)" using assms(1) h m unfolding sends_def by (metis snd_conv)
  then have "I (f (snd (run_state (k a) st1)))" using assms(2) [of a] h(1) unfolding sends_def by blast
  then show "I (f (snd (run_state (State_Monad.bind m k) st)))" by (simp add: m)
qed

lemma sends_or_return: "sends f c P m \<Longrightarrow> (\<And>a. sends f c P (k a)) \<Longrightarrow> sends f c P (or_return m e k)"
  unfolding or_return_def by (rule sends_bind) (auto simp: sends_ret split: sum.split)

lemma sends_on_srv:
  assumes "\<And>I s a s'. stable c P I \<Longrightarrow> I s \<Longrightarrow> run_state m s = (a, s') \<Longrightarrow> I s'"
  shows "sends srv c P (on_srv m)"
  using assms by (auto simp: sends_def run_simps split: prod.split)

lemma sends_clock: "sends srv c P (now c)"
  unfolding now_def by (rule sends_on_srv) (auto dest: stableD(2))

lemma sends_random: "sends srv c P (on_srv (rand_Float64 (cenv c)))"
  by (rule sends_on_srv) (rule stableD(3))

lemma sends_now:
  assumes "\<And>t. time_wf (time_UTC t) \<Longrightarrow> sends srv c P (k t)"
  shows "sends srv c P (State_Monad.bind (now c) k)"
  unfolding sends_def
proof (intro allI impI)
  fix I and w :: "'a world"
  assume h: "stable c P I" "I (srv w)"
  obtain t s1 where t: "run_state (time_Now (cenv c)) (srv w) = (t, s1)" by (cases "run_state (time_Now (cenv c)) (srv w)")
  then have "I (srv (w\<lparr>srv := s1\<rparr>))" "time_wf (time_UTC t)" using stableD(2) [OF h] by auto
  then have "I (srv (snd (run_state (k t) (w\<lparr>srv := s1\<rparr>))))" using assms [of t] h(1) unfolding sends_def by blast
  then show "I (srv (snd (run_state (State_Monad.bind (now c) k) w)))" by (simp add: now_def run_simps t)
qed

lemma sends_call: "P cmd \<Longrightarrow> sends srv c P (call c nil_ok op conv cmd)"
proof -
  assume "P cmd"
  then have cmd: "sends srv c P (on_srv (rdb (cenv c) cmd))" by (intro sends_on_srv) (rule stableD(1))
  have "sends srv c P (checkCircuit c)" "sends srv c P (recordFailure c)" "sends srv c P recordSuccess"
    unfolding checkCircuit_def recordFailure_def recordSuccess_def
    by (auto intro!: sends_bind sends_now sends_modify sends_ret split: circuitState.split)
  then show ?thesis
    unfolding call_def by (auto intro!: sends_bind cmd sends_ret split: option.split sum.split)
qed

lemma sends_on_world: "sends srv c P m \<Longrightarrow> sends (\<lambda>st. srv (lw st)) c P (on_world m)"
  unfolding sends_def by (auto simp: run_simps split: prod.split) (metis snd_conv)

lemma bind_if: "State_Monad.bind (if b then m else n) k = (if b then State_Monad.bind m k else State_Monad.bind n k)"
  by simp

lemmas sends_rules = sends_ret sends_now sends_clock sends_random sends_bind sends_or_return sends_call sends_on_world

lemma clock_in_range: "time_wf (time_UTC t) \<Longrightarrow> int64_range (time_Unix t)"
  using time_Unix_range [of "time_UTC t"] by (simp add: time_Unix_def time_UTC_def)

text \<open>The operations of the queue and the services, on every path and whatever is answered, send only commands of the queue.\<close>

abbreviation sends_issued :: "'s queue \<Rightarrow> ('s world, 'a) state \<Rightarrow> bool" where
  "sends_issued q \<equiv> sends srv (qclient q) (issued q)"

abbreviation sends_service :: "'s queue \<Rightarrow> (('s, 'z) lstate_scheme, 'a) state \<Rightarrow> bool" where
  "sends_service q \<equiv> sends (\<lambda>st. srv (lw st)) (qclient q) (issued q)"

lemma sends_Enqueue: "sends_issued q (Enqueue q j)"
  unfolding Enqueue_def checkDeduplication_def wrapper_defs Let_def GetPriorityQueueKey_level
  by (auto intro!: sends_rules issued.intros split: option.split sum.split)

lemma sends_GetJob: "sends_issued q (GetJob q i)"
  unfolding GetJob_def wrapper_defs by (auto intro!: sends_rules issued.intros)

lemma sends_getAndUpdateJob: "sends_issued q (getAndUpdateJob q i)"
  unfolding getAndUpdateJob_def wrapper_defs Let_def by (auto intro!: sends_rules sends_GetJob issued.intros)

lemma sends_claimFromQueue: "sends_issued q (claimFromQueue q (pending_key (Prefix (qopts q)) l))"
  unfolding claimFromQueue_def wrapper_defs Let_def
  by (auto intro!: sends_rules sends_getAndUpdateJob issued.intros clock_in_range split: reply.split)

lemma sends_Claim: "sends_issued q (Claim q d)"
proof -
  have "sends_issued q (claim_loop q (map (pending_key (Prefix (qopts q))) ls))" for ls
    by (induction ls) (auto intro!: sends_rules sends_claimFromQueue split: sum.split option.split)
  moreover have "sends_issued q (claim_blocking q d)"
    unfolding claim_blocking_def wrapper_defs Let_def pending_keys
    by (auto intro!: sends_rules sends_getAndUpdateJob issued.intros split: sum.split)
  ultimately show ?thesis
    unfolding Claim_def by (intro sends_bind) (auto simp only: PriorityQueues_levels intro!: sends_rules split: option.split)
qed

lemma sends_Ack: "sends_issued q (Ack q i)"
  unfolding Ack_def wrapper_defs by (auto intro!: sends_rules issued.intros)

lemma sends_Nack: "sends_issued q (Nack q j e r)"
  unfolding Nack_def wrapper_defs Let_def GetPriorityQueueKey_level bind_if
  by (auto simp: State_Monad.bind_left_identity State_Monad.bind_assoc intro!: sends_rules issued.intros)

lemma sends_DeleteJob: "sends_issued q (DeleteJob q i)"
  unfolding DeleteJob_def PriorityQueues_levels
  by (auto simp: LRem_def Del_def intro!: sends_rules issued.intros)

lemma sends_GetStats: "sends_issued q (GetStats q)"
  unfolding GetStats_def wrapper_defs Let_def by (auto intro!: sends_rules issued.intros)

lemma sends_ListDLQ: "sends_issued q (ListDLQ q a b)"
proof -
  have "sends_issued q (get_jobs q is)" for "is" by (induction "is") (auto intro!: sends_rules sends_GetJob)
  then show ?thesis unfolding ListDLQ_def wrapper_defs by (auto intro!: sends_rules issued.intros)
qed

lemma sends_RetryDLQJob: "sends_issued q (RetryDLQJob q i)"
  unfolding RetryDLQJob_def wrapper_defs Let_def GetPriorityQueueKey_level
  by (auto intro!: sends_rules sends_GetJob issued.intros)

lemma sends_recoverJob:
  assumes "wclient wd = qclient q" "wqueue wd = q" "wd_Prefix (wcfg wd) = Prefix (qopts q)"
  shows "sends_issued q (recoverJob wd i)"
  unfolding recoverJob_def wrapper_defs Let_def GetPriorityQueueKey_level assms wd_keys
  by (auto intro!: sends_rules sends_GetJob issued.intros)

lemma sends_AckJob: "sends_issued q (AckJob q jp res)"
  unfolding AckJob_def wrapper_defs Let_def
  by (auto intro!: sends_rules sends_Ack issued.intros split: option.split sum.split)

lemma sends_NackJob: "sends_issued q (NackJob q jp e cfg)"
  unfolding NackJob_def NextRetryTime_def Let_def
  by (auto intro!: sends_rules sends_Nack split: option.split sum.split prod.split)

lemma sends_dlq_Delete: "sends_issued q (dlq_Delete q i)"
  unfolding dlq_Delete_def wrapper_defs by (auto intro!: sends_rules issued.intros)

text \<open>The services: leader election, the watchdog and the scheduler, over the queue's client and keys.\<close>

definition leads_on :: "'s leaderElection \<Rightarrow> 's queue \<Rightarrow> bool" where
  "leads_on l q \<longleftrightarrow> le_client l = qclient q \<and> foreign q (le_lockKey l)"

definition watches :: "'s Watchdog \<Rightarrow> 's queue \<Rightarrow> bool" where
  "watches wd q \<longleftrightarrow> wclient wd = qclient q \<and> wqueue wd = q \<and> wd_Prefix (wcfg wd) = Prefix (qopts q) \<and> leads_on (wleader wd) q"

definition schedules :: "'s Scheduler \<Rightarrow> 's queue \<Rightarrow> bool" where
  "schedules sc q \<longleftrightarrow> sclient sc = qclient q \<and> squeue sc = q \<and> KeyPrefix (sconfig sc) = Prefix (qopts q) \<and> leads_on (sleader sc) q"

lemma sends_leader:
  assumes "leads_on l q"
  shows "sends_service q (TryAcquire l)" "sends_service q (Renew l)"
  using assms unfolding leads_on_def leader_defs wrapper_defs
  by (auto intro!: sends_rules sends_modify issued.intros split: sum.split)

lemma sends_watchdog_run:
  assumes "watches wd q"
  shows "sends_service q (watchdog_run wd es)"
proof (induction es)
  case (Cons e es)
  have "sends_issued q (recoverJob wd i)" for i using assms by (auto simp: watches_def intro: sends_recoverJob)
  then have "sends_issued q (recover_each wd is)" for "is" by (induction "is") (auto intro!: sends_rules)
  moreover have "sends_issued q (findStuckJobs wd)"
    using assms unfolding findStuckJobs_def wrapper_defs Let_def watches_def by (auto intro!: sends_rules issued.intros)
  moreover have "leads_on (wleader wd) q" using assms by (simp add: watches_def)
  ultimately show ?case using Cons
    by (auto simp: scanAndRecover_def watchdog_tryMaintainLeadership_def intro!: sends_rules sends_leader split: service_event.split sum.split)
qed (simp add: sends_ret)

lemma sends_scheduler:
  assumes "schedules sc q"
  shows "sends_issued q (Schedule sc j t)" "sends_issued q (Cancel sc i)" "sends_issued q (GetScheduledCount sc)"
    "sends_issued q (move_each sc is)"
proof -
  note a = assms [unfolded schedules_def]
  show "sends_issued q (Schedule sc j t)" "sends_issued q (Cancel sc i)" "sends_issued q (GetScheduledCount sc)"
    using a wd_keys(4) [of q] unfolding Schedule_def Cancel_def GetScheduledCount_def wrapper_defs
    by (auto intro!: sends_rules issued.intros)
  have "sends_issued q (moveJobToPending sc i)" for i
    using a unfolding moveJobToPending_def by (auto intro!: sends_rules sends_GetJob sends_Enqueue)
  then show "sends_issued q (move_each sc is)"
    using a by (induction "is") (auto simp: ZRem_def intro!: sends_rules issued.intros split: sum.split)
qed

lemma sends_scheduler_run:
  assumes "schedules sc q"
  shows "sends_service q (scheduler_run sc es)"
proof (induction es)
  case (Cons e es)
  have "leads_on (sleader sc) q" "sclient sc = qclient q" using assms by (simp_all add: schedules_def)
  then show ?case using Cons sends_scheduler(4) [OF assms]
    by (auto simp: pollAndEnqueue_def scheduler_tryMaintainLeadership_def ZRangeByScore_def
        intro!: sends_rules sends_leader issued.intros split: service_event.split sum.split)
qed (simp add: sends_ret)

lemmas sends_operations = sends_Enqueue sends_Claim sends_AckJob sends_NackJob sends_GetJob sends_DeleteJob sends_GetStats sends_ListDLQ
  sends_RetryDLQJob sends_dlq_Delete sends_scheduler

section \<open>A server shared by many clients\<close>

text \<open>
  One client of a server that others use. While a call of this client is under way the server runs commands of the other clients of
  the queue, in any number; the command of the call itself may reach it once, never (the link failed), or several times
  (go-redis sends a command again when the connection breaks before the answer), and the answer may be anything. The world keeps
  the log of what the server ran.
\<close>

locale shared_redis =
  fixes q :: "'s queue" and view :: "'s \<Rightarrow> rstate" and hist :: "'s \<Rightarrow> transfer list" and sha :: "script \<Rightarrow> string" and rnd :: string
  assumes command: "run_state (rdb (cenv (qclient q)) cmd) s = (r, s') \<Longrightarrow>
      \<exists>xs. (\<forall>x \<in> set xs. issued q (snd x) \<or> snd x = cmd) \<and> view s' = snd (run_trace sha rnd xs (view s)) \<and>
        hist s' = hist s @ fst (run_trace sha rnd xs (view s))"
    and clock_runs: "run_state (time_Now (cenv (qclient q))) s = (t, s') \<Longrightarrow>
      \<exists>xs. (\<forall>x \<in> set xs. issued q (snd x)) \<and> view s' = snd (run_trace sha rnd xs (view s)) \<and>
        hist s' = hist s @ fst (run_trace sha rnd xs (view s)) \<and> time_wf (time_UTC t)"
    and random_runs: "run_state (rand_Float64 (cenv (qclient q))) s = (x, s') \<Longrightarrow>
      \<exists>xs. (\<forall>x \<in> set xs. issued q (snd x)) \<and> view s' = snd (run_trace sha rnd xs (view s)) \<and>
        hist s' = hist s @ fst (run_trace sha rnd xs (view s))"
begin

text \<open>The log since a state \<open>s0\<close> accounts for what the lists hold.\<close>

definition accounted :: "'s \<Rightarrow> 's \<Rightarrow> bool" where
  "accounted s0 s \<longleftrightarrow>
    (\<exists>trs. hist s = hist s0 @ trs \<and> list_all (\<lambda>tr. issued q (fst tr)) trs \<and> accounts q (view s0) trs (view s))"

lemma accounted_trace:
  assumes "accounted s0 s" "ttls_ok q" "\<forall>x \<in> set xs. issued q (snd x)" "view s' = snd (run_trace sha rnd xs (view s))"
    "hist s' = hist s @ fst (run_trace sha rnd xs (view s))"
  shows "accounted s0 s'"
proof -
  obtain trs where t: "hist s = hist s0 @ trs" "accounts q (view s0) trs (view s)" "list_all (\<lambda>tr. issued q (fst tr)) trs"
    using assms(1) by (auto simp: accounted_def)
  have "list_all (\<lambda>tr. issued q (fst tr)) (fst (run_trace sha rnd xs (view s)))"
    using assms(3) by (intro run_trace_cmds) (simp add: list_all_iff)
  moreover have "accounts q (view s) (fst (run_trace sha rnd xs (view s))) (view s')"
    using run_trace_accounts [of q xs "view s" sha rnd] assms(2-4) t(2) by (simp add: list_all_iff accounts_def prod_eq_iff)
  ultimately show ?thesis
    using accounts_append [OF t(2)] t(1,3) assms(5) by (auto simp: accounted_def)
qed

lemma sends_accounted:
  assumes "sends_issued q m" "ttls_ok q" "accounted s0 (srv w)"
  shows "accounted s0 (srv (snd (run_state m w)))"
proof -
  have "accounted s0 (snd (run_state (rdb (cenv (qclient q)) cmd) s))" if "issued q cmd" "accounted s0 s" for cmd s
    using command [of cmd s] accounted_trace [OF that(2) assms(2)] that(1) by (metis prod.collapse)
  moreover have "accounted s0 (snd (run_state (time_Now (cenv (qclient q))) s)) \<and>
      time_wf (time_UTC (fst (run_state (time_Now (cenv (qclient q))) s)))" if "accounted s0 s" for s
    using clock_runs [of s] accounted_trace [OF that assms(2)] by (metis prod.collapse)
  moreover have "accounted s0 (snd (run_state (rand_Float64 (cenv (qclient q))) s))" if "accounted s0 s" for s
    using random_runs [of s] accounted_trace [OF that assms(2)] by (metis prod.collapse)
  ultimately have "stable (qclient q) (issued q) (accounted s0)" by (simp add: stable_def)
  then show ?thesis using assms(1,3) unfolding sends_def by blast
qed

end

text \<open>
  What a client does: the operations of the API and of a worker on the queue, and events of a watchdog or a scheduler that leads or
  not. A sequence of them is one client's life.
\<close>

datatype operation = OpEnqueue Job | OpClaim int | OpAckJob "Job option" "string option" | OpNackJob "Job option" string BackoffConfig
  | OpGetJob string | OpDeleteJob string | OpGetStats | OpListDLQ int int | OpRetryDLQJob string | OpDeleteDLQ string
  | OpSchedule Job gotime | OpCancel string | OpCountScheduled | OpWatchdog bool "service_event list" | OpScheduler bool "service_event list"

definition as_client :: "bool \<Rightarrow> ('s lstate, unit) state \<Rightarrow> ('s world, unit) state" where
  "as_client b m = State (\<lambda>w. case run_state m \<lparr>lw = w, isLeader = b\<rparr> of (a, st) \<Rightarrow> (a, lw st))"

lemma sends_as_client: "sends (\<lambda>st. srv (lw st)) c P m \<Longrightarrow> sends srv c P (as_client b m)"
  unfolding sends_def as_client_def by (auto split: prod.split) (metis lstate.select_convs(1) snd_conv)

definition forget :: "('s, 'a) state \<Rightarrow> ('s, unit) state" where
  "forget m = do { _ \<leftarrow> m; ret () }"

fun perform_operation :: "'s queue \<Rightarrow> 's Watchdog \<Rightarrow> 's Scheduler \<Rightarrow> operation \<Rightarrow> ('s world, unit) state" where
  "perform_operation q wd sc (OpEnqueue j) = forget (Enqueue q j)"
| "perform_operation q wd sc (OpClaim d) = forget (Claim q d)"
| "perform_operation q wd sc (OpAckJob jp res) = forget (AckJob q jp res)"
| "perform_operation q wd sc (OpNackJob jp e cfg) = forget (NackJob q jp e cfg)"
| "perform_operation q wd sc (OpGetJob i) = forget (GetJob q i)"
| "perform_operation q wd sc (OpDeleteJob i) = forget (DeleteJob q i)"
| "perform_operation q wd sc OpGetStats = forget (GetStats q)"
| "perform_operation q wd sc (OpListDLQ a b) = forget (ListDLQ q a b)"
| "perform_operation q wd sc (OpRetryDLQJob i) = forget (RetryDLQJob q i)"
| "perform_operation q wd sc (OpDeleteDLQ i) = forget (dlq_Delete q i)"
| "perform_operation q wd sc (OpSchedule j t) = forget (Schedule sc j t)"
| "perform_operation q wd sc (OpCancel i) = forget (Cancel sc i)"
| "perform_operation q wd sc OpCountScheduled = forget (GetScheduledCount sc)"
| "perform_operation q wd sc (OpWatchdog b es) = as_client b (watchdog_run wd es)"
| "perform_operation q wd sc (OpScheduler b es) = as_client b (scheduler_run sc es)"

fun perform_all :: "'s queue \<Rightarrow> 's Watchdog \<Rightarrow> 's Scheduler \<Rightarrow> operation list \<Rightarrow> ('s world, unit) state" where
  "perform_all q wd sc [] = ret ()"
| "perform_all q wd sc (p # ps) = do { perform_operation q wd sc p; perform_all q wd sc ps }"

lemma sends_perform_all:
  assumes "watches wd q" "schedules sc q"
  shows "sends_issued q (perform_all q wd sc ps)"
proof (induction ps)
  case (Cons p ps)
  have "sends_issued q (perform_operation q wd sc p)"
    using sends_operations assms sends_watchdog_run [OF assms(1)] sends_scheduler_run [OF assms(2)]
    by (cases p) (auto simp: forget_def intro!: sends_bind sends_ret sends_as_client sends_operations)
  then show ?case using Cons by (auto intro!: sends_bind)
qed (simp add: sends_ret)

end
