(* ===== verification/Interleaving_Theorems.thy ===== *)
theory Interleaving_Theorems
  imports Interleaving
begin

text \<open>
  Theorems on many clients of one queue: what holds under every interleaving of their commands, and a
  race between the recovery of a job and its acknowledgement. The last section has a shared server in memory.
\<close>

section \<open>Every interleaving\<close>

lemma accounted_run:
  assumes "shared_redis q view hist sha rnd" "ttls_ok q" "watches wd q" "schedules sc q" "shared_ok q (view (srv w))"
  obtains trs where "hist (srv (snd (run_state (perform_all q wd sc ps) w))) = hist (srv w) @ trs"
    "list_all (\<lambda>tr. issued q (fst tr)) trs" "accounts q (view (srv w)) trs (view (srv (snd (run_state (perform_all q wd sc ps) w))))"
proof -
  have "shared_redis.accounted q view hist (srv w) (srv w)"
    using assms(5) by (auto simp: shared_redis.accounted_def [OF assms(1)])
  from shared_redis.sends_accounted [OF assms(1) sends_perform_all [OF assms(3,4)] assms(2) this]
  show thesis using that by (auto simp: shared_redis.accounted_def [OF assms(1)])
qed


text \<open>An identifier enters processing only from a pending list.\<close>

lemma claims_from_waiting:
  assumes "list_all (\<lambda>tr. issued q (fst tr)) trs" "scripts_loaded m q"
  shows "all_enter q Running trs \<subseteq># all_leave q Waiting trs"
  using assms(1)
proof (induction trs)
  case (Cons tr trs)
  obtain cmd r where tr: "tr = (cmd, r)" by (cases tr)
  with Cons.prems have "issued q cmd" by simp
  then have "enters q Running (cmd, r) \<subseteq># leaves q Waiting (cmd, r)"
    using scripts_distinct [OF assms(2)] by cases (auto split: sum.split reply.split)
  then show ?case using Cons by (auto simp: all_enter_def all_leave_def tr intro: subset_mset.add_mono)
qed (simp add: all_enter_def all_leave_def)

text \<open>C2. Claims are exclusive under every interleaving: an identifier is handed out at most as often as it waited at the start or
  was pushed to a pending list, and it leaves processing, by an acknowledgement of either kind or a recovery, at most as often as it
  was in processing at the start or was claimed. So a job that is pushed once goes to one worker only, and is
  settled at most once.\<close>

theorem interleaved_claims_exclusive:
  assumes "shared_redis q view hist sha rnd" and "ttls_ok q" and "watches wd q" and "schedules sc q" and "shared_ok q (view (srv w))"
  shows "\<exists>trs. hist (srv (snd (run_state (perform_all q wd sc ps) w))) = hist (srv w) @ trs \<and>
    (\<forall>i. count (all_enter q Running trs) i \<le> count (held q (view (srv w)) Waiting) i + count (all_enter q Waiting trs) i \<and>
       count (all_leave q Running trs) i \<le> count (held q (view (srv w)) Running) i + count (all_enter q Running trs) i)"
proof -
  let ?w = "snd (run_state (perform_all q wd sc ps) w)" and ?R = "view (srv w)"
  obtain trs where t: "hist (srv ?w) = hist (srv w) @ trs" "list_all (\<lambda>tr. issued q (fst tr)) trs" "accounts q ?R trs (view (srv ?w))"
    by (rule accounted_run [OF assms])
  have c: "all_enter q Running trs \<subseteq># all_leave q Waiting trs"
    by (rule claims_from_waiting [OF t(2) shared_okD(6) [OF assms(5)]])
  have "all_leave q pl trs \<subseteq># held q ?R pl + all_enter q pl trs" for pl
    using t(3) by (metis accounts_def mset_subset_eq_add_right)
  then have "count (all_leave q pl trs) i \<le> count (held q ?R pl) i + count (all_enter q pl trs) i" for pl i
    by (metis count_union mset_subset_eq_count)
  moreover have "count (all_enter q Running trs) i \<le> count (all_leave q Waiting trs) i" for i
    using c by (rule mset_subset_eq_count)
  ultimately show ?thesis using t(1) by (meson order_trans)
qed

section \<open>A shared server in memory\<close>

text \<open>
  A server with its log, and a schedule: the commands that others send before this client's \<open>n\<close>-th call.
\<close>

record shared =
  sh_redis :: rstate
  sh_log :: "transfer list"
  sh_turn :: nat

type_synonym schedule = "nat \<Rightarrow> (int \<times> rcmd) list"

definition sh_run :: "(int \<times> rcmd) list \<Rightarrow> shared \<Rightarrow> shared" where
  "sh_run xs s = s\<lparr>sh_redis := snd (run_trace sha_text ''0.5'' xs (sh_redis s)),
     sh_log := sh_log s @ fst (run_trace sha_text ''0.5'' xs (sh_redis s))\<rparr>"

definition shared_env :: "schedule \<Rightarrow> shared env" where
  "shared_env sched = \<lparr>
     rdb = (\<lambda>cmd. State (\<lambda>s. let s' = sh_run (sched (sh_turn s) @ [(int (sh_turn s), cmd)]) s
       in (goredis (snd (last (sh_log s'))), s'\<lparr>sh_turn := sh_turn s + 1\<rparr>))),
     time_Now = State (\<lambda>s. (Time (clamp_ms 1700000000000 * millisecond) 0, s)),
     uuid_New = ret (nth_uuid 0), uuid_ok = uuid_shape, rand_Float64 = ret (1 / 2)\<rparr>"

definition shared_queue :: "schedule \<Rightarrow> shared queue" where
  "shared_queue sched = \<lparr>qclient = \<lparr>cenv = shared_env sched, copts = redis_DefaultOptions\<rparr>, qopts = queue_DefaultOptions,
     scripts = scripts mem_queue\<rparr>"

lemma shared_contract:
  assumes "\<forall>n. \<forall>x \<in> set (sched n). issued (shared_queue sched) (snd x)"
  shows "shared_redis (shared_queue sched) sh_redis sh_log sha_text ''0.5''"
proof
  fix cmd s r s'
  assume "run_state (rdb (cenv (qclient (shared_queue sched))) cmd) s = (r, s')"
  then have s': "sh_redis s' = snd (run_trace sha_text ''0.5'' (sched (sh_turn s) @ [(int (sh_turn s), cmd)]) (sh_redis s))"
    "sh_log s' = sh_log s @ fst (run_trace sha_text ''0.5'' (sched (sh_turn s) @ [(int (sh_turn s), cmd)]) (sh_redis s))"
    by (auto simp: shared_queue_def shared_env_def Let_def sh_run_def)
  show "\<exists>xs. (\<forall>x \<in> set xs. issued (shared_queue sched) (snd x) \<or> snd x = cmd) \<and>
      sh_redis s' = snd (run_trace sha_text ''0.5'' xs (sh_redis s)) \<and>
      sh_log s' = sh_log s @ fst (run_trace sha_text ''0.5'' xs (sh_redis s))"
    by (rule exI [of _ "sched (sh_turn s) @ [(int (sh_turn s), cmd)]"]) (use s' assms in auto)
next
  fix s t s'
  assume "run_state (time_Now (cenv (qclient (shared_queue sched)))) s = (t, s')"
  then have "s' = s" "time_wf (time_UTC t)"
    using time_wf_clamp [of 1700000000000] by (auto simp: shared_queue_def shared_env_def time_UTC_def)
  then show "\<exists>xs. (\<forall>x \<in> set xs. issued (shared_queue sched) (snd x)) \<and> sh_redis s' = snd (run_trace sha_text ''0.5'' xs (sh_redis s)) \<and>
      sh_log s' = sh_log s @ fst (run_trace sha_text ''0.5'' xs (sh_redis s)) \<and> time_wf (time_UTC t)"
    by (intro exI [of _ "[]"]) simp
next
  fix s x s'
  assume "run_state (rand_Float64 (cenv (qclient (shared_queue sched)))) s = (x, s')"
  then have "s' = s" by (simp add: shared_queue_def shared_env_def)
  then show "\<exists>xs. (\<forall>x \<in> set xs. issued (shared_queue sched) (snd x)) \<and> sh_redis s' = snd (run_trace sha_text ''0.5'' xs (sh_redis s)) \<and>
      sh_log s' = sh_log s @ fst (run_trace sha_text ''0.5'' xs (sh_redis s))"
    by (intro exI [of _ "[]"]) simp
qed

text \<open>A client of the shared server whose circuit is closed, and one call of it.\<close>

definition sh_world :: "rstate \<Rightarrow> transfer list \<Rightarrow> nat \<Rightarrow> shared world" where
  "sh_world R L n = \<lparr>srv = \<lparr>sh_redis = R, sh_log = L, sh_turn = n\<rparr>, cstate = circuitClosed, failures = 0, lastFailure = 0\<rparr>"

lemma sh_world_sel [simp]: "sh_redis (srv (sh_world R L n)) = R" "sh_log (srv (sh_world R L n)) = L"
  by (simp_all add: sh_world_def)

lemma run_trace_append:
  "run_trace sha rnd (xs @ ys) R =
    (case run_trace sha rnd xs R of (trs, R1) \<Rightarrow> (case run_trace sha rnd ys R1 of (trs', R2) \<Rightarrow> (trs @ trs', R2)))"
  by (induction sha rnd xs R rule: run_trace.induct) (auto split: prod.splits)

lemma shared_call:
  assumes "run_trace sha_text ''0.5'' (sched n) R = (trs, R1)" "exec sha_text ''0.5'' (int n) cmd R1 = (r, R2)" "conv (goredis r) = Inr v"
  shows "run_state (call (qclient (shared_queue sched)) nil_ok op conv cmd) (sh_world R L n) =
    (Inr v, sh_world R2 (L @ trs @ [(cmd, r)]) (Suc n))"
  using assms by (simp add: run_call checkCircuit_healthy IsHealthy_def sh_world_def shared_queue_def shared_env_def sh_run_def
      run_trace_append Let_def)

lemma shared_call_alone:
  "sched n = [] \<Longrightarrow> exec sha_text ''0.5'' (int n) cmd R = (r, R2) \<Longrightarrow> conv (goredis r) = Inr v \<Longrightarrow>
     run_state (call (qclient (shared_queue sched)) nil_ok op conv cmd) (sh_world R L n) = (Inr v, sh_world R2 (L @ [(cmd, r)]) (Suc n))"
  using shared_call [of sched n R "[]" R cmd r R2 conv v nil_ok op L] by simp

lemma unit_reply:
  assumes "shared_ok q R" "ttls_ok q" "cmd \<in> {ZREM (timestampsKey q) [i], LREM (processingKey q) 1 i, DEL [lockKey q i], SET (jobKey q i) d 0}"
  obtains r R' where "exec sha rnd t cmd R = (r, R')" "as_unit (goredis r) = Inr ()" "shared_ok q R'"
proof -
  have "issued q cmd" using assms(3) by (auto intro: issued.intros)
  from exec_balanced [OF this assms(1,2), of sha rnd t] have ok: "shared_ok q (snd (exec sha rnd t cmd R))"
    by (auto simp: step_balanced_def balanced_def split: prod.splits)
  have "as_unit (goredis (fst (exec sha rnd t cmd R))) = Inr ()"
    using assms(3) shared_okD(3,5) [OF assms(1)]
    by (auto simp: exec_basic_cmd with_list_is_list with_zset_is_zset Let_def as_unit_def del_keys_one)
  then show thesis using ok that by (metis prod.collapse)
qed

section \<open>A race\<close>

text \<open>Another client acknowledges a job after the watchdog has read it and before it removes it from processing.\<close>

definition ack_command :: "string \<Rightarrow> rcmd" where
  "ack_command i = EVALSHA (AckJob_sha (scripts mem_queue)) [processingKey mem_queue, lockKey mem_queue i, timestampsKey mem_queue] [i]"

definition ack_race :: "string \<Rightarrow> schedule" where
  "ack_race i n = (if n = 1 then [(1, ack_command i)] else [])"

lemma shared_keys:
  "qopts (shared_queue sched) = qopts mem_queue" "scripts (shared_queue sched) = scripts mem_queue"
  "processingKey (shared_queue sched) = processingKey mem_queue" "timestampsKey (shared_queue sched) = timestampsKey mem_queue"
  "lockKey (shared_queue sched) = lockKey mem_queue"
  by (simp_all add: shared_queue_def mem_queue_def key_defs fun_eq_iff)

lemma shared_ttls: "ttls_ok (shared_queue sched)"
  using whole_seconds_exact [of 600] whole_seconds_exact [of 86400] by (simp add: ttls_ok_def shared_queue_def queue_DefaultOptions_def)

lemma ack_in_race:
  assumes "shared_ok (shared_queue sched) R" "i \<in> set (running (queue_view (shared_queue sched) (keyspace R)))"
  obtains R' where "exec sha_text ''0.5'' 1 (ack_command i) R = (Inr (RInt 1), R')" "shared_ok (shared_queue sched) R'"
proof -
  let ?q = "shared_queue sched"
  note d = shared_okD [OF assms(1)]
  have a: "ack_command i = EVALSHA (AckJob_sha (scripts ?q)) [processingKey ?q, lockKey ?q i, timestampsKey ?q] [i]"
    by (simp add: ack_command_def shared_keys)
  have "issued ?q (ack_command i)" unfolding a by (rule ack_script)
  from exec_balanced [OF this assms(1) shared_ttls, of sha_text "''0.5''" 1]
  have ok: "shared_ok ?q (snd (exec sha_text ''0.5'' 1 (ack_command i) R))"
    by (auto simp: step_balanced_def balanced_def split: prod.splits)
  have "fst (exec sha_text ''0.5'' 1 (ack_command i) R) = Inr (RInt 1)"
    using ackJob_script [OF d(3,5), of "lockKey ?q i" "''0.5''" 1 i] assms(2) d(6)
    by (simp add: a exec_def run_lua_def scripts_loaded_def key_simps)
  then show thesis using ok that by (metis prod.collapse)
qed

text \<open>The writes of the recovery after the first, when no other client interferes.\<close>

lemma recovery_rest:
  assumes q: "q = shared_queue sched" and alone: "\<And>n. 2 \<le> n \<Longrightarrow> sched n = []" and ok: "shared_ok q R2"
  obtains R3 R4 R5 R6 trs where
    "run_state (LRem (qclient q) (processingKey q) 1 i) (sh_world R2 L 2) = (Inr (), sh_world R3 (L @ take 1 trs) 3)"
    "run_state (Del (qclient q) [lockKey q i]) (sh_world R3 (L @ take 1 trs) 3) = (Inr (), sh_world R4 (L @ take 2 trs) 4)"
    "run_state (Set (qclient q) (jobKey q i) d 0) (sh_world R4 (L @ take 2 trs) 4) = (Inr (), sh_world R5 (L @ take 3 trs) 5)"
    "run_state (LPush (qclient q) (pending_key (Prefix (qopts q)) l) [i]) (sh_world R5 (L @ take 3 trs) 5) = (Inr (), sh_world R6 (L @ trs) 6)"
    "i \<in> set (pend (queue_view q (keyspace R6)) l)"
proof -
  note u = unit_reply [OF _ shared_ttls, of sched, folded q, where i = i and d = d and sha = sha_text and rnd = "''0.5''"]
  note c = shared_call_alone [where sched = sched and conv = as_unit and v = "()", OF alone, folded q]
  obtain r3 R3 where 3: "exec sha_text ''0.5'' 2 (LREM (processingKey q) 1 i) R2 = (r3, R3)" "as_unit (goredis r3) = Inr ()" "shared_ok q R3"
    using u [OF ok, of "LREM (processingKey q) 1 i" 2] by blast
  obtain r4 R4 where 4: "exec sha_text ''0.5'' 3 (DEL [lockKey q i]) R3 = (r4, R4)" "as_unit (goredis r4) = Inr ()" "shared_ok q R4"
    using u [OF 3(3), of "DEL [lockKey q i]" 3] by blast
  obtain r5 R5 where 5: "exec sha_text ''0.5'' 4 (SET (jobKey q i) d 0) R4 = (r5, R5)" "as_unit (goredis r5) = Inr ()" "shared_ok q R5"
    using u [OF 4(3), of "SET (jobKey q i) d 0" 4] by blast
  let ?k = "pending_key (Prefix (qopts q)) l"
  define R6 where "R6 = R5\<lparr>keyspace := put_list ?k (i # list_of (keyspace R5) ?k) None (keyspace R5)\<rparr>"
  define r6 :: "goerror + reply" where "r6 = Inr (RInt (int (length (i # list_of (keyspace R5) ?k))))"
  have 6: "exec sha_text ''0.5'' 5 (LPUSH ?k [i]) R5 = (r6, R6)" "as_unit (goredis r6) = Inr ()"
    using shared_okD(2) [OF 5(3), of l] by (simp_all add: exec_basic_cmd with_list_is_list Let_def R6_def r6_def as_unit_def)
  let ?trs = "[(LREM (processingKey q) 1 i, r3), (DEL [lockKey q i], r4), (SET (jobKey q i) d 0, r5), (LPUSH ?k [i], r6)]"
  show thesis
    by (rule that [of R3 ?trs R4 R5 R6]; (unfold wrapper_defs)?)
      (use c [where n = 2] c [where n = 3] c [where n = 4] c [where n = 5] 3 4 5 6 in \<open>simp_all add: eval_nat_numeral R6_def\<close>)
qed


section \<open>The race on the shared server in memory\<close>

abbreviation racing :: "shared queue" where
  "racing \<equiv> shared_queue (ack_race (ID mem_job))"

definition stuck_state :: rstate where
  "stuck_state = \<lparr>keyspace = stuck_db, cached = mem_cache\<rparr>"

definition racing_watchdog :: "shared Watchdog" where
  "racing_watchdog = fst (watchdog_New (qclient racing) racing (watchdog_DefaultConfig ''w1'') (sh_world stuck_state [] 0))"

definition racing_scheduler :: "shared Scheduler" where
  "racing_scheduler = fst (scheduler_New (qclient racing) racing (scheduler_DefaultConfig ''s1'') (sh_world stuck_state [] 0))"

lemma racing_parts:
  "watches racing_watchdog racing" "schedules racing_scheduler racing" "shared_ok racing stuck_state" "queue_view racing D = queue_view mem_queue D"
  "\<forall>n. \<forall>x \<in> set (ack_race (ID mem_job) n). issued racing (snd x)"
proof -
  have k: "processingKey racing = processingKey mem_queue" "dlqKey racing = dlqKey mem_queue" "timestampsKey racing = timestampsKey mem_queue"
    "jobKey racing = jobKey mem_queue" "lockKey racing = lockKey mem_queue"
    by (simp_all add: key_defs shared_keys fun_eq_iff)
  show "watches racing_watchdog racing"
    by (simp add: watches_def racing_watchdog_def watchdog_New_def watchdog_DefaultConfig_def NewLeaderElection_def DefaultLeaderConfig_def
        leads_on_def foreign_def key_defs shared_keys mem_queue_def queue_DefaultOptions_def split: level.split)
  show "schedules racing_scheduler racing"
    by (simp add: schedules_def racing_scheduler_def scheduler_New_def scheduler_DefaultConfig_def NewLeaderElection_def
        leads_on_def foreign_def key_defs shared_keys mem_queue_def queue_DefaultOptions_def split: level.split)
  have "queue_wf racing stuck_db = queue_wf mem_queue stuck_db" by (simp only: queue_wf_def k shared_keys)
  moreover have "scripts_loaded mem_cache racing"
    by (simp add: scripts_loaded_def shared_keys mem_queue_def mem_cache_def)
  ultimately show "shared_ok racing stuck_state" by (simp add: shared_ok_def stuck_state_def)
  show "queue_view racing D = queue_view mem_queue D" by (simp only: queue_view_def k shared_keys)
  show "\<forall>n. \<forall>x \<in> set (ack_race (ID mem_job) n). issued racing (snd x)"
    using ack_script [of racing "ID mem_job"] by (simp add: ack_race_def ack_command_def k shared_keys)
qed

interpretation race: shared_redis racing sh_redis sh_log sha_text "''0.5''"
  by (rule shared_contract [OF racing_parts(5)])


theorem interleaved_claims_exclusive_witness:
  "\<exists>trs. sh_log (srv (snd (run_state (perform_all racing racing_watchdog racing_scheduler [OpClaim second, OpClaim second]) (sh_world stuck_state [] 0)))) = trs \<and>
     count (all_enter racing Running trs) (ID mem_job) \<le> count (all_enter racing Waiting trs) (ID mem_job)"
proof -
  have "held racing stuck_state Waiting = {#}" by (simp add: held_def racing_parts(4) stuck_state_def stuck_db_def key_simps)
  then show ?thesis
    using interleaved_claims_exclusive [OF race.shared_redis_axioms shared_ttls racing_parts(1,2), of "sh_world stuck_state [] 0"] racing_parts(3)
    by (simp del: perform_all.simps)
qed


end
