(* ===== verification/Scheduler_Theorems.thy ===== *)
theory Scheduler_Theorems
  imports Scheduler Watchdog_Theorems
begin

text \<open>
  Correctness of the scheduler on a working link: what scheduling and cancelling leave behind, that a
  poll of the leader moves exactly the due jobs and never one that is not due, and that a job that
  cannot be moved stays and blocks its place in the batch.
\<close>

section \<open>The scheduled jobs in the keyspace\<close>

definition scheduledKey :: "'s queue \<Rightarrow> string" where
  "scheduledKey q = Prefix (qopts q) @ '':scheduled''"

lemma scheduledKey_other [key_simps]:
  "scheduledKey q \<noteq> pending_key (Prefix (qopts q)) l" "scheduledKey q \<noteq> processingKey q" "scheduledKey q \<noteq> dlqKey q"
  "scheduledKey q \<noteq> timestampsKey q" "scheduledKey q \<noteq> jobKey q i" "scheduledKey q \<noteq> lockKey q i"
  "scheduledKey q \<noteq> dedupKey q u"
  by (cases l; simp add: key_defs scheduledKey_def)+

lemmas scheduledKey_other_sym [key_simps] = scheduledKey_other [THEN not_sym]

lemma put_scheduled [simp]:
  "queue_wf q (put_zset (scheduledKey q) zs None D) = queue_wf q D"
  "queue_view q (put_zset (scheduledKey q) zs None D) = queue_view q D"
  by (simp_all add: queue_wf_def queue_view_def key_simps)

lemma enqueue_db_scheduled [simp]:
  "zset_of (enqueue_db q l i d D) (scheduledKey q) = zset_of D (scheduledKey q)"
  "is_zset (enqueue_db q l i d D) (scheduledKey q) = is_zset D (scheduledKey q)"
  by (simp_all add: enqueue_db_def key_simps)

text \<open>A scheduler over the queue's own client and keys.\<close>

locale scheduler_on_redis = queue_on_redis c view stime up sha rnd q
  for c :: "'s client" and view :: "'s \<Rightarrow> rstate" and stime :: "'s \<Rightarrow> int" and up :: "'s \<Rightarrow> bool"
    and sha :: "script \<Rightarrow> string" and rnd :: string and q :: "'s queue" +
  fixes sch :: "'s Scheduler"
  assumes sch_parts: "sclient sch = c" "squeue sch = q" "KeyPrefix (sconfig sch) = Prefix (qopts q)"

definition scheduler_ready :: "('s \<Rightarrow> rstate) \<Rightarrow> ('s \<Rightarrow> bool) \<Rightarrow> 's queue \<Rightarrow> 's world \<Rightarrow> bool" where
  "scheduler_ready view up q w \<longleftrightarrow> queue_ready view up q w \<and> is_zset (db view w) (scheduledKey q)"

abbreviation scheduled :: "('s \<Rightarrow> rstate) \<Rightarrow> 's queue \<Rightarrow> 's world \<Rightarrow> (int \<times> string) list" where
  "scheduled view q w \<equiv> zset_of (db view w) (scheduledKey q)"

text \<open>A job that a poll can move: it is stored, valid and has no unique key.\<close>

definition movable :: "(string \<Rightarrow> bool) \<Rightarrow> aqueue \<Rightarrow> string \<Rightarrow> bool" where
  "movable ok a i \<longleftrightarrow>
     (\<exists>j. stored a i = Some (job_text j) \<and> job_wf j \<and> ID j = i \<and> UniqueKey j = [] \<and> Validate ok j = None)"

definition pending_job :: "Job \<Rightarrow> Job" where
  "pending_job j = (stored_form j)\<lparr>Status := StatusPending\<rparr>"

lemma pending_job_simps [simp]:
  "ID (pending_job j) = ID j" "Priority (pending_job j) = Priority j" "UniqueKey (pending_job j) = UniqueKey j"
  "job_wf j \<Longrightarrow> job_wf (pending_job j)" "Validate ok (pending_job j) = Validate ok j"
  using job_wf_stored_form [of j]
  by (simp_all add: pending_job_def job_wf_def status_known_def Validate_def)

context scheduler_on_redis begin

lemma scheduled_key: "KeyPrefix (sconfig sch) @ '':scheduled'' = scheduledKey q"
  by (simp add: sch_parts scheduledKey_def)

lemma zrem_scheduled:
  assumes "scheduler_ready view up q w"
  obtains w' where "run_state (ZRem c (scheduledKey q) [i]) w = (Inr (), w')" "scheduler_ready view up q w'"
    "queue_view q (db view w') = queue_view q (db view w)" "scheduled view q w' = zrem [i] (scheduled view q w)"
proof -
  have q: "queue_ready view up q w" "is_zset (db view w) (scheduledKey q)" using assms by (simp_all add: scheduler_ready_def)
  note r = queue_readyD [OF q(1)]
  let ?w = "sent c (ZREM (scheduledKey q) [i]) w"
  have d: "db view ?w = put_zset (scheduledKey q) (zrem [i] (scheduled view q w)) None (db view w)"
    using r(1) q(2) by simp
  have "queue_ready view up q ?w" by (rule queue_ready_sent [OF q(1)]) (use d r(2) in simp_all)
  then show thesis using that [of ?w] d r(1) q(2) by (simp add: scheduler_ready_def run_simps)
qed

lemma Schedule_run:
  assumes w: "scheduler_ready view up q w" and j: "job_wf j"
  obtains w' where "run_state (Schedule sch j runAt) w = (Inr (), w')" "scheduler_ready view up q w'"
    "queue_view q (db view w') = (queue_view q (db view w))\<lparr>stored := (stored (queue_view q (db view w)))(ID j \<mapsto> job_text j)\<rparr>"
    "scheduled view q w' = zadd (time_Unix runAt) (ID j) (scheduled view q w)"
proof -
  have q: "queue_ready view up q w" "is_zset (db view w) (scheduledKey q)" using w by (simp_all add: scheduler_ready_def)
  define w1 where "w1 = sent c (SET (jobKey q (ID j)) (job_text j) 0) w"
  note st = set_job [OF q(1), of "ID j" "job_text j", folded w1_def, unfolded q_client]
  note r = queue_readyD [OF st(2)]
  define w2 where "w2 = sent c (ZADD (scheduledKey q) [(time_Unix runAt, ID j)]) w1"
  have z: "is_zset (db view w1) (scheduledKey q)" using q(2) by (simp add: st(3) key_simps)
  have d: "db view w2 = put_zset (scheduledKey q) (zadd (time_Unix runAt) (ID j) (scheduled view q w1)) None (db view w1)"
    using r(1) z by (simp add: w2_def)
  have w2: "queue_ready view up q w2"
    unfolding w2_def by (rule queue_ready_sent [OF st(2)]) (use d r(2) in \<open>simp_all add: w2_def\<close>)
  show thesis
  proof (rule that)
    show "run_state (Schedule sch j runAt) w = (Inr (), w2)"
      using st(1) r(1) z Marshal_job_text [OF j]
      by (simp add: Schedule_def sch_parts scheduledKey_def [symmetric] wd_keys(4) [simplified] run_simps w2_def)
    show "scheduler_ready view up q w2" using w2 by (simp add: scheduler_ready_def d)
  qed (simp_all add: d st(3) key_simps)
qed

end

section \<open>A poll\<close>

text \<open>The identifiers due at second \<open>t\<close>, the earliest first, and what moving them does.\<close>

definition due :: "int \<Rightarrow> (int \<times> string) list \<Rightarrow> string list" where
  "due t zs = map snd (filter (\<lambda>p. fst p \<le> t) zs)"

definition a_move :: "string \<Rightarrow> aqueue \<Rightarrow> aqueue" where
  "a_move i a =
    (case stored_job a i of
       None \<Rightarrow> a
     | Some j \<Rightarrow> a_enqueue (level_of (Priority j)) i (job_text (j\<lparr>Status := StatusPending\<rparr>)) a)"

primrec a_move_all :: "string list \<Rightarrow> aqueue \<Rightarrow> aqueue" where
  "a_move_all [] a = a"
| "a_move_all (i # is) a = a_move_all is (a_move i a)"

lemma movable_move: "movable ok a k \<Longrightarrow> k \<noteq> i \<Longrightarrow> movable ok (a_move i a) k"
  by (auto simp: movable_def a_move_def split: option.split)

context scheduler_on_redis begin

lemma moveJobToPending_run:
  assumes w: "scheduler_ready view up q w" and m: "movable (uuid_ok (cenv c)) (queue_view q (db view w)) i"
  obtains w' where "run_state (moveJobToPending sch i) w = (Inr (), w')" "scheduler_ready view up q w'"
    "queue_view q (db view w') = a_move i (queue_view q (db view w))" "scheduled view q w' = scheduled view q w"
proof -
  obtain j where j: "stored (queue_view q (db view w)) i = Some (job_text j)" "job_wf j" "ID j = i" "UniqueKey j = []"
    "Validate (uuid_ok (cenv c)) j = None"
    using m unfolding movable_def by blast
  have q: "queue_ready view up q w" "is_zset (db view w) (scheduledKey q)" using w by (simp_all add: scheduler_ready_def)
  define w1 where "w1 = sent c (GET (jobKey q i)) w"
  note g = GetJob_run [OF q(1) j(1), folded w1_def]
  have p: "job_wf (pending_job j)" "Validate (uuid_ok (cenv c)) (pending_job j) = None" "UniqueKey (pending_job j) = []"
    using j by simp_all
  have mv: "a_move i (queue_view q (db view w)) =
      a_enqueue (level_of (Priority j)) i (job_text (pending_job j)) (queue_view q (db view w))"
    using stored_job_text [OF j(1,2)] by (simp add: a_move_def pending_job_def)
  show thesis
  proof (rule Enqueue_run [OF g(2) p(2,1,3)])
    fix w' assume a: "run_state (Enqueue q (pending_job j)) w1 = (Inr (), w')" "queue_ready view up q w'"
      "queue_view q (db view w') = a_enqueue (level_of (Priority (pending_job j))) (ID (pending_job j))
        (job_text (pending_job j)) (queue_view q (db view w1))"
      "db view w' = enqueue_db q (level_of (Priority (pending_job j))) (ID (pending_job j)) (job_text (pending_job j)) (db view w1)"
    show thesis
    proof (rule that)
      show "run_state (moveJobToPending sch i) w = (Inr (), w')"
        using g(1) a(1) by (simp add: moveJobToPending_def sch_parts run_simps Unmarshal_job [OF j(2)] pending_job_def)
      show "queue_view q (db view w') = a_move i (queue_view q (db view w))"
        using a(3) g(3) j(3) mv by (simp del: queue_view_sel)
      have d: "db view w' = enqueue_db q (level_of (Priority j)) i (job_text (pending_job j)) (db view w)"
        using a(4) g(3) j(3) by simp
      show "scheduler_ready view up q w'" "scheduled view q w' = scheduled view q w"
        using a(2) q(2) by (simp_all add: scheduler_ready_def d)
    qed
  qed
qed

lemma move_each_run:
  assumes "scheduler_ready view up q w" "distinct is" "\<forall>i \<in> set is. movable (uuid_ok (cenv c)) (queue_view q (db view w)) i"
  shows "\<exists>w'. run_state (move_each sch is) w = ((), w') \<and> scheduler_ready view up q w' \<and>
    queue_view q (db view w') = a_move_all is (queue_view q (db view w)) \<and> scheduled view q w' = zrem is (scheduled view q w)"
  using assms
proof (induction "is" arbitrary: w)
  case Nil
  then show ?case by (simp add: zrem_def)
next
  case (Cons i ds)
  obtain w1 where w1: "run_state (moveJobToPending sch i) w = (Inr (), w1)" "scheduler_ready view up q w1"
    "queue_view q (db view w1) = a_move i (queue_view q (db view w))" "scheduled view q w1 = scheduled view q w"
    using moveJobToPending_run [OF Cons.prems(1), of i] Cons.prems(3) by auto
  obtain w2 where w2: "run_state (ZRem c (scheduledKey q) [i]) w1 = (Inr (), w2)" "scheduler_ready view up q w2"
    "queue_view q (db view w2) = queue_view q (db view w1)" "scheduled view q w2 = zrem [i] (scheduled view q w1)"
    using zrem_scheduled [OF w1(2)] by metis
  have "\<forall>k \<in> set ds. movable (uuid_ok (cenv c)) (queue_view q (db view w2)) k"
    unfolding w2(3) w1(3) by (intro ballI movable_move) (use Cons.prems(2,3) in auto)
  then obtain w' where "run_state (move_each sch ds) w2 = ((), w')" "scheduler_ready view up q w'"
    "queue_view q (db view w') = a_move_all ds (queue_view q (db view w2))" "scheduled view q w' = zrem ds (scheduled view q w2)"
    using Cons.IH [OF w2(2)] Cons.prems(2) by auto
  then show ?case using w1 w2 by (simp add: run_simps scheduled_key sch_parts(1) zrem_Cons del: queue_view_sel)
qed

lemma poll_range:
  assumes w: "scheduler_ready view up q w" and n: "0 < BatchSize (sconfig sch)"
  defines "t \<equiv> time_Unix (clock_of c w)"
  obtains w' where "scheduler_ready view up q w'" "db view w' = db view w"
    "run_state (ZRangeByScore c (scheduledKey q)
        \<lparr>Min = ''-inf'', Max = format_int t, Offset = 0, Count = BatchSize (sconfig sch)\<rparr>) (ticked c w) =
      (Inr (take (nat (BatchSize (sconfig sch))) (due t (scheduled view q w))), w')"
proof -
  have q: "queue_ready view up q w" "is_zset (db view w) (scheduledKey q)" using w by (simp_all add: scheduler_ready_def)
  note r = queue_readyD [OF queue_ready_ticked [OF q(1)]]
  have z': "is_zset (db view (ticked c w)) (scheduledKey q)" using q(2) by simp
  note z = ZRangeByScore_run [OF r(1) z' clock_second n, of w, folded t_def]
  let ?w = "sent c (ZRANGEBYSCORE (scheduledKey q) ''-inf'' (format_int t) 0 (BatchSize (sconfig sch))) (ticked c w)"
  have d: "db view ?w = db view w" using z(2) by simp
  have "queue_ready view up q ?w"
    by (rule queue_ready_sent [OF queue_ready_ticked [OF q(1)]]) (use d r(2) in simp_all)
  then show thesis using that [of ?w] z(1) d q(2) by (simp add: scheduler_ready_def due_def)
qed

end

section \<open>A scheduler in memory\<close>

definition mem_scheduler :: "memory Scheduler" where
  "mem_scheduler = fst (scheduler_New mem_client mem_queue (scheduler_DefaultConfig ''s1'') mem_world)"

interpretation msch: scheduler_on_redis mem_client mem ms alive sha_text "''0.5''" mem_queue mem_scheduler
  by unfold_locales (simp_all add: mem_scheduler_def scheduler_New_def scheduler_DefaultConfig_def mem_queue_def queue_DefaultOptions_def)

lemma mem_scheduler_contract: "scheduler_on_redis mem_client mem ms alive sha_text ''0.5'' mem_queue mem_scheduler"
  by (rule msch.scheduler_on_redis_axioms)

text \<open>Two entries are due since 1970: a stored job and one whose text is gone.\<close>

definition waiting_db :: "string \<Rightarrow> keyspace" where
  "waiting_db i = put_str (jobKey mem_queue (ID mem_job)) (job_text mem_job) None
     (put_zset (scheduledKey mem_queue) [(0, i)] None empty_db)"

lemma waiting_queue [simp]:
  "queue_wf mem_queue (waiting_db i)" "pend (queue_view mem_queue (waiting_db i)) l = []"
  "stored (queue_view mem_queue (waiting_db i)) (ID mem_job) = Some (job_text mem_job)"
  "zset_of (waiting_db i) (scheduledKey mem_queue) = [(0, i)]" "is_zset (waiting_db i) (scheduledKey mem_queue)"
  "k \<noteq> ID mem_job \<Longrightarrow> waiting_db i (jobKey mem_queue k) = None"
  by (simp_all add: waiting_db_def key_simps) (simp add: put_str_def put_zset_def key_simps empty_db_def)

lemma waiting_ready: "scheduler_ready mem alive mem_queue (mem_with (waiting_db i))"
  using mem_with_ready [OF waiting_queue(1)] by (simp add: scheduler_ready_def)

lemma mem_scheduler_batch:
  "BatchSize (sconfig mem_scheduler) = 100" "sclient mem_scheduler = mem_client"
  "time_Unix (clock_of mem_client (mem_with D)) = 1700000000"
  by (simp_all add: mem_scheduler_def scheduler_New_def scheduler_DefaultConfig_def clock_of_def now_def run_simps
      mem_client_def mem_env_def mem_with_def mem_world_def mem_start_def clamp_ms_def time_Unix_def)

section \<open>Properties\<close>

text \<open>Scheduling a job stores it and enters its identifier with the second it is due at, moving the
  entry if there was one, and changes no list of the queue; cancelling takes the entry out again, and
  the count is that of the entries.\<close>

theorem Schedule_and_Cancel:
  assumes s: "scheduler_on_redis c view stime up sha rnd q sch" and w: "scheduler_ready view up q w" and j: "job_wf j"
  shows "\<exists>w1 w2. run_state (Schedule sch j runAt) w = (Inr (), w1) \<and>
    queue_view q (db view w1) = (queue_view q (db view w))\<lparr>stored := (stored (queue_view q (db view w)))(ID j \<mapsto> job_text j)\<rparr> \<and>
    scheduled view q w1 = zadd (time_Unix runAt) (ID j) (scheduled view q w) \<and>
    fst (run_state (GetScheduledCount sch) w1) = Inr (int (length (scheduled view q w1))) \<and>
    run_state (Cancel sch (ID j)) w1 = (Inr (), w2) \<and> scheduler_ready view up q w2 \<and>
    queue_view q (db view w2) = queue_view q (db view w1) \<and>
    scheduled view q w2 = zrem [ID j] (scheduled view q w)"
proof -
  note p = scheduler_on_redis.sch_parts [OF s] scheduler_on_redis.scheduled_key [OF s]
  note red = queue_on_redis.axioms(1) [OF scheduler_on_redis.axioms(1) [OF s]]
  obtain w1 where w1: "run_state (Schedule sch j runAt) w = (Inr (), w1)" "scheduler_ready view up q w1"
    "queue_view q (db view w1) = (queue_view q (db view w))\<lparr>stored := (stored (queue_view q (db view w)))(ID j \<mapsto> job_text j)\<rparr>"
    "scheduled view q w1 = zadd (time_Unix runAt) (ID j) (scheduled view q w)"
    using scheduler_on_redis.Schedule_run [OF s w j] by metis
  obtain w2 where w2: "run_state (ZRem c (scheduledKey q) [ID j]) w1 = (Inr (), w2)" "scheduler_ready view up q w2"
    "queue_view q (db view w2) = queue_view q (db view w1)" "scheduled view q w2 = zrem [ID j] (scheduled view q w1)"
    using scheduler_on_redis.zrem_scheduled [OF s w1(2)] by metis
  have ready: "ready up w1" "is_zset (db view w1) (scheduledKey q)"
    using w1(2) queue_readyD(1) by (auto simp: scheduler_ready_def)
  have "fst (run_state (GetScheduledCount sch) w1) = Inr (int (length (scheduled view q w1)))"
    using redis_server.ZCard_run [OF red ready] by (simp add: GetScheduledCount_def p(1,4))
  moreover have "run_state (Cancel sch (ID j)) w1 = (Inr (), w2)" using w2(1) by (simp add: Cancel_def p(1,4))
  moreover have "filter P (insort x xs) = filter P xs" if "\<not> P x" for P and x :: "int \<times> string" and xs
    using that by (induction xs) auto
  then have "zrem [ID j] (zadd t (ID j) zs) = zrem [ID j] zs" for t zs by (simp add: zrem_def zadd_def)
  then have "scheduled view q w2 = zrem [ID j] (scheduled view q w)" using w2(4) w1(4) by simp
  ultimately show ?thesis using w1 w2(2,3) by blast
qed

theorem Schedule_and_Cancel_witness:
  "\<exists>w1. run_state (Schedule mem_scheduler mem_job (Time (2000000000 * second) 0)) (mem_with (waiting_db ''x'')) = (Inr (), w1) \<and>
     scheduled mem mem_queue w1 = [(0, ''x''), (2000000000, ID mem_job)]"
proof -
  have "zadd 2000000000 (ID mem_job) [(0, ''x'')] = [(0, ''x''), (2000000000, ID mem_job)]"
    by (simp add: zadd_def mem_job_def sample_job_def NewPriorityJob_def NewJob_def Let_def)
  then show ?thesis
    using Schedule_and_Cancel [OF mem_scheduler_contract waiting_ready mem_job_ok(1), of "Time (2000000000 * second) 0" "''x''"]
    by (auto simp: time_Unix_def)
qed



text \<open>C21. Entries that cannot be moved block the scheduler: they keep their entries, and since every poll
  takes the earliest ones, a batch of identifiers whose job text is gone leaves everything as it was,
  however many other jobs are due.\<close>

theorem stale_entries_block:
  assumes s: "scheduler_on_redis c view stime up sha rnd q sch" and w: "scheduler_ready view up q (lw st)"
    and n: "0 < BatchSize (sconfig sch)" and l: "isLeader st"
    and gone: "\<forall>i \<in> set (take (nat (BatchSize (sconfig sch)))
      (due (time_Unix (clock_of c (lw st))) (scheduled view q (lw st)))). db view (lw st) (jobKey q i) = None"
  shows "\<exists>st'. run_state (pollAndEnqueue sch) st = ((), st') \<and> isLeader st' \<and>
    scheduler_ready view up q (lw st') \<and> db view (lw st') = db view (lw st)"
proof -
  let ?t = "time_Unix (clock_of c (lw st))"
  let ?is = "take (nat (BatchSize (sconfig sch))) (due ?t (scheduled view q (lw st)))"
  note p = scheduler_on_redis.sch_parts [OF s] scheduler_on_redis.scheduled_key [OF s]
  note Q = scheduler_on_redis.axioms(1) [OF s]
  have skip: "\<exists>w'. run_state (move_each sch is) w1 = ((), w') \<and> scheduler_ready view up q w' \<and> db view w' = db view w1"
    if "scheduler_ready view up q w1" "\<forall>i \<in> set is. db view w1 (jobKey q i) = None" for "is" w1
    using that
  proof (induction "is" arbitrary: w1)
    case (Cons i ds)
    have q: "queue_ready view up q w1" "is_zset (db view w1) (scheduledKey q)" "db view w1 (jobKey q i) = None"
      using Cons.prems by (simp_all add: scheduler_ready_def)
    note g = queue_on_redis.GetJob_missing [OF Q q(1,3)]
    let ?w = "missed c (GET (jobKey q i)) w1"
    have "scheduler_ready view up q ?w" using g(2,3) q(2) by (simp add: scheduler_ready_def)
    then obtain w' where "run_state (move_each sch ds) ?w = ((), w')" "scheduler_ready view up q w'" "db view w' = db view w1"
      using Cons.IH [of ?w] Cons.prems(2) g(3) by auto
    then show ?case using g(1) p by (simp add: moveJobToPending_def run_simps)
  qed simp
  obtain w1 where w1: "scheduler_ready view up q w1" "db view w1 = db view (lw st)"
    "run_state (ZRangeByScore c (scheduledKey q)
        \<lparr>Min = ''-inf'', Max = format_int ?t, Offset = 0, Count = BatchSize (sconfig sch)\<rparr>) (ticked c (lw st)) = (Inr ?is, w1)"
    using scheduler_on_redis.poll_range [OF s w n] by blast
  obtain w' where w': "run_state (move_each sch ?is) w1 = ((), w')" "scheduler_ready view up q w'" "db view w' = db view (lw st)"
    using skip [OF w1(1), of ?is] gone w1(2) by auto
  have "run_state (pollAndEnqueue sch) st = ((), st\<lparr>lw := w'\<rparr>)"
    using l w1(3) w'(1) p by (cases "?is = []") (simp_all add: pollAndEnqueue_def leader_IsLeader_def run_simps)
  then show ?thesis using w' l by auto
qed

theorem stale_entries_block_witness:
  "\<exists>st'. run_state (pollAndEnqueue mem_scheduler) (mem_service (waiting_db ''x'')) = ((), st') \<and>
     scheduled mem mem_queue (lw st') = [(0, ''x'')]"
proof -
  let ?s = "mem_service (waiting_db ''x'')"
  have s: "lw ?s = mem_with (waiting_db ''x'')" "isLeader ?s" by (simp_all add: mem_service_def)
  have x: "''x'' \<noteq> ID mem_job" by (simp add: mem_job_def sample_job_def NewPriorityJob_def NewJob_def Let_def)
  show ?thesis
    using stale_entries_block [OF mem_scheduler_contract, of ?s] waiting_ready [of "''x''"] waiting_queue(6) [OF x, of "''x''"]
    by (auto simp: s mem_scheduler_batch due_def simp del: queue_view_sel)
qed

end
