(* ===== verification/Worker.thy ===== *)
theory Worker
  imports Queue_Ack Watchdog "HOL-Library.AList"
begin

text \<open>
  The worker (\<open>internal/worker\<close>): the registry of handlers (\<open>handler.go\<close>), panic recovery
  (\<open>recovery.go\<close>) and the claiming and processing of jobs (\<open>worker.go\<close>). Logging and the fields that
  only serve it are left out. A handler is code that the worker is given; it acts on a state of its own
  (\<open>'h\<close>), where its context and whatever else it uses live.
\<close>

section \<open>Handlers\<close>

type_synonym 'h handler = "string option \<Rightarrow> ('h, (goerror + string option) outcome) state"

text \<open>The iteration order of a Go map is unspecified; \<open>Types\<close> gives the order of the list that keeps it.\<close>

record 'h Registry =
  handlers :: "(string \<times> 'h handler) list"

definition NewRegistry :: "'h Registry" where
  "NewRegistry = \<lparr>handlers = []\<rparr>"

definition Register :: "string \<Rightarrow> 'h handler \<Rightarrow> 'h Registry \<Rightarrow> 'h Registry" where
  "Register jobType handler r = r\<lparr>handlers := AList.update jobType handler (handlers r)\<rparr>"

definition RegisterFunc :: "string \<Rightarrow> 'h handler \<Rightarrow> 'h Registry \<Rightarrow> 'h Registry" where
  "RegisterFunc jobType handler r = r\<lparr>handlers := AList.update jobType handler (handlers r)\<rparr>"

definition registry_Get :: "'h Registry \<Rightarrow> string \<Rightarrow> 'h handler option" where
  "registry_Get r jobType = map_of (handlers r) jobType"

definition Types :: "'h Registry \<Rightarrow> string list" where
  "Types r = map fst (handlers r)"

section \<open>Panic recovery\<close>

text \<open>
  \<open>recover()\<close> returns the value of the panic and ends it when the deferred function itself calls it
  (\<open>direct\<close>); called by a function that the deferred function calls it returns nil and the panic
  goes on.
\<close>

definition go_recover :: "bool \<Rightarrow> panic_value option \<Rightarrow> panic_value option" where
  "go_recover direct panicking = (if direct then panicking else None)"

record RecoverResult =
  Recovered :: bool
  Recover_Error :: "goerror option"
  Stack :: string

text \<open>\<open>stack\<close> is the text of \<open>debug.Stack()\<close>. The second result is the panic that goes on, if any.\<close>

definition RecoverPanic :: "bool \<Rightarrow> string \<Rightarrow> panic_value option \<Rightarrow> RecoverResult \<times> panic_value option" where
  "RecoverPanic direct stack panicking =
    (case go_recover direct panicking of
       Some r \<Rightarrow>
         (let err = (case r of PanicError e \<Rightarrow> e | PanicString t \<Rightarrow> Errorf t | PanicOther t \<Rightarrow> Errorf t)
          in (\<lparr>Recovered = True, Recover_Error = Some (Wrapf ''panic'' err), Stack = stack\<rparr>, None))
     | None \<Rightarrow> (\<lparr>Recovered = False, Recover_Error = None, Stack = []\<rparr>, panicking))"

section \<open>The worker\<close>

record worker_Config =
  wk_ID :: string
  Concurrency :: int
  wk_PollInterval :: int
  JobTimeout :: int
  ShutdownTimeout :: int
  wk_BackoffConfig :: BackoffConfig

definition worker_DefaultConfig :: "string \<Rightarrow> worker_Config" where
  "worker_DefaultConfig i = \<lparr>wk_ID = i, Concurrency = 10, wk_PollInterval = 1 * second, JobTimeout = 30 * second,
     ShutdownTimeout = 30 * second, wk_BackoffConfig = DefaultBackoffConfig\<rparr>"

record ('s, 'h) Worker =
  wk_cfg :: worker_Config
  wk_registry :: "'h Registry"
  wk_queue :: "'s queue"
  wk_redis :: "'s client"
  wk_watchdog :: "'s Watchdog"

text \<open>
  The mutable part: that of its watchdog, which shares the client and so the circuit breaker, the
  state of the handlers, the counter of running jobs, \<open>running\<close> and whether \<open>stopCh\<close> is closed.
\<close>

record ('s, 'h) worker_state = "'s service" +
  host :: 'h
  processing :: "32 word"
  wk_running :: bool
  wk_stop_closed :: bool

definition worker_New :: "worker_Config \<Rightarrow> 'h Registry \<Rightarrow> 's queue \<Rightarrow> 's client \<Rightarrow> 's world \<Rightarrow> 'h \<Rightarrow>
    ('s, 'h) Worker \<times> ('s, 'h) worker_state" where
  "worker_New cfg registry q c w h =
    (let (wd, sv) = watchdog_New c q (watchdog_DefaultConfig (wk_ID cfg)) w
     in (\<lparr>wk_cfg = cfg, wk_registry = registry, wk_queue = q, wk_redis = c, wk_watchdog = wd\<rparr>,
         service.extend sv \<lparr>host = h, processing = 0, wk_running = False, wk_stop_closed = False\<rparr>))"

definition on_host :: "('h, 'a) state \<Rightarrow> (('s, 'h) worker_state, 'a) state" where
  "on_host m = State (\<lambda>s. case run_state m (host s) of (a, h) \<Rightarrow> (a, s\<lparr>host := h\<rparr>))"

lemma run_on_host [run_simps]:
  "run_state (on_host m) s = (case run_state m (host s) of (a, h) \<Rightarrow> (a, s\<lparr>host := h\<rparr>))"
  by (simp add: on_host_def)

text \<open>
  \<open>executeHandler\<close>: its deferred function calls \<open>RecoverPanic\<close>, which calls \<open>recover\<close>; so \<open>recover\<close> is not
  called by the deferred function itself.
\<close>

definition executeHandler :: "'h handler \<Rightarrow> Job \<Rightarrow> (('s, 'h) worker_state, (goerror + string option) outcome) state" where
  "executeHandler handler j = do {
     oc \<leftarrow> on_host (handler (Payload j));
     let (r, panicking) = RecoverPanic False [] (case oc of Returned _ \<Rightarrow> None | Panicked v \<Rightarrow> Some v);
     case panicking of
       Some v \<Rightarrow> ret (Panicked v)
     | None \<Rightarrow>
        (case Recover_Error r of
           Some err \<Rightarrow> ret (Returned (Inl err))
         | None \<Rightarrow> ret oc)
   }"

definition handleJobFailure :: "('s, 'h) Worker \<Rightarrow> Job \<Rightarrow> string \<Rightarrow> (('s, 'h) worker_state, unit) state" where
  "handleJobFailure w j errMsg = do {
     _ \<leftarrow> on_world (NackJob (wk_queue w) (Some j) errMsg (wk_BackoffConfig (wk_cfg w)));
     ret ()
   }"

text \<open>The counter goes down again on every way out, by the deferred call.\<close>

definition processJob :: "('s, 'h) Worker \<Rightarrow> Job \<Rightarrow> (('s, 'h) worker_state, unit outcome) state" where
  "processJob w j = do {
     modify_state (\<lambda>s. s\<lparr>processing := processing s + 1\<rparr>);
     start \<leftarrow> on_world (now (wk_redis w));
     oc \<leftarrow> (case registry_Get (wk_registry w) (Type j) of
         None \<Rightarrow> do { handleJobFailure w j (''unknown job type: '' @ Type j); ret (Returned ()) }
       | Some handler \<Rightarrow> do {
           r \<leftarrow> executeHandler handler j;
           case r of
             Panicked v \<Rightarrow> ret (Panicked v)
           | Returned (Inl err) \<Rightarrow> do { handleJobFailure w j (error_text err); ret (Returned ()) }
           | Returned (Inr result) \<Rightarrow> do {
               (res, ackErr, j') \<leftarrow> on_world (AckJob (wk_queue w) (Some j) result);
               case ackErr of
                 Some err \<Rightarrow> ret (Returned ())
               | None \<Rightarrow> do { stop \<leftarrow> on_world (now (wk_redis w)); ret (Returned ()) }
             }
         });
     modify_state (\<lambda>s. s\<lparr>processing := processing s - 1\<rparr>);
     ret oc
   }"

text \<open>What the select statement of \<open>processLoop\<close> finds at each round; sleeping changes no state.\<close>

datatype loop_event = LoopCtxDone | LoopStop | LoopDefault

fun processLoop :: "('s, 'h) Worker \<Rightarrow> loop_event list \<Rightarrow> (('s, 'h) worker_state, unit outcome) state" where
  "processLoop w [] = ret (Returned ())"
| "processLoop w (e # es) =
    (case e of
       LoopCtxDone \<Rightarrow> ret (Returned ())
     | LoopStop \<Rightarrow> ret (Returned ())
     | LoopDefault \<Rightarrow> do {
         s \<leftarrow> read_state;
         if \<not> IsHealthy (lw s) then processLoop w es
         else do {
           r \<leftarrow> on_world (Claim (wk_queue w) (wk_PollInterval (wk_cfg w)));
           case r of
             Inl err \<Rightarrow> processLoop w es
           | Inr None \<Rightarrow> processLoop w es
           | Inr (Some j) \<Rightarrow> do {
               oc \<leftarrow> processJob w j;
               case oc of Panicked v \<Rightarrow> ret (Panicked v) | Returned _ \<Rightarrow> processLoop w es
             }
         }
       })"

text \<open>
  \<open>Run\<close> up to its wait for the stop signal, with the number of loops it launches (\<open>None\<close> when the
  worker was running already), and from there to its end.
\<close>

definition worker_Run_begin :: "('s, 'h) Worker \<Rightarrow> (('s, 'h) worker_state, int option) state" where
  "worker_Run_begin w = do {
     s \<leftarrow> read_state;
     if wk_running s then ret None
     else do {
       modify_state (\<lambda>s. s\<lparr>wk_running := True\<rparr>);
       _ \<leftarrow> watchdog_Start;
       ret (Some (max 0 (Concurrency (wk_cfg w))))
     }
   }"

definition worker_Run_end :: "('s, 'h) Worker \<Rightarrow> (('s, 'h) worker_state, unit outcome) state" where
  "worker_Run_end w = do {
     oc \<leftarrow> watchdog_Stop (wk_watchdog w);
     case oc of
       Panicked v \<Rightarrow> ret (Panicked v)
     | Returned _ \<Rightarrow> do { modify_state (\<lambda>s. s\<lparr>wk_running := False\<rparr>); ret (Returned ()) }
   }"

definition worker_Stop :: "(('s, 'h) worker_state, unit outcome) state" where
  "worker_Stop = do {
     s \<leftarrow> read_state;
     if wk_running s then
       if wk_stop_closed s then ret (Panicked close_of_closed)
       else do { modify_state (\<lambda>s. s\<lparr>wk_stop_closed := True\<rparr>); ret (Returned ()) }
     else ret (Returned ())
   }"

definition worker_IsHealthy :: "('s, 'h) worker_state \<Rightarrow> bool" where
  "worker_IsHealthy s \<longleftrightarrow> wk_running s \<and> IsHealthy (lw s)"

definition ProcessingCount :: "('s, 'h) worker_state \<Rightarrow> int" where
  "ProcessingCount s = sint (processing s)"

end
