(* ===== verification/Handlers.thy ===== *)
theory Handlers
  imports Worker
begin

text \<open>
  The example handlers (\<open>internal/handlers\<close>). Their surroundings are a record: the time left until the
  context is done and the error it then has, the clock, and the package variable \<open>failNTimesState\<close>.
  When a wait and the end of the context fall together the context is taken.
\<close>

section \<open>Surroundings\<close>

record host_state =
  ctx_left :: int
  ctx_Err :: goerror
  host_clock :: int
  failNTimesState :: "string \<Rightarrow> int option"

text \<open>The non-blocking check of the context, and the wait for a duration unless the context ends first.\<close>

definition ctx_is_done :: "(host_state, bool) state" where
  "ctx_is_done = do { h \<leftarrow> read_state; ret (ctx_left h \<le> 0) }"

definition pass_time :: "int \<Rightarrow> (host_state, unit) state" where
  "pass_time d = modify_state (\<lambda>h. h\<lparr>ctx_left := ctx_left h - d, host_clock := host_clock h + d\<rparr>)"

definition wait_for :: "int \<Rightarrow> (host_state, bool) state" where
  "wait_for d = do {
     h \<leftarrow> read_state;
     if ctx_left h \<le> max 0 d then do { pass_time (max 0 (ctx_left h)); ret False }
     else do { pass_time (max 0 d); ret True }
   }"

definition ctx_error :: "(host_state, (goerror + string option) outcome) state" where
  "ctx_error = do { h \<leftarrow> read_state; ret (Returned (Inl (ctx_Err h))) }"

definition unless_done :: "(host_state, (goerror + string option) outcome) state \<Rightarrow>
    (host_state, (goerror + string option) outcome) state" where
  "unless_done m = do { d \<leftarrow> ctx_is_done; if d then ctx_error else m }"

lemma run_surroundings [run_simps]:
  "run_state ctx_is_done h = (ctx_left h \<le> 0, h)"
  "run_state (pass_time d) h = ((), h\<lparr>ctx_left := ctx_left h - d, host_clock := host_clock h + d\<rparr>)"
  "run_state ctx_error h = (Returned (Inl (ctx_Err h)), h)"
  "run_state (unless_done m) h = (if ctx_left h \<le> 0 then (Returned (Inl (ctx_Err h)), h) else run_state m h)"
  by (simp_all add: ctx_is_done_def pass_time_def ctx_error_def unless_done_def)

text \<open>
  \<open>json.Unmarshal\<close> of the payload into a struct, skipped for an empty payload, and \<open>json.Marshal\<close> of a
  map with the given entries, in the order of their keys.
\<close>

definition read_payload :: "string list \<Rightarrow> (string \<Rightarrow> string \<Rightarrow> json \<Rightarrow> 'r \<Rightarrow> goerror + 'r) \<Rightarrow> 'r \<Rightarrow> string option \<Rightarrow>
    goerror + 'r" where
  "read_payload names put r payload =
    (case payload of
       None \<Rightarrow> Inr r
     | Some [] \<Rightarrow> Inr r
     | Some s \<Rightarrow>
        (case json_parse s of
           None \<Rightarrow> Inl (Wrapf ''invalid payload'' syntax_error)
         | Some v \<Rightarrow> (case decode_struct names put r v of Inl e \<Rightarrow> Inl (Wrapf ''invalid payload'' e) | Inr x \<Rightarrow> Inr x)))"

definition result_map :: "(string \<times> json) list \<Rightarrow> (goerror + string option) outcome" where
  "result_map kvs = Returned (Inr (Some (json_text (JObj (map (\<lambda>(k, v). member k v) kvs)))))"

section \<open>Echo\<close>

definition Echo :: "string option \<Rightarrow> (host_state, (goerror + string option) outcome) state" where
  "Echo payload = unless_done (
    (case payload of
       None \<Rightarrow> ret (result_map [(''echo'', JNull)])
     | Some s \<Rightarrow>
        (case json_parse s of
           None \<Rightarrow> ret (Returned (Inl (Wrapf ''json: error calling MarshalJSON for type json.RawMessage'' syntax_error)))
         | Some v \<Rightarrow> ret (Returned (Inr (Some (''{'' @ (CHR 0x22 # ''echo'' @ [CHR 0x22]) @ '':'' @ compact_text False s @ ''}'')))))))"

section \<open>Sleep\<close>

record SleepPayload =
  Seconds :: int

definition put_SleepPayload :: "string \<Rightarrow> string \<Rightarrow> json \<Rightarrow> SleepPayload \<Rightarrow> goerror + SleepPayload" where
  "put_SleepPayload k raw v p =
    (case decode_int (Seconds p) v of Inl e \<Rightarrow> Inl e | Inr n \<Rightarrow> Inr (p\<lparr>Seconds := n\<rparr>))"

definition Sleep :: "string option \<Rightarrow> (host_state, (goerror + string option) outcome) state" where
  "Sleep payload =
    (case read_payload [''seconds''] put_SleepPayload \<lparr>Seconds = 0\<rparr> payload of
       Inl err \<Rightarrow> ret (Returned (Inl err))
     | Inr p \<Rightarrow> do {
         let secs = (if Seconds p \<le> 0 then 1 else Seconds p);
         passed \<leftarrow> wait_for (i64 (secs * second));
         if \<not> passed then ctx_error
         else ret (result_map [(''slept_seconds'', encode_int secs)])
       })"

section \<open>Failing\<close>

definition FailAlways :: "string option \<Rightarrow> (host_state, (goerror + string option) outcome) state" where
  "FailAlways payload = unless_done (ret (Returned (Inl (Errorf ''intentional failure''))))"

record FailNTimesPayload =
  FailCount :: int
  fail_JobID :: string

definition put_FailNTimesPayload :: "string \<Rightarrow> string \<Rightarrow> json \<Rightarrow> FailNTimesPayload \<Rightarrow> goerror + FailNTimesPayload" where
  "put_FailNTimesPayload k raw v p =
    (if k = ''fail_count''
     then (case decode_int (FailCount p) v of Inl e \<Rightarrow> Inl e | Inr n \<Rightarrow> Inr (p\<lparr>FailCount := n\<rparr>))
     else (case decode_string (fail_JobID p) v of Inl e \<Rightarrow> Inl e | Inr i \<Rightarrow> Inr (p\<lparr>fail_JobID := i\<rparr>)))"

definition read_FailNTimes :: "string option \<Rightarrow> goerror + FailNTimesPayload" where
  "read_FailNTimes payload =
    (case read_payload [''fail_count'', ''job_id''] put_FailNTimesPayload \<lparr>FailCount = 0, fail_JobID = []\<rparr> payload of
       Inl err \<Rightarrow> Inl err
     | Inr p \<Rightarrow> Inr (if FailCount p \<le> 0 then p\<lparr>FailCount := 2\<rparr> else p))"

definition FailNTimes :: "string option \<Rightarrow> (host_state, (goerror + string option) outcome) state" where
  "FailNTimes payload =
    (case read_FailNTimes payload of
       Inl err \<Rightarrow> ret (Returned (Inl err))
     | Inr p \<Rightarrow> unless_done (do {
         let key = (if fail_JobID p = [] then ''default'' else fail_JobID p);
         h \<leftarrow> read_state;
         let attempts = i64 ((case failNTimesState h key of None \<Rightarrow> 0 | Some n \<Rightarrow> n) + 1);
         modify_state (\<lambda>h. h\<lparr>failNTimesState := (failNTimesState h)(key \<mapsto> attempts)\<rparr>);
         if attempts \<le> FailCount p
         then ret (Returned (Inl (Errorf (''intentional failure '' @ format_int attempts @ '' of '' @ format_int (FailCount p)))))
         else do {
           modify_state (\<lambda>h. h\<lparr>failNTimesState := (failNTimesState h)(key := None)\<rparr>);
           ret (result_map [(''attempts'', encode_int attempts), (''message'', encode_string ''succeeded after failures'')])
         }
       }))"

section \<open>Panicking\<close>

definition Panic :: "string option \<Rightarrow> (host_state, (goerror + string option) outcome) state" where
  "Panic payload = unless_done (ret (Panicked (PanicString ''intentional panic for testing'')))"

definition DivideByZero :: "string option \<Rightarrow> (host_state, (goerror + string option) outcome) state" where
  "DivideByZero payload =
    unless_done (ret (Panicked (PanicError (Extern ''runtime error: integer divide by zero''))))"

section \<open>Mock requests and mail\<close>

record HTTPRequestPayload =
  URL :: string
  Method :: string
  http_Timeout :: int

definition put_HTTPRequestPayload :: "string \<Rightarrow> string \<Rightarrow> json \<Rightarrow> HTTPRequestPayload \<Rightarrow> goerror + HTTPRequestPayload" where
  "put_HTTPRequestPayload k raw v p =
    (if k = ''url'' then (case decode_string (URL p) v of Inl e \<Rightarrow> Inl e | Inr x \<Rightarrow> Inr (p\<lparr>URL := x\<rparr>))
     else if k = ''method'' then (case decode_string (Method p) v of Inl e \<Rightarrow> Inl e | Inr x \<Rightarrow> Inr (p\<lparr>Method := x\<rparr>))
     else (case decode_int (http_Timeout p) v of Inl e \<Rightarrow> Inl e | Inr n \<Rightarrow> Inr (p\<lparr>http_Timeout := n\<rparr>)))"

definition HTTPRequest :: "string option \<Rightarrow> (host_state, (goerror + string option) outcome) state" where
  "HTTPRequest payload =
    (case read_payload [''url'', ''method'', ''timeout''] put_HTTPRequestPayload
        \<lparr>URL = [], Method = [], http_Timeout = 0\<rparr> payload of
       Inl err \<Rightarrow> ret (Returned (Inl err))
     | Inr p \<Rightarrow> do {
         let url = (if URL p = [] then ''https://example.com/api'' else URL p);
         let meth = (if Method p = [] then ''GET'' else Method p);
         passed \<leftarrow> wait_for (100 * millisecond);
         if \<not> passed then ctx_error
         else ret (result_map [
           (''body'', JObj [member ''data'' (encode_string ''simulated response''), member ''mock'' JTrue]),
           (''method'', encode_string meth), (''status_code'', encode_int 200), (''url'', encode_string url)])
       })"

record EmailPayload =
  To :: string
  Subject :: string
  Body :: string

definition put_EmailPayload :: "string \<Rightarrow> string \<Rightarrow> json \<Rightarrow> EmailPayload \<Rightarrow> goerror + EmailPayload" where
  "put_EmailPayload k raw v p =
    (if k = ''to'' then (case decode_string (To p) v of Inl e \<Rightarrow> Inl e | Inr x \<Rightarrow> Inr (p\<lparr>To := x\<rparr>))
     else if k = ''subject'' then (case decode_string (Subject p) v of Inl e \<Rightarrow> Inl e | Inr x \<Rightarrow> Inr (p\<lparr>Subject := x\<rparr>))
     else (case decode_string (Body p) v of Inl e \<Rightarrow> Inl e | Inr x \<Rightarrow> Inr (p\<lparr>Body := x\<rparr>)))"

definition EmailMock :: "string option \<Rightarrow> (host_state, (goerror + string option) outcome) state" where
  "EmailMock payload =
    (case read_payload [''to'', ''subject'', ''body''] put_EmailPayload \<lparr>To = [], Subject = [], Body = []\<rparr> payload of
       Inl err \<Rightarrow> ret (Returned (Inl err))
     | Inr p \<Rightarrow>
        if To p = [] then ret (Returned (Inl (Errorf ''email 'to' address is required'')))
        else do {
          passed \<leftarrow> wait_for (50 * millisecond);
          if \<not> passed then ctx_error
          else do {
            h \<leftarrow> read_state;
            ret (result_map [
              (''message_id'', encode_string (''msg_'' @ format_int (i64 (host_clock h)))), (''sent'', JTrue),
              (''subject'', encode_string (Subject p)), (''to'', encode_string (To p))])
          }
        })"

section \<open>Registration\<close>

definition RegisterAll :: "host_state Registry \<Rightarrow> host_state Registry" where
  "RegisterAll registry =
    RegisterFunc ''email_mock'' EmailMock (RegisterFunc ''http_request'' HTTPRequest
      (RegisterFunc ''divide_by_zero'' DivideByZero (RegisterFunc ''panic'' Panic
        (RegisterFunc ''fail_n_times'' FailNTimes (RegisterFunc ''fail_always'' FailAlways
          (RegisterFunc ''sleep'' Sleep (RegisterFunc ''echo'' Echo registry)))))))"

section \<open>Failing a number of times\<close>

definition fail_key :: "FailNTimesPayload \<Rightarrow> string" where
  "fail_key p = (if fail_JobID p = [] then ''default'' else fail_JobID p)"

definition failed_so_far :: "FailNTimesPayload \<Rightarrow> nat \<Rightarrow> host_state \<Rightarrow> host_state" where
  "failed_so_far p k h =
    (if k = 0 then h else h\<lparr>failNTimesState := (failNTimesState h)(fail_key p \<mapsto> int k)\<rparr>)"

lemma FailNTimes_step:
  assumes "read_FailNTimes payload = Inr p" "0 < ctx_left h" "failNTimesState h (fail_key p) = None"
    and "int k < 2 ^ 63 - 1"
  shows "run_state (FailNTimes payload) (failed_so_far p k h) =
    (if int (Suc k) \<le> FailCount p
     then (Returned (Inl (Errorf (''intentional failure '' @ format_int (int (Suc k)) @ '' of '' @ format_int (FailCount p)))),
           failed_so_far p (Suc k) h)
     else (result_map [(''attempts'', encode_int (int (Suc k))), (''message'', encode_string ''succeeded after failures'')], h))"
proof -
  have n: "i64 (int k + 1) = int k + 1" by (rule i64_id) (use assms(4) in \<open>simp add: int64_range_def\<close>)
  show ?thesis
    using assms(1-3) n i64_id [of 1] fun_upd_idem [of "failNTimesState h", OF assms(3)]
    by (simp add: FailNTimes_def run_simps Let_def fail_key_def [symmetric] failed_so_far_def ac_simps int64_range_def)
qed

text \<open>The handler \<open>fail_n_times\<close> fails exactly as often as its payload asks for, twice by default, then
  succeeds and forgets the job, so that the next run starts over.\<close>

theorem FailNTimes_fails_n:
  assumes p: "read_FailNTimes payload = Inr p" and h: "0 < ctx_left h" "failNTimesState h (fail_key p) = None"
    and n: "FailCount p < 2 ^ 63 - 1"
  defines "again \<equiv> \<lambda>h. snd (run_state (FailNTimes payload) h)"
  shows "(\<forall>k < nat (FailCount p). \<exists>e. fst (run_state (FailNTimes payload) ((again ^^ k) h)) = Returned (Inl e)) \<and>
    (\<exists>r. run_state (FailNTimes payload) ((again ^^ nat (FailCount p)) h) = (Returned (Inr (Some r)), h))"
proof -
  have pos: "0 < FailCount p" using p by (auto simp: read_FailNTimes_def split: sum.splits if_splits)
  have it: "(again ^^ k) h = failed_so_far p k h" if "int k \<le> FailCount p" for k
    using that
  proof (induction k)
    case (Suc k)
    then have "int k < 2 ^ 63 - 1" using n by simp
    then show ?case using Suc FailNTimes_step [OF p h, of k] by (simp add: again_def)
  qed (simp add: failed_so_far_def)
  show ?thesis
  proof (intro conjI allI impI)
    fix k assume k: "k < nat (FailCount p)"
    then have "int k < 2 ^ 63 - 1" "int k \<le> FailCount p" "int (Suc k) \<le> FailCount p" using n by auto
    then show "\<exists>e. fst (run_state (FailNTimes payload) ((again ^^ k) h)) = Returned (Inl e)"
      using it [of k] FailNTimes_step [OF p h, of k] by simp
  next
    have "int (nat (FailCount p)) < 2 ^ 63 - 1" using n pos by simp
    then show "\<exists>r. run_state (FailNTimes payload) ((again ^^ nat (FailCount p)) h) = (Returned (Inr (Some r)), h)"
      using it [of "nat (FailCount p)"] pos FailNTimes_step [OF p h, of "nat (FailCount p)"]
      by (simp add: result_map_def del: json_text.simps)
  qed
qed

definition fresh_host :: host_state where
  "fresh_host = \<lparr>ctx_left = 30 * second, ctx_Err = Sentinel ''context deadline exceeded'', host_clock = 0,
     failNTimesState = (\<lambda>_. None)\<rparr>"

theorem FailNTimes_fails_n_witness:
  "\<exists>e r. fst (run_state (FailNTimes None) fresh_host) = Returned (Inl e) \<and>
     fst (run_state (FailNTimes None) (((\<lambda>h. snd (run_state (FailNTimes None) h)) ^^ 2) fresh_host)) = Returned (Inr (Some r))"
proof -
  let ?p = "\<lparr>FailCount = 2, fail_JobID = []\<rparr>"
  have "read_FailNTimes None = Inr ?p" by (simp add: read_FailNTimes_def read_payload_def)
  then show ?thesis
    using FailNTimes_fails_n [of None ?p fresh_host] by (auto simp: fresh_host_def dest: spec [of _ 0])
qed

end
