(* ===== verification/Worker_Theorems.thy ===== *)
theory Worker_Theorems
  imports Handlers Queue_Ack_Theorems Watchdog_Theorems
begin

text \<open>
  Correctness of the worker on a working link: what becomes of a job for every outcome of its
  handler, and what the claim loop does with the queue as it is.
\<close>

section \<open>The registry\<close>

lemma registry_Get_Register:
  "registry_Get (Register t h r) t' = (if t' = t then Some h else registry_Get r t')"
  "registry_Get (RegisterFunc t h r) t' = (if t' = t then Some h else registry_Get r t')"
  by (simp_all add: registry_Get_def Register_def RegisterFunc_def update_conv')

lemma registry_Types: "registry_Get r t \<noteq> None \<longleftrightarrow> t \<in> set (Types r)"
  by (simp add: registry_Get_def Types_def map_of_eq_None_iff)

section \<open>Processing one job\<close>

text \<open>The outcome of the code that a job selects: that of its handler, or the refusal of its type.\<close>

definition job_outcome :: "('s, 'h) Worker \<Rightarrow> Job \<Rightarrow> 'h \<Rightarrow> (goerror + string option) outcome" where
  "job_outcome w j h =
    (case registry_Get (wk_registry w) (Type j) of
       None \<Rightarrow> Returned (Inl (Errorf (''unknown job type: '' @ Type j)))
     | Some f \<Rightarrow> fst (run_state (f (Payload j)) h))"

definition host_after :: "('s, 'h) Worker \<Rightarrow> Job \<Rightarrow> 'h \<Rightarrow> 'h" where
  "host_after w j h =
    (case registry_Get (wk_registry w) (Type j) of None \<Rightarrow> h | Some f \<Rightarrow> snd (run_state (f (Payload j)) h))"

lemma run_executeHandler:
  "run_state (executeHandler f j) s =
    (fst (run_state (f (Payload j)) (host s)), s\<lparr>host := snd (run_state (f (Payload j)) (host s))\<rparr>)"
  by (simp add: executeHandler_def RecoverPanic_def go_recover_def run_simps split: prod.splits outcome.splits)

text \<open>One shape for all outcomes: settle the job, then lower the counter.\<close>

definition settle_job :: "('s, 'h) Worker \<Rightarrow> Job \<Rightarrow> (goerror + string option) outcome \<Rightarrow> ('s world, unit) state" where
  "settle_job w j oc =
    (case oc of
       Panicked v \<Rightarrow> ret ()
     | Returned (Inl err) \<Rightarrow> do {
         _ \<leftarrow> NackJob (wk_queue w) (Some j) (error_text err) (wk_BackoffConfig (wk_cfg w)); ret ()
       }
     | Returned (Inr res) \<Rightarrow> do {
         (r, e, j') \<leftarrow> AckJob (wk_queue w) (Some j) res;
         case e of Some err \<Rightarrow> ret () | None \<Rightarrow> do { _ \<leftarrow> now (wk_redis w); ret () }
       })"

lemma run_processJob:
  "run_state (processJob w j) s =
    ((case job_outcome w j (host s) of Panicked v \<Rightarrow> Panicked v | Returned _ \<Rightarrow> Returned ()),
     s\<lparr>host := host_after w j (host s),
       lw := snd (run_state (settle_job w j (job_outcome w j (host s))) (ticked (wk_redis w) (lw s)))\<rparr>)"
  by (auto simp: processJob_def settle_job_def job_outcome_def host_after_def handleJobFailure_def run_simps
      run_executeHandler split: option.splits prod.splits outcome.splits sum.splits)

text \<open>Settling a job in processing by the outcome of its handler.\<close>

lemma settle_completed:
  assumes q: "queue_on_redis c view stime up sha rnd (wk_queue w)" "wk_redis w = c" and r: "queue_ready view up (wk_queue w) u"
    and j: "job_wf j" "ID j \<in> set (running (queue_view (wk_queue w) (db view u)))"
    and lock: "stored (queue_view (wk_queue w) (db view u)) (ID j @ '':lock'') = None"
    and u': "u' = snd (run_state (settle_job w j (Returned (Inr res))) u)"
  shows "queue_ready view up (wk_queue w) u' \<and> (\<exists>j'. ID j' = ID j \<and> Status j' = StatusCompleted \<and> Result j' = res \<and>
    queue_view (wk_queue w) (db view u') =
      (let a = queue_view (wk_queue w) (db view u) in a_ack (ID j) (a\<lparr>stored := (stored a)(ID j \<mapsto> job_text j')\<rparr>)))"
proof (rule queue_on_redis.AckJob_run [OF q(1) r j(1) lock, of res])
  let ?q = "wk_queue w"
  fix t w' assume a: "queue_ready view up ?q w'"
    "run_state (AckJob ?q (Some j) res) u =
      (if ID j \<in> set (running (queue_view ?q (db view u)))
       then (Some \<lparr>ack_JobID = ID j, ack_Success = True, ack_Result = res, ack_Error = None\<rparr>, None, Some (MarkCompleted t res j))
       else (Some \<lparr>ack_JobID = ID j, ack_Success = False, ack_Result = res, ack_Error = Some ErrJobNotFound\<rparr>,
         Some ErrJobNotFound, Some (MarkCompleted t res j)), w')"
    "queue_view ?q (db view w') =
      (let a = (queue_view ?q (db view u))\<lparr>stored := (stored (queue_view ?q (db view u)))(ID j \<mapsto> job_text (MarkCompleted t res j))\<rparr>
       in if ID j \<in> set (running a) then a_ack (ID j) a else a)"
  have "u' = ticked c w'" using a(2) j(2) by (simp add: u' settle_job_def run_simps q(2))
  then have "queue_ready view up ?q u'" "db view u' = db view w'"
    using queue_on_redis.queue_ready_ticked [OF q(1) a(1)] redis_server.db_ticked(1) [OF queue_on_redis.axioms(1) [OF q(1)]] by simp_all
  then show ?thesis using a(3) j(2) by (auto simp: Let_def simp del: queue_view_sel intro!: exI [of _ "MarkCompleted t res j"])
qed

lemma settle_failed:
  assumes q: "queue_on_redis c view stime up sha rnd (wk_queue w)" "wk_redis w = c" and r: "queue_ready view up (wk_queue w) u"
    and j: "job_wf j" "ID j \<in> set (running (queue_view (wk_queue w) (db view u)))"
    and lock: "stored (queue_view (wk_queue w) (db view u)) (ID j @ '':lock'') = None" and t: "valid_utf8 (error_text err)"
    and u': "u' = snd (run_state (settle_job w j (Returned (Inl err))) u)"
  shows "queue_ready view up (wk_queue w) u' \<and> (\<exists>j'. ID j' = ID j \<and> LastError j' = error_text err \<and> Attempts j' = i64 (Attempts j + 1) \<and>
    queue_view (wk_queue w) (db view u') =
      (let a = queue_view (wk_queue w) (db view u) in
       if Attempts j' < MaxRetries j then a_retry (level_of (Priority j)) (ID j) (job_text j') a else a_bury (ID j) (job_text j') a))"
proof (rule queue_on_redis.NackJob_run [OF q(1) r j(1) t lock, of "wk_BackoffConfig (wk_cfg w)"])
  let ?q = "wk_queue w"
  fix t t' res w'
  assume a: "queue_ready view up ?q w'"
    "run_state (NackJob ?q (Some j) (error_text err) (wk_BackoffConfig (wk_cfg w))) u =
      (if ID j \<in> set (running (queue_view ?q (db view u)))
       then (Some res, None, Some (nacked t t' (error_text err) True j))
       else (Some (res\<lparr>nack_Error := Some ErrJobNotFound\<rparr>), Some ErrJobNotFound, Some (nacked t t' (error_text err) True j)), w')"
    "queue_view ?q (db view w') =
      (let a = queue_view ?q (db view u); d = job_text (nacked t t' (error_text err) True j) in
       if ID j \<in> set (running a) then
         if nack_retries True j then a_retry (level_of (Priority j)) (ID j) d a else a_bury (ID j) d a
       else a\<lparr>stored := (stored a)(ID j \<mapsto> d)\<rparr>)"
  have "u' = w'" using a(2) j(2) by (simp add: u' settle_job_def run_simps)
  then show ?thesis using a(1,3) j(2)
    by (intro conjI exI [of _ "nacked t t' (error_text err) True j"]) (simp_all add: Let_def nack_retries_def del: queue_view_sel)
qed

text \<open>C28. A job in processing is settled by the outcome of its handler: a result completes it, an error
  (an unknown type included) counts one attempt and sends it back to its priority list or to the dead
  letters. A panic is not recovered: it leaves \<open>processJob\<close>, and with it the whole program, and the job
  stays in processing, neither completed nor failed. The counter of running jobs is as before.\<close>

theorem processJob_settles:
  assumes q: "queue_on_redis c view stime up sha rnd (wk_queue w)" "wk_redis w = c" and s: "queue_ready view up (wk_queue w) (lw s)"
    and j: "job_wf j" "ID j \<in> set (running (queue_view (wk_queue w) (db view (lw s))))"
    and lock: "stored (queue_view (wk_queue w) (db view (lw s))) (ID j @ '':lock'') = None"
    and u: "\<forall>err. job_outcome w j (host s) = Returned (Inl err) \<longrightarrow> valid_utf8 (error_text err)"
  shows "\<exists>s' j'. processing s' = processing s \<and> queue_ready view up (wk_queue w) (lw s') \<and> ID j' = ID j \<and>
    (let a = queue_view (wk_queue w) (db view (lw s)); a' = queue_view (wk_queue w) (db view (lw s')) in
     case job_outcome w j (host s) of
       Panicked v \<Rightarrow> run_state (processJob w j) s = (Panicked v, s') \<and> a' = a
     | Returned (Inr res) \<Rightarrow> run_state (processJob w j) s = (Returned (), s') \<and>
         Status j' = StatusCompleted \<and> Result j' = res \<and>
         a' = a_ack (ID j) (a\<lparr>stored := (stored a)(ID j \<mapsto> job_text j')\<rparr>)
     | Returned (Inl err) \<Rightarrow> run_state (processJob w j) s = (Returned (), s') \<and>
         LastError j' = error_text err \<and> Attempts j' = i64 (Attempts j + 1) \<and>
         a' = (if Attempts j' < MaxRetries j then a_retry (level_of (Priority j)) (ID j) (job_text j') a
               else a_bury (ID j) (job_text j') a))"
proof -
  let ?q = "wk_queue w" and ?oc = "job_outcome w j (host s)" and ?w = "ticked c (lw s)"
  have red: "redis_server c view stime up sha rnd" by (rule queue_on_redis.axioms(1) [OF q(1)])
  have r: "queue_ready view up ?q ?w" "db view ?w = db view (lw s)"
    using queue_on_redis.queue_ready_ticked [OF q(1) s] redis_server.db_ticked(1) [OF red] by simp_all
  have run: "ID j \<in> set (running (queue_view ?q (db view ?w)))" and lock': "stored (queue_view ?q (db view ?w)) (ID j @ '':lock'') = None"
    using j(2) lock r(2) by simp_all
  define s' where "s' = s\<lparr>host := host_after w j (host s), lw := snd (run_state (settle_job w j ?oc) ?w)\<rparr>"
  have s': "run_state (processJob w j) s = ((case ?oc of Panicked v \<Rightarrow> Panicked v | Returned _ \<Rightarrow> Returned ()), s')"
    "processing s' = processing s" "lw s' = snd (run_state (settle_job w j ?oc) ?w)"
    by (simp_all add: run_processJob s'_def q(2))
  consider (panic) v where "?oc = Panicked v" | (good) res where "?oc = Returned (Inr res)"
    | (bad) err where "?oc = Returned (Inl err)"
    by (metis obj_sumE outcome.exhaust)
  then show ?thesis
  proof cases
    case panic
    then have "lw s' = ?w" by (simp add: s'_def settle_job_def)
    then show ?thesis using s' panic r by (intro exI [of _ s'] exI [of _ j]) (simp add: Let_def)
  next
    case good
    then show ?thesis
      using settle_completed [OF q r(1) j(1) run lock' s'(3) [unfolded good]] s' r(2)
      by (auto simp: Let_def simp del: queue_view_sel intro!: exI [of _ s'])
  next
    case bad
    then have t: "valid_utf8 (error_text err)" using u by simp
    show ?thesis
      using settle_failed [OF q r(1) j(1) run lock' t s'(3) [unfolded bad]] s' r(2) bad
      by (auto simp: Let_def simp del: queue_view_sel intro!: exI [of _ s'])
  qed
qed

text \<open>A worker in memory with the example handlers and a job that panics.\<close>

definition mem_worker :: "(memory, host_state) Worker" where
  "mem_worker = fst (worker_New (worker_DefaultConfig ''w1'') (RegisterAll NewRegistry) mem_queue mem_client mem_world fresh_host)"

definition mem_worker_state :: "keyspace \<Rightarrow> (memory, host_state) worker_state" where
  "mem_worker_state D = (snd (worker_New (worker_DefaultConfig ''w1'') (RegisterAll NewRegistry) mem_queue mem_client
     (mem_with D) fresh_host))"

lemma mem_worker_parts [simp]:
  "wk_queue mem_worker = mem_queue" "wk_redis mem_worker = mem_client" "lw (mem_worker_state D) = mem_with D"
  "wk_registry mem_worker = RegisterAll NewRegistry" "host (mem_worker_state D) = fresh_host"
  by (simp_all add: mem_worker_def mem_worker_state_def worker_New_def watchdog_New_def service.extend_def)

definition panic_job :: Job where "panic_job = mem_job\<lparr>Type := ''panic''\<rparr>"

lemma panic_job_outcome:
  "job_outcome mem_worker panic_job fresh_host = Panicked (PanicString ''intentional panic for testing'')"
  by (simp add: job_outcome_def panic_job_def RegisterAll_def registry_Get_Register Panic_def run_simps fresh_host_def)

theorem processJob_settles_witness:
  "\<exists>v s'. run_state (processJob mem_worker panic_job) (mem_worker_state busy_db) = (Panicked v, s') \<and>
     running (queue_view mem_queue (db mem (lw s'))) = [ID mem_job]"
proof -
  have t: "valid_utf8 ''panic''" by (simp add: utf8_size.simps)
  have j: "job_wf panic_job" "ID panic_job = ID mem_job"
    using mem_job_ok(1) t by (simp_all add: panic_job_def job_wf_def del: valid_utf8.simps mem_job_ok)
  have q: "queue_on_redis mem_client mem ms alive sha_text ''0.5'' (wk_queue mem_worker)"
    using mem_queue_contract by simp
  show ?thesis
    using processJob_settles [OF q, of "mem_worker_state busy_db" panic_job] mem_with_ready [OF busy_queue(1)] j
    by (auto simp: panic_job_outcome Let_def simp del: queue_view_sel)
qed

section \<open>The loop\<close>

lemma stalled_loop: "\<not> IsHealthy (lw s) \<Longrightarrow> run_state (processLoop w es) s = (Returned (), s)"
  by (induction es) (simp_all add: run_simps split: loop_event.split)

text \<open>Once the circuit is open the loop does nothing but sleep, for as many rounds as it runs: the
  breaker only moves on when a call is made, and the loop makes none.\<close>

theorem open_circuit_stalls_loop:
  assumes "\<not> IsHealthy (lw s)"
  shows "run_state (processLoop w es) s = (Returned (), s)"
  using assms by (rule stalled_loop)

theorem open_circuit_stalls_loop_witness:
  "run_state (processLoop mem_worker (replicate 1000 LoopDefault))
     (mem_worker_state empty_db\<lparr>lw := mem_world\<lparr>cstate := circuitOpen\<rparr>\<rparr>) =
   (Returned (), mem_worker_state empty_db\<lparr>lw := mem_world\<lparr>cstate := circuitOpen\<rparr>\<rparr>)"
  by (rule open_circuit_stalls_loop) (simp add: IsHealthy_def)

text \<open>On a working link and a queue of its own a worker processes no job at all, however long it
  runs and whatever is pending: every claim ends in an error.\<close>

theorem worker_processes_nothing:
  assumes q: "queue_on_redis c view stime up sha rnd (wk_queue w)" and n: "0 < whole_seconds (LockTTL (qopts (wk_queue w)))"
    and "queue_ready view up (wk_queue w) (lw s)"
  shows "\<exists>s'. run_state (processLoop w es) s = (Returned (), s') \<and> host s' = host s \<and> processing s' = processing s"
  using assms(3)
proof (induction es arbitrary: s)
  case (Cons e es)
  let ?q = "wk_queue w" and ?t = "wk_PollInterval (wk_cfg w)"
  have rest: "\<exists>s'. run_state (processLoop w es) (s\<lparr>lw := w'\<rparr>) = (Returned (), s') \<and> host s' = host s \<and> processing s' = processing s"
    if "queue_ready view up ?q w' \<or> \<not> IsHealthy w'" for w'
    using that Cons.IH [of "s\<lparr>lw := w'\<rparr>"] stalled_loop [of "s\<lparr>lw := w'\<rparr>" w es] by auto
  have "\<exists>err w'. run_state (Claim ?q ?t) (lw s) = (Inl err, w') \<and> (queue_ready view up ?q w' \<or> \<not> IsHealthy w')"
  proof (cases "pend (queue_view ?q (db view (lw s))) High = []")
    case True
    show ?thesis
    proof (rule queue_on_redis.claim_empty [OF q Cons.prems n True])
      fix w' assume a: "run_state (claimFromQueue ?q (pending_key (Prefix (qopts ?q)) High)) (lw s) =
          (Inl (Wrapf ''claim script blew up'' (Wrapf ''redis evalsha'' ErrNotFound)), w')"
        "db view w' = db view (lw s)" "up (srv w')" "scripts_in view w' = scripts_in view (lw s)"
      have "queue_ready view up ?q w' \<or> \<not> IsHealthy w'"
        using a(2-4) Cons.prems by (auto simp: queue_ready_def ready_def)
      then show ?thesis using queue_on_redis.Claim_first_queue [OF q a(1)] by blast
    qed
  next
    case False
    show ?thesis
      by (rule queue_on_redis.claim_nonempty [OF q Cons.prems n False])
        (use queue_on_redis.Claim_first_queue [OF q] in blast)
  qed
  then obtain err w' where "run_state (Claim ?q ?t) (lw s) = (Inl err, w')" "queue_ready view up ?q w' \<or> \<not> IsHealthy w'"
    by blast
  then show ?case
    using rest Cons.prems queue_readyD(1) [OF Cons.prems] by (cases e) (auto simp: run_simps ready_def)
qed simp

theorem worker_processes_nothing_witness:
  "\<exists>s'. run_state (processLoop mem_worker (replicate 1000 LoopDefault)) (mem_worker_state pending_db) = (Returned (), s') \<and>
     host s' = fresh_host"
proof -
  have q: "queue_on_redis mem_client mem ms alive sha_text ''0.5'' (wk_queue mem_worker)"
    using mem_queue_contract by simp
  show ?thesis
    using worker_processes_nothing [OF q, of "mem_worker_state pending_db" "replicate 1000 LoopDefault"]
      mem_with_ready [OF pending_queue(1)] by auto
qed

end
