(* ===== verification/Dedup.thy ===== *)
theory Dedup
  imports Redis_Memory
begin

text \<open>
  The deduplication service (\<open>internal/dedup/deduplication.go\<close>): unique keys kept in Redis for a window,
  each with the identifier of the job that registered it. Logging is left out.
\<close>

section \<open>Operations\<close>

definition DefaultTTL :: int where "DefaultTTL = 24 * hour"

record dedup_Config =
  dd_TTL :: int
  dd_KeyPrefix :: string

definition dedup_DefaultConfig :: dedup_Config where
  "dedup_DefaultConfig = \<lparr>dd_TTL = DefaultTTL, dd_KeyPrefix = ''titan:dedup:''\<rparr>"

record dedup_Result =
  IsDuplicate :: bool
  ExistingJobID :: string

record 's Service =
  dd_client :: "'s client"
  dd_config :: dedup_Config

definition NewService :: "'s client \<Rightarrow> dedup_Config \<Rightarrow> 's Service" where
  "NewService c config = \<lparr>dd_client = c, dd_config = config\<rparr>"

definition dedup_ErrDuplicateJob :: goerror where
  "dedup_ErrDuplicateJob = Sentinel ''duplicate job detected''"

definition Check :: "'s Service \<Rightarrow> string \<Rightarrow> string \<Rightarrow> ('s world, dedup_Result) state" where
  "Check s uniqueKey jobID =
    (if uniqueKey = [] then ret \<lparr>IsDuplicate = False, ExistingJobID = []\<rparr>
     else do {
       let key = dd_KeyPrefix (dd_config s) @ uniqueKey;
       r \<leftarrow> SetNX (dd_client s) key jobID (dd_TTL (dd_config s));
       case r of
         Inl err \<Rightarrow> ret \<lparr>IsDuplicate = False, ExistingJobID = []\<rparr>
       | Inr acquired \<Rightarrow>
           if acquired then ret \<lparr>IsDuplicate = False, ExistingJobID = []\<rparr>
           else do {
             g \<leftarrow> Get (dd_client s) key;
             case g of
               Inl err \<Rightarrow> ret \<lparr>IsDuplicate = True, ExistingJobID = []\<rparr>
             | Inr existingID \<Rightarrow> ret \<lparr>IsDuplicate = True, ExistingJobID = existingID\<rparr>
           }
     })"

definition dedup_Register :: "'s Service \<Rightarrow> string \<Rightarrow> string \<Rightarrow> ('s world, goerror + unit) state" where
  "dedup_Register s uniqueKey jobID =
    (if uniqueKey = [] then ret (Inr ())
     else Set (dd_client s) (dd_KeyPrefix (dd_config s) @ uniqueKey) jobID (dd_TTL (dd_config s)))"

definition dedup_Remove :: "'s Service \<Rightarrow> string \<Rightarrow> ('s world, goerror + unit) state" where
  "dedup_Remove s uniqueKey =
    (if uniqueKey = [] then ret (Inr ())
     else Del (dd_client s) [dd_KeyPrefix (dd_config s) @ uniqueKey])"

definition dedup_Exists :: "'s Service \<Rightarrow> string \<Rightarrow> ('s world, goerror + bool) state" where
  "dedup_Exists s uniqueKey =
    (if uniqueKey = [] then ret (Inr False)
     else or_return (Exists (dd_client s) [dd_KeyPrefix (dd_config s) @ uniqueKey]) (Wrapf ''dedup exists'') (\<lambda>count.
       ret (Inr (count > 0))))"

definition GetJobID :: "'s Service \<Rightarrow> string \<Rightarrow> ('s world, goerror + string) state" where
  "GetJobID s uniqueKey =
    (if uniqueKey = [] then ret (Inr [])
     else or_return (Get (dd_client s) (dd_KeyPrefix (dd_config s) @ uniqueKey)) (Wrapf ''dedup get'') (\<lambda>i.
       ret (Inr i)))"

section \<open>The first one wins\<close>

context redis_server begin

lemma Get_volatile_at:
  assumes "ready up w" "db view w k = Some (VStr v, Some e)"
  obtains w' where "run_state (Get c k) w = (if stime (srv w') < e then Inr v else Inl (Wrapf ''redis get'' ErrNotFound), w')"
    "stime (srv w) \<le> stime (srv w')" "ready up w'" "db view w' = db view w"
proof (cases "stime (srv (sent c (GET k) w)) < e")
  case True
  then have "run_state (Get c k) w = (Inr v, sent c (GET k) w)"
    by (intro Get_at [OF assms(1)]) (use assms(2) in \<open>simp add: lookup_def\<close>)
  then show thesis using that [of "sent c (GET k) w"] True stime_sent_le [OF assms(1)] assms(1) by simp
next
  case False
  then have t: "\<not> stime (after c (GET k) (srv w)) < e" by (simp add: sent_def)
  then have "lookup (stime (after c (GET k) (srv w))) (db view w) k = None" using assms(2) by (simp add: lookup_def)
  then have "run_state (Get c k) w = (Inl (Wrapf ''redis get'' ErrNotFound), missed c (GET k) w)"
    using assms(1) by (simp add: Get_def run_call_ready exec_basic_cmd db_def as_string_def wrapError_def)
  moreover have "srv (missed c (GET k) w) = after c (GET k) (srv w)" by (simp add: missed_def)
  moreover have "up (srv w)" using assms(1) by (simp add: ready_def)
  ultimately show thesis
    using that [of "missed c (GET k) w"] t assms(1) after_laws(2) [of "srv w" "GET k"] by simp
qed

lemma Check_fresh:
  assumes w: "ready up w" and s: "dd_client s = c" "u \<noteq> []" "0 < dd_TTL (dd_config s)"
    and free: "db view w (dd_KeyPrefix (dd_config s) @ u) = None"
  obtains w' where "run_state (Check s u i) w = (\<lparr>IsDuplicate = False, ExistingJobID = []\<rparr>, w')"
    "ready up w'" "stime (srv w) \<le> stime (srv w')"
    "db view w' (dd_KeyPrefix (dd_config s) @ u) = Some (VStr i, Some (stime (srv w') + ttl_ms (dd_TTL (dd_config s))))"
proof -
  let ?k = "dd_KeyPrefix (dd_config s) @ u" and ?d = "dd_TTL (dd_config s)"
  note n = SetNX_run [OF w, of ?k i ?d]
  have "lookup t (db view w) ?k = None" for t using free by (simp add: lookup_def)
  then show thesis
    using that [of "sent c (SETNX ?k i ?d) w"] n w s stime_sent_le [OF w]
    by (simp add: Check_def run_simps Let_def expiry_def put_str_def)
qed

lemma Check_held:
  assumes w: "ready up w" and s: "dd_client s = c" "u \<noteq> []"
    and held: "db view w (dd_KeyPrefix (dd_config s) @ u) = Some (VStr i, Some e)"
    and run: "run_state (Check s u j) w = (res, w')" "stime (srv w') < e"
  shows "res = \<lparr>IsDuplicate = True, ExistingJobID = i\<rparr> \<and> ready up w'"
proof -
  let ?k = "dd_KeyPrefix (dd_config s) @ u" and ?d = "dd_TTL (dd_config s)"
  define wa where "wa = sent c (SETNX ?k j ?d) w"
  note n = SetNX_run [OF w, of ?k j ?d, folded wa_def]
  have a: "ready up wa" using w by (simp add: wa_def)
  show ?thesis
  proof (cases "lookup (stime (srv wa)) (db view w) ?k = None")
    case True
    then have "w' = wa" using n(1) run(1) s by (simp add: Check_def run_simps Let_def)
    then show ?thesis using True held run(2) by (simp add: lookup_def)
  next
    case False
    then have d: "db view wa ?k = Some (VStr i, Some e)" using n(2) [unfolded if_not_P [OF False]] held by simp
    obtain wb where b: "run_state (Get c ?k) wa = (if stime (srv wb) < e then Inr i else Inl (Wrapf ''redis get'' ErrNotFound), wb)"
      "ready up wb"
      using Get_volatile_at [OF a d] by metis
    have "w' = wb" using b(1) n(1) False run(1) s by (auto simp: Check_def run_simps Let_def split: if_splits)
    then show ?thesis using b n(1) False run s by (simp add: Check_def run_simps Let_def)
  qed
qed

end

text \<open>C37. Of two checks for one unique key within the window the first registers its job and the second
  is told that it is a duplicate, and of which job, for a key that nobody held before. After a removal
  the key is free again.\<close>

theorem Check_first_wins:
  assumes r: "redis_server c view stime up sha rnd" and w: "ready up w" and s: "dd_client s = c" "u \<noteq> []"
    "0 < dd_TTL (dd_config s)" and free: "db view w (dd_KeyPrefix (dd_config s) @ u) = None"
    and r1: "run_state (Check s u i1) w = (res1, w1)" and r2: "run_state (Check s u i2) w1 = (res2, w2)"
    and win: "stime (srv w2) < stime (srv w) + ttl_ms (dd_TTL (dd_config s))"
  shows "res1 = \<lparr>IsDuplicate = False, ExistingJobID = []\<rparr> \<and> res2 = \<lparr>IsDuplicate = True, ExistingJobID = i1\<rparr> \<and>
    (\<exists>w3. run_state (dedup_Remove s u) w2 = (Inr (), w3) \<and> db view w3 (dd_KeyPrefix (dd_config s) @ u) = None)"
proof (rule redis_server.Check_fresh [OF r w s free, of i1])
  let ?k = "dd_KeyPrefix (dd_config s) @ u"
  fix w' assume a: "run_state (Check s u i1) w = (\<lparr>IsDuplicate = False, ExistingJobID = []\<rparr>, w')" "ready up w'"
    "stime (srv w) \<le> stime (srv w')" "db view w' ?k = Some (VStr i1, Some (stime (srv w') + ttl_ms (dd_TTL (dd_config s))))"
  then have one: "res1 = \<lparr>IsDuplicate = False, ExistingJobID = []\<rparr>" "w' = w1" using r1 by auto
  have two: "res2 = \<lparr>IsDuplicate = True, ExistingJobID = i1\<rparr> \<and> ready up w2"
    by (rule redis_server.Check_held [OF r a(2) s(1,2) a(4) r2 [folded one(2)]]) (use win a(3) in simp)
  then have "run_state (dedup_Remove s u) w2 = (Inr (), sent c (DEL [?k]) w2)" "db view (sent c (DEL [?k]) w2) ?k = None"
    using redis_server.Del_run [OF r] redis_server.Del_db [OF r] s by (simp_all add: dedup_Remove_def rm_def)
  then show ?thesis using one(1) two by blast
qed

definition mem_dedup :: "memory Service" where
  "mem_dedup = NewService mem_client dedup_DefaultConfig"

theorem Check_first_wins_witness:
  "\<exists>w1 w2. run_state (Check mem_dedup ''k'' ''a'') mem_world = (\<lparr>IsDuplicate = False, ExistingJobID = []\<rparr>, w1) \<and>
     run_state (Check mem_dedup ''k'' ''b'') w1 = (\<lparr>IsDuplicate = True, ExistingJobID = ''a''\<rparr>, w2)"
proof -
  have d: "dd_client mem_dedup = mem_client" "dd_TTL (dd_config mem_dedup) = 86400 * second"
    by (simp_all add: mem_dedup_def NewService_def dedup_DefaultConfig_def DefaultTTL_def)
  obtain res1 w1 where r1: "run_state (Check mem_dedup ''k'' ''a'') mem_world = (res1, w1)" by (rule prod.exhaust)
  obtain res2 w2 where r2: "run_state (Check mem_dedup ''k'' ''b'') w1 = (res2, w2)" by (rule prod.exhaust)
  have still: "ms (srv (snd (run_state (call mem_client nil_ok op conv cmd) w))) \<le> ms (srv w) + 2" for nil_ok op cmd w
    and conv :: "goerror + reply \<Rightarrow> goerror + 'b"
    by (auto simp: run_call run_checkCircuit run_recordFailure mem_client_def mem_env_def
        split: prod.splits option.splits sum.splits if_splits)
  have slow: "ms (srv (snd (run_state (Check mem_dedup u i) w))) \<le> ms (srv w) + 4" for u i w
    using still [of False "''setnx''" as_bool] still [of True "''get''" as_string]
    by (auto simp: Check_def d(1) SetNX_def Get_def run_simps Let_def split: prod.splits sum.splits) (smt (verit) snd_conv)+
  have "ms (srv w2) < ms (srv mem_world) + ttl_ms (dd_TTL (dd_config mem_dedup))"
    using slow [of "''k''" "''a''" mem_world] slow [of "''k''" "''b''" w1] r1 r2 by (simp add: d(2) ttl_ms_def)
  then show ?thesis
    using Check_first_wins [OF memory_contract mem_world_ready(1) d(1) _ _ _ r1 r2] r1 r2 d(2) by simp
qed

end
