(* ===== verification/Logging.thy ===== *)
theory Logging
  imports Go_Text Go_Float
begin

text \<open>
  Structured logging (\<open>internal/logging\<close>): the identifiers that a context carries, the logger
  derived from a context, the lines that the helper functions write and the choice of level and format.
  A logger is the attributes it adds to every line, the least level it writes and its format; writing a
  line is its value here.
\<close>

section \<open>Values of a context\<close>

text \<open>The three keys have a type of their own, so nothing else in a context can shadow them.\<close>

record context_values =
  requestIDKey :: "string option"
  jobIDKey :: "string option"
  workerIDKey :: "string option"

definition background :: context_values where
  "background = \<lparr>requestIDKey = None, jobIDKey = None, workerIDKey = None\<rparr>"

definition WithRequestID :: "context_values \<Rightarrow> string \<Rightarrow> context_values" where
  "WithRequestID ctx requestID = ctx\<lparr>requestIDKey := Some requestID\<rparr>"

definition WithJobID :: "context_values \<Rightarrow> string \<Rightarrow> context_values" where
  "WithJobID ctx jobID = ctx\<lparr>jobIDKey := Some jobID\<rparr>"

definition WithWorkerID :: "context_values \<Rightarrow> string \<Rightarrow> context_values" where
  "WithWorkerID ctx workerID = ctx\<lparr>workerIDKey := Some workerID\<rparr>"

definition GetRequestID :: "context_values \<Rightarrow> string" where
  "GetRequestID ctx = (case requestIDKey ctx of Some v \<Rightarrow> v | None \<Rightarrow> [])"

definition ctx_GetJobID :: "context_values \<Rightarrow> string" where
  "ctx_GetJobID ctx = (case jobIDKey ctx of Some v \<Rightarrow> v | None \<Rightarrow> [])"

definition GetWorkerID :: "context_values \<Rightarrow> string" where
  "GetWorkerID ctx = (case workerIDKey ctx of Some v \<Rightarrow> v | None \<Rightarrow> [])"

section \<open>Loggers and lines\<close>

datatype log_value = LString string | LInt int | LFloat rat

type_synonym log_attr = "string \<times> log_value"

datatype log_level = LevelDebug | LevelInfo | LevelWarn | LevelError

datatype log_format = TextFormat | JSONFormat

record logger =
  log_attrs :: "log_attr list"
  log_min :: log_level
  log_format :: log_format

record log_line =
  line_level :: log_level
  line_msg :: string
  line_attrs :: "log_attr list"

text \<open>\<open>logger.With\<close> and a call at a level: nothing is written below the least level.\<close>

definition logger_With :: "logger \<Rightarrow> log_attr list \<Rightarrow> logger" where
  "logger_With l attrs = l\<lparr>log_attrs := log_attrs l @ attrs\<rparr>"

primrec level_rank :: "log_level \<Rightarrow> int" where
  "level_rank LevelDebug = - 4"
| "level_rank LevelInfo = 0"
| "level_rank LevelWarn = 4"
| "level_rank LevelError = 8"

text \<open>The levels are ordered by their numbers in \<open>log/slog\<close>.\<close>

instantiation log_level :: linorder
begin

definition less_eq_log_level :: "log_level \<Rightarrow> log_level \<Rightarrow> bool" where
  "less_eq_log_level a b \<longleftrightarrow> level_rank a \<le> level_rank b"

definition less_log_level :: "log_level \<Rightarrow> log_level \<Rightarrow> bool" where
  "less_log_level a b \<longleftrightarrow> level_rank a < level_rank b"

instance
proof
  fix a b :: log_level
  show "a \<le> b \<Longrightarrow> b \<le> a \<Longrightarrow> a = b" by (cases a; cases b) (simp_all add: less_eq_log_level_def)
qed (auto simp: less_eq_log_level_def less_log_level_def)

end

lemmas log_level_order = less_eq_log_level_def less_log_level_def

definition log_at :: "log_level \<Rightarrow> logger \<Rightarrow> string \<Rightarrow> log_attr list \<Rightarrow> log_line option" where
  "log_at v l msg attrs =
    (if log_min l \<le> v
     then Some \<lparr>line_level = v, line_msg = msg, line_attrs = log_attrs l @ attrs\<rparr> else None)"

text \<open>\<open>dflt\<close> is \<open>slog.Default()\<close>.\<close>

definition FromContext :: "logger \<Rightarrow> context_values \<Rightarrow> logger option \<Rightarrow> logger" where
  "FromContext dflt ctx l =
    (let l = (case l of None \<Rightarrow> dflt | Some l \<Rightarrow> l);
         attrs = (if GetRequestID ctx \<noteq> [] then [(''request_id'', LString (GetRequestID ctx))] else []) @
           (if ctx_GetJobID ctx \<noteq> [] then [(''job_id'', LString (ctx_GetJobID ctx))] else []) @
           (if GetWorkerID ctx \<noteq> [] then [(''worker_id'', LString (GetWorkerID ctx))] else [])
     in if length attrs > 0 then logger_With l attrs else l)"

definition LogRequest :: "logger \<Rightarrow> string \<Rightarrow> string \<Rightarrow> int \<Rightarrow> rat \<Rightarrow> string \<Rightarrow> log_line option" where
  "LogRequest l method path status duration requestID =
    log_at LevelInfo l ''http request''
      [(''method'', LString method), (''path'', LString path), (''status'', LInt status),
       (''duration_ms'', LFloat duration), (''request_id'', LString requestID)]"

definition LogJobStarted :: "logger \<Rightarrow> string \<Rightarrow> string \<Rightarrow> string \<Rightarrow> log_line option" where
  "LogJobStarted l jobID jobType workerID =
    log_at LevelInfo l ''job started''
      [(''job_id'', LString jobID), (''job_type'', LString jobType), (''worker_id'', LString workerID)]"

definition LogJobCompleted :: "logger \<Rightarrow> string \<Rightarrow> string \<Rightarrow> string \<Rightarrow> rat \<Rightarrow> log_line option" where
  "LogJobCompleted l jobID jobType workerID durationMs =
    log_at LevelInfo l ''job completed''
      [(''job_id'', LString jobID), (''job_type'', LString jobType), (''worker_id'', LString workerID),
       (''duration_ms'', LFloat durationMs)]"

definition LogJobFailed :: "logger \<Rightarrow> string \<Rightarrow> string \<Rightarrow> string \<Rightarrow> int \<Rightarrow> int \<Rightarrow> string \<Rightarrow> log_line option" where
  "LogJobFailed l jobID jobType workerID attempt maxRetries err =
    log_at LevelError l ''job failed''
      [(''job_id'', LString jobID), (''job_type'', LString jobType), (''worker_id'', LString workerID),
       (''attempt'', LInt attempt), (''max_retries'', LInt maxRetries), (''error'', LString err)]"

definition LogJobRetrying :: "logger \<Rightarrow> string \<Rightarrow> string \<Rightarrow> int \<Rightarrow> int \<Rightarrow> string \<Rightarrow> log_line option" where
  "LogJobRetrying l jobID jobType attempt maxRetries nextRetry =
    log_at LevelWarn l ''job retrying''
      [(''job_id'', LString jobID), (''job_type'', LString jobType), (''attempt'', LInt attempt),
       (''max_retries'', LInt maxRetries), (''next_retry'', LString nextRetry)]"

definition LogJobDead :: "logger \<Rightarrow> string \<Rightarrow> string \<Rightarrow> int \<Rightarrow> string \<Rightarrow> log_line option" where
  "LogJobDead l jobID jobType attempts err =
    log_at LevelError l ''job dead''
      [(''job_id'', LString jobID), (''job_type'', LString jobType), (''attempts'', LInt attempts), (''error'', LString err)]"

section \<open>Configuration\<close>

text \<open>
  \<open>strings.ToLower\<close> as far as a comparison with ASCII text can tell: besides the ASCII letters only
  U+0130 and U+212A have an ASCII letter as their lower case.
\<close>

fun lower_text :: "string \<Rightarrow> string" where
  "lower_text [] = []"
| "lower_text (c # s) =
    (if c = CHR 0xC4 \<and> s \<noteq> [] \<and> hd s = CHR 0xB0 then CHR ''i'' # lower_text (drop 1 s)
     else if c = CHR 0xE2 \<and> take 2 s = [CHR 0x84, CHR 0xAA] then CHR ''k'' # lower_text (drop 2 s)
     else (if 65 \<le> code c \<and> code c \<le> 90 then char_of (code c + 32) else c) # lower_text s)"

definition parseLevel :: "string \<Rightarrow> log_level" where
  "parseLevel level =
    (let l = lower_text level in
     if l = ''debug'' then LevelDebug
     else if l = ''info'' then LevelInfo
     else if l = ''warn'' \<or> l = ''warning'' then LevelWarn
     else if l = ''error'' then LevelError
     else LevelInfo)"

record logging_Config =
  lc_Level :: string
  lc_Format :: string
  lc_Service :: string

definition logging_DefaultConfig :: "string \<Rightarrow> logging_Config" where
  "logging_DefaultConfig service = \<lparr>lc_Level = ''info'', lc_Format = ''json'', lc_Service = service\<rparr>"

definition logging_New :: "logging_Config \<Rightarrow> logger" where
  "logging_New cfg =
    \<lparr>log_attrs = [(''service'', LString (lc_Service cfg))], log_min = parseLevel (lc_Level cfg),
     log_format = (if lower_text (lc_Format cfg) = ''text'' then TextFormat else JSONFormat)\<rparr>"

section \<open>What reaches the log\<close>

text \<open>A line written through the logger of a context names every identifier that the context carries, the
  service first, in any order of setting them; and whether it is written depends on the configured level
  alone, unknown levels counting as \<open>info\<close>.\<close>

theorem context_line:
  assumes "r \<noteq> []" "j \<noteq> []" "k \<noteq> []"
  shows "log_at v (FromContext dflt (WithJobID (WithWorkerID (WithRequestID ctx r) k) j) (Some (logging_New cfg))) msg attrs =
    (if parseLevel (lc_Level cfg) \<le> v
     then Some \<lparr>line_level = v, line_msg = msg,
       line_attrs = [(''service'', LString (lc_Service cfg)), (''request_id'', LString r), (''job_id'', LString j),
         (''worker_id'', LString k)] @ attrs\<rparr>
     else None)"
  using assms
  by (simp add: FromContext_def logging_New_def log_at_def logger_With_def GetRequestID_def ctx_GetJobID_def GetWorkerID_def
      WithRequestID_def WithJobID_def WithWorkerID_def Let_def)

theorem context_line_witness:
  "log_at LevelWarn (FromContext (logging_New (logging_DefaultConfig ''api'')) (WithJobID (WithWorkerID (WithRequestID background ''r1'') ''w1'') ''j1'')
      (Some (logging_New \<lparr>lc_Level = ''WARNING'', lc_Format = ''json'', lc_Service = ''worker''\<rparr>))) ''job retrying'' [] =
    Some \<lparr>line_level = LevelWarn, line_msg = ''job retrying'',
      line_attrs = [(''service'', LString ''worker''), (''request_id'', LString ''r1''), (''job_id'', LString ''j1''),
        (''worker_id'', LString ''w1'')]\<rparr>"
proof -
  have "parseLevel ''WARNING'' = LevelWarn" by code_simp
  then show ?thesis
    using context_line [of "''r1''" "''j1''" "''w1''" LevelWarn "logging_New (logging_DefaultConfig ''api'')" background
        "\<lparr>lc_Level = ''WARNING'', lc_Format = ''json'', lc_Service = ''worker''\<rparr>" "''job retrying''" "[]"] by simp
qed

end
