(* ===== verification/Api.thy ===== *)
theory Api
  imports Queue_Theorems Logging
begin

text \<open>
  The HTTP interface (\<open>internal/api\<close>): the handlers of \<open>handlers/handlers.go\<close>; the middleware and
  the table of routes are in \<open>Api_Router\<close>. A handler takes a request and gives the response that it writes; the state is that of
  the queue's client. Routing itself is done by chi, which is not part of the program: a request comes
  with the parameters that chi found in its path.
\<close>

section \<open>Requests and responses\<close>

record http_request =
  req_Method :: string
  req_Path :: string
  req_Query :: "string \<Rightarrow> string"
  req_Header :: "string \<Rightarrow> string"
  URLParam :: "string \<Rightarrow> string"
  req_Body :: string
  req_Context :: context_values

record http_response =
  resp_status :: int
  resp_header :: gomap
  resp_body :: string

type_synonym 's http_handler = "http_request \<Rightarrow> ('s world, http_response) state"

abbreviation StatusOK :: int where "StatusOK \<equiv> 200"
abbreviation StatusCreated :: int where "StatusCreated \<equiv> 201"
abbreviation StatusNoContent :: int where "StatusNoContent \<equiv> 204"
abbreviation StatusBadRequest :: int where "StatusBadRequest \<equiv> 400"
abbreviation StatusNotFound :: int where "StatusNotFound \<equiv> 404"
abbreviation StatusConflict :: int where "StatusConflict \<equiv> 409"
abbreviation StatusTooManyRequests :: int where "StatusTooManyRequests \<equiv> 429"
abbreviation StatusInternalServerError :: int where "StatusInternalServerError \<equiv> 500"
abbreviation StatusServiceUnavailable :: int where "StatusServiceUnavailable \<equiv> 503"

text \<open>
  \<open>json.NewEncoder(w).Encode\<close> writes the document and a newline, or nothing when the value cannot be
  encoded; the handlers ignore that error.
\<close>

definition writeJSON :: "int \<Rightarrow> goerror + json \<Rightarrow> http_response" where
  "writeJSON status data =
    \<lparr>resp_status = status, resp_header = [(''Content-Type'', ''application/json'')],
     resp_body = (case data of Inl _ \<Rightarrow> [] | Inr v \<Rightarrow> json_text v @ [CHR 0x0A])\<rparr>"

text \<open>A \<open>map[string]interface{}\<close> is written in the order of its keys.\<close>

definition json_map :: "(string \<times> json) list \<Rightarrow> json" where
  "json_map kvs = JObj (map (\<lambda>(k, v). member k v) kvs)"

definition writeError :: "int \<Rightarrow> string \<Rightarrow> string \<Rightarrow> http_response" where
  "writeError status message details =
    writeJSON status (Inr (json_map [(''details'', encode_string details), (''error'', encode_string message)]))"

text \<open>A job, a list of values and a \<open>json.RawMessage\<close> inside a response.\<close>

definition encode_job :: "Job \<Rightarrow> goerror + json" where
  "encode_job j =
    (case first_error (map marshal_time [CreatedAt j, UpdatedAt j, ScheduledAt j]) of
       Some e \<Rightarrow> Inl e | None \<Rightarrow> Inr (JObj (job_members j)))"

definition encode_list :: "json list \<Rightarrow> json" where
  "encode_list vs = JArr (map (\<lambda>v. (json_text v, v)) vs)"

definition encode_raw :: "string \<Rightarrow> string option \<Rightarrow> goerror + (string \<times> string \<times> json)" where
  "encode_raw k raw =
    (case raw of
       None \<Rightarrow> Inr (member k JNull)
     | Some s \<Rightarrow>
        (case json_parse s of
           None \<Rightarrow> Inl (Wrapf ''json: error calling MarshalJSON for type json.RawMessage'' syntax_error)
         | Some v \<Rightarrow> Inr (json_quote k, compact_text False s, v)))"

text \<open>\<open>json.NewDecoder(r.Body).Decode\<close> reads the first document of the body and leaves the rest.\<close>

definition io_EOF :: goerror where "io_EOF = Sentinel ''EOF''"

definition decode_body :: "string list \<Rightarrow> (string \<Rightarrow> string \<Rightarrow> json \<Rightarrow> 'r \<Rightarrow> goerror + 'r) \<Rightarrow> 'r \<Rightarrow> string \<Rightarrow> goerror + 'r" where
  "decode_body names put r body =
    (if skip_ws body = [] then Inl io_EOF
     else case parse_value 10000 (skip_ws body) of
       None \<Rightarrow> Inl syntax_error
     | Some (v, _) \<Rightarrow> decode_struct names put r v)"

section \<open>Health and readiness\<close>

definition api_Health :: "'s http_handler" where
  "api_Health r = ret (writeJSON StatusOK
    (Inr (json_map [(''status'', encode_string ''healthy''), (''version'', encode_string ''1.0.0'')])))"

definition api_Ready :: "'s queue \<Rightarrow> 's http_handler" where
  "api_Ready q r = do {
     s \<leftarrow> GetStats q;
     case s of
       Inl _ \<Rightarrow> ret (writeJSON StatusServiceUnavailable
         (Inr (json_map [(''error'', encode_string ''queue unavailable''), (''status'', encode_string ''not ready'')])))
     | Inr _ \<Rightarrow> ret (writeJSON StatusOK (Inr (json_map [(''status'', encode_string ''ready'')])))
   }"

section \<open>Creating jobs\<close>

record CreateJobRequest =
  rq_Type :: string
  rq_Payload :: "string option"
  rq_Priority :: int
  rq_ScheduledAt :: string
  rq_MaxRetries :: int
  rq_Metadata :: "gomap option"
  rq_UniqueKey :: string

definition zero_CreateJobRequest :: CreateJobRequest where
  "zero_CreateJobRequest = \<lparr>rq_Type = [], rq_Payload = None, rq_Priority = 0, rq_ScheduledAt = [], rq_MaxRetries = 0,
     rq_Metadata = None, rq_UniqueKey = []\<rparr>"

definition request_field_names :: "string list" where
  "request_field_names = [''type'', ''payload'', ''priority'', ''scheduled_at'', ''max_retries'', ''metadata'', ''unique_key'']"

definition put_request_field :: "string \<Rightarrow> string \<Rightarrow> json \<Rightarrow> CreateJobRequest \<Rightarrow> goerror + CreateJobRequest" where
  "put_request_field f raw v r =
    (if f = ''type'' then map_sum id (\<lambda>x. r\<lparr>rq_Type := x\<rparr>) (decode_string (rq_Type r) v)
     else if f = ''payload'' then Inr (r\<lparr>rq_Payload := Some raw\<rparr>)
     else if f = ''priority'' then map_sum id (\<lambda>x. r\<lparr>rq_Priority := x\<rparr>) (decode_int (rq_Priority r) v)
     else if f = ''scheduled_at'' then map_sum id (\<lambda>x. r\<lparr>rq_ScheduledAt := x\<rparr>) (decode_string (rq_ScheduledAt r) v)
     else if f = ''max_retries'' then map_sum id (\<lambda>x. r\<lparr>rq_MaxRetries := x\<rparr>) (decode_int (rq_MaxRetries r) v)
     else if f = ''metadata'' then map_sum id (\<lambda>x. r\<lparr>rq_Metadata := x\<rparr>) (decode_map (rq_Metadata r) v)
     else if f = ''unique_key'' then map_sum id (\<lambda>x. r\<lparr>rq_UniqueKey := x\<rparr>) (decode_string (rq_UniqueKey r) v)
     else Inr r)"

definition read_CreateJobRequest :: "string \<Rightarrow> goerror + CreateJobRequest" where
  "read_CreateJobRequest body = decode_body request_field_names put_request_field zero_CreateJobRequest body"

record CreateJobResponse =
  rs_ID :: string
  rs_Type :: string
  rs_Status :: string
  rs_CreatedAt :: string

definition encode_CreateJobResponse :: "CreateJobResponse \<Rightarrow> json" where
  "encode_CreateJobResponse r = JObj [member ''id'' (encode_string (rs_ID r)), member ''type'' (encode_string (rs_Type r)),
     member ''status'' (encode_string (rs_Status r)), member ''created_at'' (encode_string (rs_CreatedAt r))]"

text \<open>The job of a request, with the settings that the request makes.\<close>

definition job_of_request :: "string \<Rightarrow> gotime \<Rightarrow> CreateJobRequest \<Rightarrow> Job" where
  "job_of_request uuid t req =
    (let j = NewJob uuid t (rq_Type req) (rq_Payload req);
         j = (if rq_Priority req > 0 then j\<lparr>Priority := rq_Priority req\<rparr> else j);
         j = (if rq_MaxRetries req > 0 then j\<lparr>MaxRetries := rq_MaxRetries req\<rparr> else j);
         j = (if rq_Metadata req \<noteq> None then j\<lparr>Metadata := rq_Metadata req\<rparr> else j);
         j = (if rq_UniqueKey req \<noteq> [] then j\<lparr>UniqueKey := rq_UniqueKey req\<rparr> else j)
     in j)"

definition response_of_job :: "Job \<Rightarrow> CreateJobResponse" where
  "response_of_job j = \<lparr>rs_ID = ID j, rs_Type = Type j, rs_Status = Status_String (Status j),
     rs_CreatedAt = format_RFC3339 (CreatedAt j)\<rparr>"

definition fresh_uuid :: "'s client \<Rightarrow> ('s world, string) state" where
  "fresh_uuid c = on_srv (uuid_New (cenv c))"

definition CreateJob :: "'s queue \<Rightarrow> 's http_handler" where
  "CreateJob q r =
    (case read_CreateJobRequest (req_Body r) of
       Inl err \<Rightarrow> ret (writeError StatusBadRequest ''invalid request body'' (error_text err))
     | Inr req \<Rightarrow>
        if rq_Type req = [] then ret (writeError StatusBadRequest ''validation error'' ''type is required'')
        else do {
          t \<leftarrow> now (qclient q);
          u \<leftarrow> fresh_uuid (qclient q);
          let j = job_of_request u t req;
          e \<leftarrow> Enqueue q j;
          case e of
            Inl err \<Rightarrow> ret (writeError StatusInternalServerError ''failed to enqueue job'' (error_text err))
          | Inr _ \<Rightarrow> ret (writeJSON StatusCreated (Inr (encode_CreateJobResponse (response_of_job j))))
        })"

text \<open>
  A slice is decoded element by element into the elements it already has; elements beyond its new length
  stay in its array and show up again if a later document makes it longer. An empty array and \<open>null\<close>
  give it a new array.
\<close>

record CreateJobBatchRequest =
  Jobs_array :: "CreateJobRequest list"
  Jobs_len :: nat

abbreviation Jobs :: "CreateJobBatchRequest \<Rightarrow> CreateJobRequest list" where
  "Jobs r \<equiv> take (Jobs_len r) (Jobs_array r)"

fun decode_requests :: "CreateJobRequest list \<Rightarrow> (string \<times> json) list \<Rightarrow> goerror + CreateJobRequest list" where
  "decode_requests old [] = Inr old"
| "decode_requests old ((_, v) # vs) =
    (case decode_struct request_field_names put_request_field (if old = [] then zero_CreateJobRequest else hd old) v of
       Inl e \<Rightarrow> Inl e
     | Inr r \<Rightarrow> map_sum id ((#) r) (decode_requests (drop 1 old) vs))"

definition put_batch_field :: "string \<Rightarrow> string \<Rightarrow> json \<Rightarrow> CreateJobBatchRequest \<Rightarrow> goerror + CreateJobBatchRequest" where
  "put_batch_field f raw v r =
    (case v of
       JNull \<Rightarrow> Inr \<lparr>Jobs_array = [], Jobs_len = 0\<rparr>
     | JArr [] \<Rightarrow> Inr \<lparr>Jobs_array = [], Jobs_len = 0\<rparr>
     | JArr vs \<Rightarrow> map_sum id (\<lambda>x. \<lparr>Jobs_array = x, Jobs_len = length vs\<rparr>) (decode_requests (Jobs_array r) vs)
     | _ \<Rightarrow> Inl type_error)"

definition read_CreateJobBatchRequest :: "string \<Rightarrow> goerror + CreateJobBatchRequest" where
  "read_CreateJobBatchRequest body = decode_body [''jobs''] put_batch_field \<lparr>Jobs_array = [], Jobs_len = 0\<rparr> body"

text \<open>The loop: requests without a type and jobs that cannot be enqueued are left out.\<close>

fun create_each :: "'s queue \<Rightarrow> CreateJobRequest list \<Rightarrow> ('s world, CreateJobResponse list) state" where
  "create_each q [] = ret []"
| "create_each q (req # reqs) =
    (if rq_Type req = [] then create_each q reqs
     else do {
       t \<leftarrow> now (qclient q);
       u \<leftarrow> fresh_uuid (qclient q);
       let j = job_of_request u t req;
       e \<leftarrow> Enqueue q j;
       case e of
         Inl err \<Rightarrow> create_each q reqs
       | Inr _ \<Rightarrow> do { rs \<leftarrow> create_each q reqs; ret (response_of_job j # rs) }
     })"

definition CreateJobBatch :: "'s queue \<Rightarrow> 's http_handler" where
  "CreateJobBatch q r =
    (case read_CreateJobBatchRequest (req_Body r) of
       Inl err \<Rightarrow> ret (writeError StatusBadRequest ''invalid request body'' (error_text err))
     | Inr req \<Rightarrow>
        if length (Jobs req) = 0 then ret (writeError StatusBadRequest ''validation error'' ''jobs array is required'')
        else do {
          responses \<leftarrow> create_each q (Jobs req);
          ret (writeJSON StatusCreated (Inr (json_map
            [(''created'', encode_int (int (length responses))),
             (''jobs'', encode_list (map encode_CreateJobResponse responses))])))
        })"

section \<open>Reading and deleting jobs\<close>

definition api_GetJob :: "'s queue \<Rightarrow> 's http_handler" where
  "api_GetJob q r =
    (let i = URLParam r ''id'' in
     if i = [] then ret (writeError StatusBadRequest ''validation error'' ''id is required'')
     else do {
       g \<leftarrow> GetJob q i;
       case g of
         Inl err \<Rightarrow> ret (writeError StatusNotFound ''job not found'' (error_text err))
       | Inr j \<Rightarrow> ret (writeJSON StatusOK (encode_job j))
     })"

definition api_DeleteJob :: "'s queue \<Rightarrow> 's http_handler" where
  "api_DeleteJob q r =
    (let i = URLParam r ''id'' in
     if i = [] then ret (writeError StatusBadRequest ''validation error'' ''id is required'')
     else do {
       g \<leftarrow> GetJob q i;
       case g of
         Inl err \<Rightarrow> ret (writeError StatusNotFound ''job not found'' (error_text err))
       | Inr j \<Rightarrow>
           if Status j \<noteq> StatusPending then ret (writeError StatusConflict ''cannot delete job'' ''job is not pending'')
           else do {
             d \<leftarrow> DeleteJob q i;
             case d of
               Inl err \<Rightarrow> ret (writeError StatusInternalServerError ''failed to delete job'' (error_text err))
             | Inr _ \<Rightarrow> ret \<lparr>resp_status = StatusNoContent, resp_header = [], resp_body = []\<rparr>
           }
     })"

definition GetJobResult :: "'s queue \<Rightarrow> 's http_handler" where
  "GetJobResult q r =
    (let i = URLParam r ''id'' in
     if i = [] then ret (writeError StatusBadRequest ''validation error'' ''id is required'')
     else do {
       g \<leftarrow> GetJob q i;
       case g of
         Inl err \<Rightarrow> ret (writeError StatusNotFound ''job not found'' (error_text err))
       | Inr j \<Rightarrow>
           if Status j \<noteq> StatusCompleted then ret (writeError StatusNotFound ''result not available'' ''job is not completed'')
           else ret (writeJSON StatusOK (map_sum id
             (\<lambda>res. JObj [member ''id'' (encode_string (ID j)), res, member ''status'' (encode_string (Status_String (Status j)))])
             (encode_raw ''result'' (Result j))))
     })"

section \<open>Statistics and dead letters\<close>

definition encode_Stats :: "Stats \<Rightarrow> json" where
  "encode_Stats s = JObj [member ''pending_high'' (encode_int (PendingHigh s)), member ''pending_normal'' (encode_int (PendingNormal s)),
     member ''pending_low'' (encode_int (PendingLow s)), member ''processing'' (encode_int (Processing s)),
     member ''dead'' (encode_int (Dead s))]"

definition GetQueueStats :: "'s queue \<Rightarrow> 's http_handler" where
  "GetQueueStats q r = do {
     s \<leftarrow> GetStats q;
     case s of
       Inl err \<Rightarrow> ret (writeError StatusInternalServerError ''failed to get stats'' (error_text err))
     | Inr stats \<Rightarrow> ret (writeJSON StatusOK (Inr (encode_Stats stats)))
   }"

text \<open>The page that a query asks for: an offset that is not a number and a limit out of range are ignored.\<close>

definition dlq_offset :: "http_request \<Rightarrow> int" where
  "dlq_offset r =
    (let s = req_Query r ''offset'' in
     if s \<noteq> [] then (case parse_int s of Some v \<Rightarrow> v | None \<Rightarrow> 0) else 0)"

definition dlq_limit :: "http_request \<Rightarrow> int" where
  "dlq_limit r =
    (let s = req_Query r ''limit'' in
     if s \<noteq> [] then (case parse_int s of Some v \<Rightarrow> if v > 0 \<and> v \<le> 100 then v else 20 | None \<Rightarrow> 20) else 20)"

definition api_ListDLQ :: "'s queue \<Rightarrow> 's http_handler" where
  "api_ListDLQ q r = do {
     let offset = dlq_offset r;
     let limit = dlq_limit r;
     e \<leftarrow> ListDLQ q offset limit;
     case e of
       Inl err \<Rightarrow> ret (writeError StatusInternalServerError ''failed to list DLQ'' (error_text err))
     | Inr jobs \<Rightarrow> ret (writeJSON StatusOK (map_sum id
         (\<lambda>js. json_map [(''count'', encode_int (int (length jobs))), (''jobs'', encode_list js),
           (''limit'', encode_int limit), (''offset'', encode_int offset)])
         (decode_each encode_job jobs)))
   }"

definition api_RetryDLQJob :: "'s queue \<Rightarrow> 's http_handler" where
  "api_RetryDLQJob q r =
    (let i = URLParam r ''id'' in
     if i = [] then ret (writeError StatusBadRequest ''validation error'' ''id is required'')
     else do {
       e \<leftarrow> RetryDLQJob q i;
       case e of
         Inl err \<Rightarrow> ret (writeError StatusInternalServerError ''failed to retry job'' (error_text err))
       | Inr _ \<Rightarrow> ret (writeJSON StatusOK (Inr (json_map [(''id'', encode_string i),
           (''message'', encode_string ''job has been re-queued''), (''status'', encode_string ''pending'')])))
     })"

end
