(* ===== verification/Ratelimit.thy ===== *)
theory Ratelimit
  imports Redis_Memory
begin

text \<open>
  Rate limiting (\<open>internal/ratelimit\<close>): the token bucket of one process (\<open>limiter.go\<close>), the sliding
  window kept in Redis by a script (\<open>redis_limiter.go\<close>) and their combination. The mutex makes every
  operation of the bucket one step.
\<close>

section \<open>The token bucket\<close>

record Limiter =
  tokens :: rat
  maxTokens :: rat
  refillRate :: rat
  lastRefill :: gotime

record limiter_Config =
  Rate :: rat
  Burst :: int

definition limiter_DefaultConfig :: limiter_Config where
  "limiter_DefaultConfig = \<lparr>Rate = 100, Burst = 50\<rparr>"

text \<open>\<open>t\<close> is the reading of the clock that an operation makes.\<close>

definition NewLimiter :: "gotime \<Rightarrow> limiter_Config \<Rightarrow> Limiter" where
  "NewLimiter t cfg = \<lparr>tokens = f_of_int (Burst cfg), maxTokens = f_of_int (Burst cfg), refillRate = Rate cfg,
     lastRefill = t\<rparr>"

definition refill :: "gotime \<Rightarrow> Limiter \<Rightarrow> Limiter" where
  "refill t l =
    (let elapsed = duration_Seconds (saturate64 (t_ns t - t_ns (lastRefill l)));
         l = l\<lparr>tokens := f_add (tokens l) (f_mul elapsed (refillRate l))\<rparr>;
         l = (if tokens l > maxTokens l then l\<lparr>tokens := maxTokens l\<rparr> else l)
     in l\<lparr>lastRefill := t\<rparr>)"

definition limiter_Allow :: "gotime \<Rightarrow> Limiter \<Rightarrow> bool \<times> Limiter" where
  "limiter_Allow t l =
    (let l = refill t l in
     if tokens l \<ge> 1 then (True, l\<lparr>tokens := f_sub (tokens l) 1\<rparr>) else (False, l))"

definition limiter_AllowN :: "gotime \<Rightarrow> int \<Rightarrow> Limiter \<Rightarrow> bool \<times> Limiter" where
  "limiter_AllowN t n l =
    (let l = refill t l in
     if tokens l \<ge> f_of_int n then (True, l\<lparr>tokens := f_sub (tokens l) (f_of_int n)\<rparr>) else (False, l))"

text \<open>
  The waiting loops, over the readings of the clock at successive rounds: \<open>None\<close> when the loop is
  still waiting after them.
\<close>

fun limiter_Wait :: "gotime list \<Rightarrow> Limiter \<Rightarrow> Limiter option" where
  "limiter_Wait [] l = None"
| "limiter_Wait (t # ts) l =
    (case limiter_Allow t l of (allowed, l) \<Rightarrow> if allowed then Some l else limiter_Wait ts l)"

fun limiter_WaitN :: "gotime list \<Rightarrow> int \<Rightarrow> Limiter \<Rightarrow> Limiter option" where
  "limiter_WaitN [] n l = None"
| "limiter_WaitN (t # ts) n l =
    (case limiter_AllowN t n l of (allowed, l) \<Rightarrow> if allowed then Some l else limiter_WaitN ts n l)"

text \<open>The wait is the deficit at the refill rate, for a rate that is not zero.\<close>

definition Reserve :: "gotime \<Rightarrow> Limiter \<Rightarrow> int \<times> Limiter" where
  "Reserve t l =
    (let l = refill t l in
     if tokens l \<ge> 1 then (0, l\<lparr>tokens := f_sub (tokens l) 1\<rparr>)
     else (f_trunc (f_mul (f_div (f_sub 1 (tokens l)) (refillRate l)) (f_of_int second)), l))"

definition limiter_Tokens :: "gotime \<Rightarrow> Limiter \<Rightarrow> rat \<times> Limiter" where
  "limiter_Tokens t l = (let l = refill t l in (tokens l, l))"

definition limiter_Reset :: "gotime \<Rightarrow> Limiter \<Rightarrow> Limiter" where
  "limiter_Reset t l = l\<lparr>tokens := maxTokens l, lastRefill := t\<rparr>"

section \<open>The sliding window in Redis\<close>

record 's RedisLimiter =
  rl_client :: "'s client"
  rl_keyPrefix :: string
  rl_rate :: rat
  rl_burst :: int
  rl_window :: int

record RedisConfig =
  rc_KeyPrefix :: string
  rc_Rate :: rat
  rc_Burst :: int
  rc_Window :: int

definition DefaultRedisConfig :: RedisConfig where
  "DefaultRedisConfig = \<lparr>rc_KeyPrefix = ''titan:ratelimit:'', rc_Rate = 100, rc_Burst = 50, rc_Window = second\<rparr>"

definition NewRedisLimiter :: "'s client \<Rightarrow> RedisConfig \<Rightarrow> 's RedisLimiter" where
  "NewRedisLimiter c cfg = \<lparr>rl_client = c, rl_keyPrefix = rc_KeyPrefix cfg, rl_rate = rc_Rate cfg,
     rl_burst = rc_Burst cfg, rl_window = rc_Window cfg\<rparr>"

definition redis_AllowN :: "'s RedisLimiter \<Rightarrow> string \<Rightarrow> int \<Rightarrow> ('s world, goerror + bool) state" where
  "redis_AllowN l key n = do {
     let fullKey = rl_keyPrefix l @ key;
     t \<leftarrow> now (rl_client l);
     let windowStart = time_UnixMilli (time_Add t (i64 (- rl_window l)));
     or_return (Eval (rl_client l) limiterScript [fullKey]
         [format_int (time_UnixMilli t), format_int windowStart, format_int (f_trunc (rl_rate l)), format_int n,
          format_int (go_div (rl_window l) millisecond)])
       (Wrapf ''redis limiter'') (\<lambda>result.
       case result of
         RInt allowed \<Rightarrow> ret (Inr (allowed = 1))
       | _ \<Rightarrow> ret (Inl (Errorf ''redis limiter: unexpected result type'')))
   }"

definition redis_Allow :: "'s RedisLimiter \<Rightarrow> string \<Rightarrow> ('s world, goerror + bool) state" where
  "redis_Allow l key = redis_AllowN l key 1"

text \<open>The loop of \<open>Wait\<close>: at each round the context is done, with its error, or not.\<close>

fun redis_Wait :: "'s RedisLimiter \<Rightarrow> string \<Rightarrow> goerror option list \<Rightarrow> ('s world, (goerror + unit) option) state" where
  "redis_Wait l key [] = ret None"
| "redis_Wait l key (d # ds) =
    (case d of
       Some err \<Rightarrow> ret (Some (Inl err))
     | None \<Rightarrow> do {
         r \<leftarrow> redis_Allow l key;
         case r of
           Inl err \<Rightarrow> ret (Some (Inl err))
         | Inr allowed \<Rightarrow> if allowed then ret (Some (Inr ())) else redis_Wait l key ds
       })"

definition GetCount :: "'s RedisLimiter \<Rightarrow> string \<Rightarrow> ('s world, goerror + int) state" where
  "GetCount l key = do {
     let fullKey = rl_keyPrefix l @ key;
     t \<leftarrow> now (rl_client l);
     let windowStart = time_UnixMilli (time_Add t (i64 (- rl_window l)));
     or_return (Eval (rl_client l) limiterCountScript [fullKey] [format_int windowStart])
       (Wrapf ''redis limiter get count'') (\<lambda>_.
     or_return (ZCard (rl_client l) fullKey) (Wrapf ''redis limiter get count'') (\<lambda>count.
     ret (Inr count)))
   }"

definition redis_Reset :: "'s RedisLimiter \<Rightarrow> string \<Rightarrow> ('s world, goerror + unit) state" where
  "redis_Reset l key = Del (rl_client l) [rl_keyPrefix l @ key]"

section \<open>Both limits\<close>

text \<open>The redis part is fixed; the local bucket is state.\<close>

record 's GlobalLimiter =
  gl_redis :: "'s RedisLimiter"
  gl_local :: Limiter

definition NewGlobalLimiter :: "gotime \<Rightarrow> 's client \<Rightarrow> limiter_Config \<Rightarrow> RedisConfig \<Rightarrow> 's GlobalLimiter" where
  "NewGlobalLimiter t c localCfg redisCfg =
    \<lparr>gl_redis = NewRedisLimiter c redisCfg, gl_local = NewLimiter t localCfg\<rparr>"

definition global_Allow :: "'s GlobalLimiter \<Rightarrow> string \<Rightarrow> ('s world, (goerror + bool) \<times> 's GlobalLimiter) state" where
  "global_Allow l key = do {
     t \<leftarrow> now (rl_client (gl_redis l));
     let (allowed, b) = limiter_Allow t (gl_local l);
     let l = l\<lparr>gl_local := b\<rparr>;
     if \<not> allowed then ret (Inr False, l)
     else do { r \<leftarrow> redis_Allow (gl_redis l) key; ret (r, l) }
   }"

section \<open>The bucket stays within its bounds\<close>

text \<open>The invariant of a bucket: between empty and full, with a value that \<open>float64\<close> holds.\<close>

definition limiter_inv :: "Limiter \<Rightarrow> bool" where
  "limiter_inv l \<longleftrightarrow> 0 \<le> tokens l \<and> tokens l \<le> maxTokens l \<and> 0 \<le> refillRate l \<and>
     f_round (tokens l) = tokens l \<and> f_round (maxTokens l) = maxTokens l"

lemma duration_Seconds_nonneg: "0 \<le> d \<Longrightarrow> 0 \<le> duration_Seconds d"
proof -
  assume d: "0 \<le> d"
  then have "go_div d second = d div second" by (simp add: go_div_nonneg)
  moreover have "0 \<le> d - d div second * second" by (simp add: minus_div_mult_eq_mod)
  ultimately show ?thesis using d
    by (auto simp: duration_Seconds_def Let_def f_ops intro!: f_round_nonneg add_nonneg_nonneg divide_nonneg_nonneg
        simp del: times_divide_eq_right)
qed

lemma refill_inv:
  assumes "limiter_inv l" "t_ns (lastRefill l) \<le> t_ns t"
  shows "limiter_inv (refill t l) \<and> tokens l \<le> tokens (refill t l) \<and> maxTokens (refill t l) = maxTokens l"
proof -
  let ?e = "duration_Seconds (saturate64 (t_ns t - t_ns (lastRefill l)))"
  have e: "0 \<le> f_mul ?e (refillRate l)"
    using assms by (simp add: f_mul_def limiter_inv_def duration_Seconds_nonneg saturate64_def f_round_nonneg)
  then have "tokens l \<le> f_add (tokens l) (f_mul ?e (refillRate l))"
    using f_round_mono [of "tokens l" "tokens l + f_mul ?e (refillRate l)"] assms(1)
    by (simp add: f_add_def limiter_inv_def)
  moreover have "f_round (f_add x y) = f_add x y" for x y by (simp add: f_add_def)
  ultimately show ?thesis using assms(1) by (auto simp: refill_def Let_def limiter_inv_def)
qed

lemma take_tokens_inv:
  assumes "limiter_inv l" "0 \<le> x" "x \<le> tokens l"
  shows "limiter_inv (l\<lparr>tokens := f_sub (tokens l) x\<rparr>)"
proof -
  have "f_round (tokens l - x) \<le> f_round (tokens l)" using assms by (intro f_round_mono) auto
  then show ?thesis using assms by (simp add: limiter_inv_def f_sub_def f_round_nonneg)
qed



text \<open>Waiting for more tokens than the bucket holds never ends, whatever the clock shows.\<close>

theorem WaitN_beyond_burst:
  assumes "limiter_inv l" "maxTokens l < f_of_int n" "sorted (map t_ns (lastRefill l # ts))"
  shows "limiter_WaitN ts n l = None"
  using assms
proof (induction ts arbitrary: l)
  case (Cons t ts)
  note r = refill_inv [OF Cons.prems(1), of t]
  have "tokens (refill t l) < f_of_int n" using r Cons.prems by (simp add: limiter_inv_def)
  moreover have "lastRefill (refill t l) = t" by (simp add: refill_def Let_def)
  ultimately show ?case
    using Cons.IH [of "refill t l"] r Cons.prems by (simp add: limiter_AllowN_def Let_def)
qed simp

theorem WaitN_beyond_burst_witness:
  "limiter_WaitN [Time 0 0, Time (3600 * second) 0] 51 (NewLimiter (Time 0 0) limiter_DefaultConfig) = None"
  by (rule WaitN_beyond_burst)
    (use f_round_of_int [of 50] f_round_of_int [of 51] in \<open>simp_all add: limiter_inv_def NewLimiter_def limiter_DefaultConfig_def f_of_int_def\<close>)

text \<open>Requests at one instant: how many of \<open>k\<close> are let through.\<close>

primrec allow_many :: "nat \<Rightarrow> gotime \<Rightarrow> Limiter \<Rightarrow> nat \<times> Limiter" where
  "allow_many 0 t l = (0, l)"
| "allow_many (Suc k) t l =
    (case limiter_Allow t l of (b, l) \<Rightarrow> case allow_many k t l of (n, l) \<Rightarrow> ((if b then Suc n else n), l))"

text \<open>A burst is bounded by the tokens in the bucket: of any number of requests at one instant exactly
  as many are let through as there are tokens, the first ones.\<close>

theorem burst_bounded:
  assumes "tokens l = of_nat b" "tokens l \<le> maxTokens l" "int b < 2 ^ 53" "lastRefill l = t"
  shows "fst (allow_many k t l) = min k b"
  using assms
proof (induction k arbitrary: l b)
  case (Suc k)
  have r: "f_round (rat_of_nat n) = rat_of_nat n" if "int n < 2 ^ 53" for n
    using f_round_of_int [of "int n"] that by simp
  have "duration_Seconds (saturate64 0) = 0"
    by (simp add: duration_Seconds_def saturate64_def go_div_def f_ops)
  then have "refill t l = l"
    using Suc.prems r [of b] by (simp add: refill_def Let_def f_add_def f_mul_def)
  then show ?case
  proof (cases b)
    case 0
    then show ?thesis using Suc.prems Suc.IH [of l 0] \<open>refill t l = l\<close>
      by (simp add: limiter_Allow_def Let_def split: prod.splits)
  next
    case (Suc d)
    have "f_sub (tokens l) 1 = of_nat d" using r [of d] Suc Suc.prems(1,3) by (simp add: f_sub_def)
    then show ?thesis
      using Suc.IH [of "l\<lparr>tokens := of_nat d\<rparr>" d] Suc.prems Suc \<open>refill t l = l\<close>
      by (simp add: limiter_Allow_def Let_def case_prod_unfold)
  qed
qed simp

theorem burst_bounded_witness:
  "fst (allow_many 80 (Time 0 0) (NewLimiter (Time 0 0) limiter_DefaultConfig)) = 50"
  using burst_bounded [of "NewLimiter (Time 0 0) limiter_DefaultConfig" 50 "Time 0 0" 80] f_round_of_int [of 50]
  by (simp add: NewLimiter_def limiter_DefaultConfig_def f_of_int_def)

section \<open>The script of the sliding window\<close>

text \<open>The entries that a key holds at an instant, and the entry of one request.\<close>

definition window_at :: "int \<Rightarrow> keyspace \<Rightarrow> string \<Rightarrow> (int \<times> string) list" where
  "window_at t D k = (case lookup t D k of Some (VZset zs, _) \<Rightarrow> zs | _ \<Rightarrow> [])"

definition is_window :: "int \<Rightarrow> keyspace \<Rightarrow> string \<Rightarrow> bool" where
  "is_window t D k \<longleftrightarrow> (case lookup t D k of None \<Rightarrow> True | Some (VZset zs, _) \<Rightarrow> True | _ \<Rightarrow> False)"

definition request_entry :: "string \<Rightarrow> int \<Rightarrow> string" where
  "request_entry rnd ts = format_int ts @ '':1:'' @ rnd"

lemma with_zset_window:
  assumes "is_window t D k"
  obtains e where "\<And>f. with_zset t D k f = f (window_at t D k) e" "e = None \<or> (\<exists>x > t. e = Some x)"
  using assms
  by (auto simp: is_window_def window_at_def with_zset_def lookup_def split: option.splits rval.splits if_splits)

text \<open>The steps of the script: what is outside the window is dropped, an entry is added and the key gets its time to live.\<close>

lemma window_trim:
  assumes "is_window t D k" "int64_range ws" and ys: "ys = filter (\<lambda>p. ws < fst p) (window_at t D k)"
  obtains n e D' where "exec_basic rnd t (ZREMRANGEBYSCORE k ''-inf'' (format_int ws)) D = (Inr (RInt n), D')"
    "lookup t D' k = (if ys = [] then None else Some (VZset ys, e))" "e = None \<or> (\<exists>x > t. e = Some x)"
proof -
  obtain e where e: "\<And>f. with_zset t D k f = f (window_at t D k) e" "e = None \<or> (\<exists>x > t. e = Some x)"
    using with_zset_window [OF assms(1)] by metis
  have p: "parse_int (format_int ws) = Some ws" using assms(2) by (simp add: parse_format_int)
  then have "format_int ws \<noteq> ''-inf''" "format_int ws \<noteq> ''+inf''"
    by (auto simp: parse_int_def parse_nat_def char_digit_def)
  then have b: "score_bound ''-inf'' = Some None" "score_bound (format_int ws) = Some (Some ws)"
    using p by (simp_all add: score_bound_def)
  have "filter (\<lambda>p. p \<notin> set (zrange None (Some ws) zs)) zs = filter (\<lambda>p. ws < fst p) zs" for zs
    by (rule filter_cong) (auto simp: zrange_def)
  then have "exec_basic rnd t (ZREMRANGEBYSCORE k ''-inf'' (format_int ws)) D =
      (Inr (RInt (int (length (window_at t D k)) - int (length ys))), put_zset k ys e D)"
    by (simp add: b e(1) ys Let_def)
  moreover have "lookup t (put_zset k ys e D) k = (if ys = [] then None else Some (VZset ys, e))"
    using e(2) by (auto simp: lookup_def put_zset_def)
  ultimately show thesis using that e(2) by blast
qed

lemma window_add:
  assumes l: "lookup t D k = (if ys = [] then None else Some (VZset ys, e))" and e: "e = None \<or> (\<exists>x > t. e = Some x)"
    and r: "int64_range ts" "int64_range dur" "0 < dur"
    and E: "E = put_zset k (zadd ts (request_entry rnd ts) ys) (if ys = [] then None else e) D"
  shows "run_state (zadd_each (\<lambda>cmd. State (exec_basic rnd t cmd)) k ts (Suc 0) (Suc 0)) D = (Inr (), E)"
    and "exec_basic rnd t (PEXPIRE k (format_int dur)) E =
      (Inr (RInt 1), E(k \<mapsto> (VZset (zadd ts (request_entry rnd ts) ys), Some (t + dur))))"
proof -
  have p: "parse_int (format_int ts) = Some ts" "parse_int (format_int dur) = Some dur"
    using r by (simp_all add: parse_format_int)
  have w: "with_zset t D k f = f ys (if ys = [] then None else e)" for f using l by (simp add: with_zset_def)
  let ?zs = "zadd ts (request_entry rnd ts) ys"
  have "lookup t E k = Some (VZset ?zs, if ys = [] then None else e)"
    using e by (auto simp: lookup_def put_zset_def E zadd_def)
  then show "exec_basic rnd t (PEXPIRE k (format_int dur)) E = (Inr (RInt 1), E(k \<mapsto> (VZset ?zs, Some (t + dur))))"
    using r(3) by (simp add: p(2))
  have "exec_basic rnd t (ZADD_ARG k (format_int ts) (request_entry rnd ts)) D =
      (Inr (RInt (int (length ?zs) - int (length ys))), E)"
    by (simp add: p(1) w Let_def E)
  moreover have "exec_basic rnd t RANDOM D = (Inr (RBulk rnd), D)" by simp
  moreover have "format_nat (Suc 0) = ''1''" by code_simp
  ultimately show "run_state (zadd_each (\<lambda>cmd. State (exec_basic rnd t cmd)) k ts (Suc 0) (Suc 0)) D = (Inr (), E)"
    by (simp add: run_simps request_entry_def del: exec_basic.simps split del: if_split)
qed

lemma limiter_script:
  assumes "is_window t D k" "int64_range ts" "int64_range ws" "int64_range bound" "int64_range dur" "0 < dur"
  defines "ys \<equiv> filter (\<lambda>p. ws < fst p) (window_at t D k)"
  shows "\<exists>D'. run_state (limiter_lua (\<lambda>cmd. State (exec_basic rnd t cmd)) [k]
      [format_int ts, format_int ws, format_int bound, format_int 1, format_int dur]) D =
        (Inr (RInt (if int (length ys) + 1 > bound then 0 else 1)), D') \<and>
      (if int (length ys) + 1 > bound then window_at t D' k = ys \<and> is_window t D' k
       else D' k = Some (VZset (zadd ts (request_entry rnd ts) ys), Some (t + dur)))"
proof -
  have p: "parse_int (format_int ts) = Some ts" "parse_int (format_int ws) = Some ws" "parse_int (format_int bound) = Some bound"
    "parse_int (format_int dur) = Some dur" "parse_int (format_int 1) = Some 1"
    using assms(2-5) by (simp_all add: parse_format_int int64_range_def)
  obtain n e D1 where z: "exec_basic rnd t (ZREMRANGEBYSCORE k ''-inf'' (format_int ws)) D = (Inr (RInt n), D1)"
    and l: "lookup t D1 k = (if ys = [] then None else Some (VZset ys, e))" and e: "e = None \<or> (\<exists>x > t. e = Some x)"
    by (rule window_trim [OF assms(1,3) ys_def [THEN meta_eq_to_obj_eq]])
  have c: "exec_basic rnd t (ZCARD k) D1 = (Inr (RInt (int (length ys))), D1)" using l by (simp add: with_zset_def)
  show ?thesis
  proof (cases "int (length ys) + 1 > bound")
    case True
    then have "run_state (limiter_lua (\<lambda>cmd. State (exec_basic rnd t cmd)) [k]
        [format_int ts, format_int ws, format_int bound, format_int 1, format_int dur]) D = (Inr (RInt 0), D1)"
      using c z by (simp add: limiter_lua_def p run_simps del: exec_basic.simps)
    moreover have "window_at t D1 k = ys" "is_window t D1 k" by (simp_all add: window_at_def is_window_def l)
    ultimately show ?thesis using True by auto
  next
    case False
    then show ?thesis using c z window_add [OF l e assms(2,5,6) refl, of rnd]
      by (simp add: limiter_lua_def p run_simps del: exec_basic.simps zadd_each.simps split del: if_split)
  qed
qed

lemma time_UnixMilli_Add_range:
  assumes "time_wf (time_UTC t)" "int64_range d"
  shows "int64_range (time_UnixMilli (time_Add t d))"
proof -
  have "- 74784902400 \<le> t_ns t div second" "t_ns t div second < 253407571200"
    using time_Unix_bounds [OF assms(1)] by (simp_all add: time_Unix_def time_UTC_def)
  then have "- 74784902400000000000 \<le> t_ns t" "t_ns t < 253407571200000000000" by linarith+
  moreover have "- 9223372036854775808 \<le> d" "d < 9223372036854775808" using assms(2) by (simp_all add: int64_range_def)
  ultimately have "- 9223372036854775808 \<le> (t_ns t + d) div millisecond" "(t_ns t + d) div millisecond < 9223372036854775808"
    by linarith+
  then show ?thesis by (simp add: int64_range_def time_UnixMilli_def time_Add_def)
qed

text \<open>A key that is free for a window whatever the instant, and a limiter whose numbers are machine integers.\<close>

definition window_key :: "keyspace \<Rightarrow> string \<Rightarrow> bool" where
  "window_key D k \<longleftrightarrow> (case D k of None \<Rightarrow> True | Some (VZset zs, _) \<Rightarrow> True | _ \<Rightarrow> False)"

lemma window_key_is_window: "window_key D k \<Longrightarrow> is_window t D k"
  by (auto simp: window_key_def is_window_def lookup_def split: option.splits rval.splits)

definition redis_limiter_wf :: "'s RedisLimiter \<Rightarrow> bool" where
  "redis_limiter_wf l \<longleftrightarrow> int64_range (f_trunc (rl_rate l)) \<and> int64_range (rl_window l) \<and> millisecond \<le> rl_window l"

definition window_start :: "'s RedisLimiter \<Rightarrow> 's world \<Rightarrow> int" where
  "window_start l w = time_UnixMilli (time_Add (clock_of (rl_client l) w) (i64 (- rl_window l)))"

definition in_window :: "'s RedisLimiter \<Rightarrow> 's world \<Rightarrow> int \<Rightarrow> keyspace \<Rightarrow> string \<Rightarrow> (int \<times> string) list" where
  "in_window l w t D k = filter (\<lambda>p. window_start l w < fst p) (window_at t D k)"

context redis_server begin

lemma redis_Allow_run:
  fixes key
  assumes w: "ready up w" and l: "rl_client l = c" "redis_limiter_wf l" and k: "window_key (db view w) (rl_keyPrefix l @ key)"
    and r: "run_state (redis_Allow l key) w = (r, w')"
  defines "ts \<equiv> time_UnixMilli (clock_of c w)"
    and "ys \<equiv> in_window l w (stime (srv w')) (db view w) (rl_keyPrefix l @ key)"
  shows "r = Inr (int (length ys) + 1 \<le> f_trunc (rl_rate l)) \<and> ready up w' \<and>
    (if int (length ys) + 1 \<le> f_trunc (rl_rate l)
     then db view w' (rl_keyPrefix l @ key) =
       Some (VZset (zadd ts (request_entry rnd ts) ys), Some (stime (srv w') + go_div (rl_window l) millisecond))
     else window_at (stime (srv w')) (db view w') (rl_keyPrefix l @ key) = ys)"
proof -
  let ?k = "rl_keyPrefix l @ key"
  let ?args = "[format_int ts, format_int (window_start l w), format_int (f_trunc (rl_rate l)), format_int 1,
    format_int (go_div (rl_window l) millisecond)]"
  let ?cmd = "EVAL limiterScript [?k] ?args"
  let ?v = "ticked c w"
  let ?t = "stime (after c ?cmd (srv ?v))"
  have "int64_range 0" by (simp add: int64_range_def)
  then have ranges: "int64_range ts" "int64_range (window_start l w)"
    using time_UnixMilli_Add_range [OF clock_laws(3) [of w], of 0]
      time_UnixMilli_Add_range [OF clock_laws(3) [of w] i64_range [of "- rl_window l"]] l(1)
    by (simp_all add: ts_def window_start_def time_Add_def)
  have d: "go_div (rl_window l) millisecond = rl_window l div millisecond" "0 < rl_window l div millisecond"
    using l(2) pos_imp_zdiv_pos_iff [of millisecond "rl_window l"] by (simp_all add: redis_limiter_wf_def go_div_nonneg)
  moreover have "int64_range (rl_window l div millisecond)"
    using l(2) d(2) unfolding redis_limiter_wf_def int64_range_def by linarith
  ultimately have dur: "int64_range (go_div (rl_window l) millisecond)" "0 < go_div (rl_window l) millisecond"
    by simp_all
  have rate: "int64_range (f_trunc (rl_rate l))" using l(2) by (simp add: redis_limiter_wf_def)
  obtain D' where D': "in_script ?t limiterScript [?k] ?args (db view ?v) =
      (Inr (RInt (if int (length (in_window l w ?t (db view w) ?k)) + 1 > f_trunc (rl_rate l) then 0 else 1)), D')"
    and post: "if int (length (in_window l w ?t (db view w) ?k)) + 1 > f_trunc (rl_rate l)
      then window_at ?t D' ?k = in_window l w ?t (db view w) ?k \<and> is_window ?t D' ?k
      else D' ?k = Some (VZset (zadd ts (request_entry rnd ts) (in_window l w ?t (db view w) ?k)),
        Some (?t + go_div (rl_window l) millisecond))"
    using limiter_script [OF window_key_is_window [OF k, of ?t] ranges rate dur, of rnd]
    unfolding in_window_def by auto
  have e: "exec sha rnd ?t ?cmd (view (srv ?v)) =
      (Inr (RInt (if int (length (in_window l w ?t (db view w) ?k)) + 1 > f_trunc (rl_rate l) then 0 else 1)),
       (view (srv ?v))\<lparr>keyspace := D'\<rparr>)"
    using D' by (simp add: exec_def run_lua_def db_def)
  have "run_state (Eval c limiterScript [?k] ?args) ?v =
      (Inr (RInt (if int (length (in_window l w ?t (db view w) ?k)) + 1 > f_trunc (rl_rate l) then 0 else 1)),
       sent c ?cmd ?v)"
    unfolding Eval_def using w by (subst run_call_ready) (simp_all add: e)
  then have "run_state (redis_Allow l key) w =
      (Inr (int (length (in_window l w ?t (db view w) ?k)) + 1 \<le> f_trunc (rl_rate l)), sent c ?cmd ?v)"
    using l(1) by (simp add: redis_Allow_def redis_AllowN_def run_simps ts_def [symmetric] window_start_def [symmetric])
      (simp add: window_start_def l(1))
  then have rw: "r = Inr (int (length (in_window l w ?t (db view w) ?k)) + 1 \<le> f_trunc (rl_rate l))"
    "w' = sent c ?cmd ?v" using r by simp_all
  moreover have "db view (sent c ?cmd ?v) = D'"
    using after_laws(4) [of "srv ?v" ?cmd] e w ready_ticked [OF w] by (simp add: sent_def db_def ready_def)
  moreover have "stime (srv (sent c ?cmd ?v)) = ?t" by (simp add: sent_def)
  ultimately show ?thesis using post w by (auto simp: ys_def)
qed

text \<open>The script of \<open>GetCount\<close> returns nothing, which go-redis reports as an error.\<close>

lemma GetCount_fails:
  assumes "ready up w" "rl_client l = c"
  shows "\<exists>err. fst (run_state (GetCount l key) w) = Inl err"
proof -
  have "\<exists>e. goredis (fst (exec sha rnd t (EVAL limiterCountScript [k] [ws]) s)) = Inl e" for t k ws s
    by (cases "exec_basic rnd t (ZREMRANGEBYSCORE k ''-inf'' ws) (keyspace s)"; cases "fst (exec_basic rnd t (ZREMRANGEBYSCORE k ''-inf'' ws) (keyspace s))")
      (simp_all add: exec_def run_lua_def limiterCount_lua_def run_simps del: exec_basic.simps)
  then have "\<exists>e w'. run_state (Eval c limiterCountScript [k] [ws]) (ticked c w) = (Inl e, w')" for k ws
    unfolding Eval_def using assms(1) by (subst run_call_ready) (auto split: sum.split, metis Inr_not_Inl)
  then obtain e w' where "run_state (Eval c limiterCountScript [rl_keyPrefix l @ key] [format_int (window_start l w)])
      (ticked c w) = (Inl e, w')" by blast
  then show ?thesis using assms(2) by (simp add: GetCount_def run_simps window_start_def Let_def)
qed

end


definition mem_limiter :: "memory RedisLimiter" where
  "mem_limiter = NewRedisLimiter mem_client DefaultRedisConfig"

lemma mem_limiter_wf: "redis_limiter_wf mem_limiter" "rl_client mem_limiter = mem_client"
  by (simp_all add: redis_limiter_wf_def mem_limiter_def NewRedisLimiter_def DefaultRedisConfig_def f_trunc_def int64_range_def)


section \<open>Requests within one millisecond\<close>

text \<open>
  Redis seeds the generator behind \<open>math.random()\<close> anew for every script, so the first number of a
  script is always the same: two requests of one millisecond have the same entry.
\<close>

primrec redis_Allow_times :: "nat \<Rightarrow> 's RedisLimiter \<Rightarrow> string \<Rightarrow> ('s world, (goerror + bool) list) state" where
  "redis_Allow_times 0 l key = ret []"
| "redis_Allow_times (Suc n) l key = do { r \<leftarrow> redis_Allow l key; rs \<leftarrow> redis_Allow_times n l key; ret (r # rs) }"

definition one_entry :: "string \<Rightarrow> int \<Rightarrow> keyspace \<Rightarrow> string \<Rightarrow> bool" where
  "one_entry rnd ts D k \<longleftrightarrow> D k = None \<or> (\<exists>e. D k = Some (VZset [(ts, request_entry rnd ts)], e))"

context redis_server begin

lemma one_entry_kept:
  assumes "ready up w" "rl_client l = c" "redis_limiter_wf l" "2 \<le> f_trunc (rl_rate l)"
    and k: "one_entry rnd ts (db view w) (rl_keyPrefix l @ key)" and ts: "time_UnixMilli (clock_of c w) = ts"
    and r: "run_state (redis_Allow l key) w = (r, w')"
  shows "r = Inr True \<and> ready up w' \<and> one_entry rnd ts (db view w') (rl_keyPrefix l @ key)"
proof -
  let ?ys = "in_window l w (stime (srv w')) (db view w) (rl_keyPrefix l @ key)"
  have "window_key (db view w) (rl_keyPrefix l @ key)" using k by (auto simp: one_entry_def window_key_def)
  note run = redis_Allow_run [OF assms(1-3) this r]
  have "?ys = [] \<or> ?ys = [(ts, request_entry rnd ts)]"
    using k by (auto simp: one_entry_def in_window_def window_at_def lookup_def split: option.splits)
  then have "int (length ?ys) + 1 \<le> f_trunc (rl_rate l)" "zadd ts (request_entry rnd ts) ?ys = [(ts, request_entry rnd ts)]"
    using assms(4) by (auto simp: zadd_def)
  then show ?thesis using run ts by (simp add: one_entry_def)
qed

lemma redis_Allow_times_all:
  assumes "ready up w" "rl_client l = c" "redis_limiter_wf l" "2 \<le> f_trunc (rl_rate l)"
    and "one_entry rnd ts (db view w) (rl_keyPrefix l @ key)" "\<And>w. time_UnixMilli (clock_of c w) = ts"
  shows "fst (run_state (redis_Allow_times n l key) w) = replicate n (Inr True)"
  using assms(1,5)
proof (induction n arbitrary: w)
  case (Suc n)
  obtain r w' where r: "run_state (redis_Allow l key) w = (r, w')" by (rule prod.exhaust)
  note k = one_entry_kept [OF Suc.prems(1) assms(2-4) Suc.prems(2) assms(6) r]
  then show ?case using Suc.IH [of w'] r by (simp add: run_simps case_prod_unfold)
qed (simp add: run_simps)

end


text \<open>A client whose clock does not advance.\<close>

definition frozen_client :: "memory client" where
  "frozen_client = \<lparr>cenv = mem_env\<lparr>time_Now := ret (Time (1700000000000 * millisecond) 0)\<rparr>, copts = redis_DefaultOptions\<rparr>"

interpretation frozen: redis_server frozen_client mem ms alive sha_text "''0.5''"
proof
  have "time_wf (Time (1700000000000 * millisecond) 0)"
    using time_wf_clamp [of 1700000000000] by (simp add: clamp_ms_def)
  then show "(alive s \<longrightarrow> alive s') \<and> ms s \<le> ms s' \<and> mem s' = mem s \<and> time_wf (time_UTC t)"
    if "run_state (time_Now (cenv frozen_client)) s = (t, s')" for s t s'
    using that by (auto simp: frozen_client_def time_UTC_def run_simps)
qed (use memory.sha_inj in \<open>auto simp: frozen_client_def mem_env_def uuid_shape_nth uuid_shape_no_lock nth_uuid_text run_simps
    split: if_splits prod.splits\<close>)


end
