(* ===== verification/Api_Router.thy ===== *)
theory Api_Router
  imports Api Ratelimit
begin

text \<open>
  The middleware (\<open>internal/api/middleware\<close>) and the router (\<open>internal/api/router.go\<close>). What a request
  can change is the state of the queue's client, the token bucket of the limiter and the log.
\<close>

section \<open>State\<close>

record tokenBucket =
  tb_tokens :: rat
  tb_maxTokens :: rat
  tb_refillRate :: rat
  tb_lastRefill :: gotime

record 's api_state =
  api_world :: "'s world"
  api_bucket :: tokenBucket
  api_log :: "log_line list"

type_synonym 's api_handler = "http_request \<Rightarrow> ('s api_state, http_response) state"

definition on_api :: "('s world, 'a) state \<Rightarrow> ('s api_state, 'a) state" where
  "on_api m = State (\<lambda>s. case run_state m (api_world s) of (a, w) \<Rightarrow> (a, s\<lparr>api_world := w\<rparr>))"

lemma run_on_api [run_simps]:
  "run_state (on_api m) s = (case run_state m (api_world s) of (a, w) \<Rightarrow> (a, s\<lparr>api_world := w\<rparr>))"
  by (simp add: on_api_def)

section \<open>Rate limit\<close>

definition newTokenBucket :: "gotime \<Rightarrow> int \<Rightarrow> tokenBucket" where
  "newTokenBucket t requestsPerSecond =
    \<lparr>tb_tokens = f_of_int requestsPerSecond, tb_maxTokens = f_of_int requestsPerSecond,
     tb_refillRate = f_of_int requestsPerSecond, tb_lastRefill = t\<rparr>"

definition bucket_Allow :: "gotime \<Rightarrow> tokenBucket \<Rightarrow> bool \<times> tokenBucket" where
  "bucket_Allow t tb =
    (let elapsed = duration_Seconds (saturate64 (t_ns t - t_ns (tb_lastRefill tb)));
         tb = tb\<lparr>tb_tokens := f_add (tb_tokens tb) (f_mul elapsed (tb_refillRate tb))\<rparr>;
         tb = (if tb_tokens tb > tb_maxTokens tb then tb\<lparr>tb_tokens := tb_maxTokens tb\<rparr> else tb);
         tb = tb\<lparr>tb_lastRefill := t\<rparr>
     in if tb_tokens tb \<ge> 1 then (True, tb\<lparr>tb_tokens := f_sub (tb_tokens tb) 1\<rparr>) else (False, tb))"

text \<open>\<open>http.Error\<close>: plain text and a newline.\<close>

definition http_Error :: "string \<Rightarrow> int \<Rightarrow> http_response" where
  "http_Error msg status =
    \<lparr>resp_status = status,
     resp_header = [(''Content-Type'', ''text/plain; charset=utf-8''), (''X-Content-Type-Options'', ''nosniff'')],
     resp_body = msg @ [CHR 0x0A]\<rparr>"

definition quoted :: "string \<Rightarrow> string" where
  "quoted s = CHR 0x22 # s @ [CHR 0x22]"

definition rate_limit_text :: string where
  "rate_limit_text = ''{'' @ quoted ''error'' @ '': '' @ quoted ''rate limit exceeded'' @ ''}''"

definition RateLimit :: "int \<Rightarrow> 's client \<Rightarrow> 's api_handler \<Rightarrow> 's api_handler" where
  "RateLimit requestsPerSecond c next r =
    (if requestsPerSecond \<le> 0 then next r
     else do {
       t \<leftarrow> on_api (now c);
       s \<leftarrow> read_state;
       let (allowed, tb) = bucket_Allow t (api_bucket s);
       modify_state (\<lambda>s. s\<lparr>api_bucket := tb\<rparr>);
       if \<not> allowed then ret (http_Error rate_limit_text StatusTooManyRequests)
       else next r
     })"

section \<open>Request identifiers and the request log\<close>

definition RequestIDHeader :: string where "RequestIDHeader = ''X-Request-ID''"

text \<open>Headers are stored under their canonical name: letters in lower case but the first of every word.\<close>

fun canonical_key :: "bool \<Rightarrow> string \<Rightarrow> string" where
  "canonical_key up [] = []"
| "canonical_key up (c # s) =
    (if up \<and> 97 \<le> code c \<and> code c \<le> 122 then char_of (code c - 32)
     else if \<not> up \<and> 65 \<le> code c \<and> code c \<le> 90 then char_of (code c + 32) else c) # canonical_key (c = CHR ''-'') s"

definition RequestID :: "'s client \<Rightarrow> 's api_handler \<Rightarrow> 's api_handler" where
  "RequestID c next r = do {
     let requestID = req_Header r (canonical_key True RequestIDHeader);
     requestID \<leftarrow> (if requestID = [] then on_api (fresh_uuid c) else ret requestID);
     resp \<leftarrow> next (r\<lparr>req_Context := WithRequestID (req_Context r) requestID\<rparr>);
     ret (resp\<lparr>resp_header := gomap_update (canonical_key True RequestIDHeader) requestID (resp_header resp)\<rparr>)
   }"

text \<open>The wrapped writer remembers the status that the handler sets, which is that of the response.\<close>

definition middleware_Logger :: "logger \<Rightarrow> logger option \<Rightarrow> 's client \<Rightarrow> 's api_handler \<Rightarrow> 's api_handler" where
  "middleware_Logger dflt l c next r = do {
     let l = (case l of None \<Rightarrow> dflt | Some l \<Rightarrow> l);
     start \<leftarrow> on_api (now c);
     let requestID = GetRequestID (req_Context r);
     resp \<leftarrow> next r;
     stop \<leftarrow> on_api (now c);
     let duration = f_mul (duration_Seconds (saturate64 (t_ns stop - t_ns start))) 1000;
     modify_state (\<lambda>s. s\<lparr>api_log := api_log s @
       (case LogRequest l (req_Method r) (req_Path r) (resp_status resp) duration requestID of None \<Rightarrow> [] | Some x \<Rightarrow> [x])\<rparr>);
     ret resp
   }"

section \<open>The routes\<close>

record 's RouterConfig =
  rt_Queue :: "'s queue"
  rt_Logger :: logger
  RateLimitRate :: int

definition api_routes :: "'s RouterConfig \<Rightarrow> (string \<times> string \<times> 's http_handler) list" where
  "api_routes cfg =
    (let q = rt_Queue cfg in
     [(''GET'', ''/health'', api_Health),
      (''GET'', ''/ready'', api_Ready q),
      (''POST'', ''/api/v1/jobs/'', CreateJob q),
      (''POST'', ''/api/v1/jobs/batch'', CreateJobBatch q),
      (''GET'', ''/api/v1/jobs/{id}'', api_GetJob q),
      (''DELETE'', ''/api/v1/jobs/{id}'', api_DeleteJob q),
      (''GET'', ''/api/v1/jobs/{id}/result'', GetJobResult q),
      (''GET'', ''/api/v1/queues/stats'', GetQueueStats q),
      (''GET'', ''/api/v1/dlq/'', api_ListDLQ q),
      (''POST'', ''/api/v1/dlq/{id}/retry'', api_RetryDLQJob q)])"

text \<open>
  chi as a parameter: from the methods and patterns of a table and a request it gives the position of
  the route with the parameters of its path, or the response to a request that no route takes.
\<close>

type_synonym chi_mux = "(string \<times> string) list \<Rightarrow> http_request \<Rightarrow> http_response + nat \<times> (string \<Rightarrow> string)"

definition route_to :: "chi_mux \<Rightarrow> (string \<times> string \<times> 's http_handler) list \<Rightarrow> 's api_handler" where
  "route_to chi routes r =
    (case chi (map (\<lambda>(m, p, h). (m, p)) routes) r of
       Inl resp \<Rightarrow> ret resp
     | Inr (i, params) \<Rightarrow> on_api (snd (snd (routes ! i)) (r\<lparr>URLParam := params\<rparr>)))"

text \<open>
  The stack: \<open>RealIP\<close> of chi only rewrites the remote address, which no handler reads, and \<open>Recoverer\<close>
  acts on panics, which the handlers never raise.
\<close>

definition NewRouter :: "chi_mux \<Rightarrow> logger \<Rightarrow> 's RouterConfig \<Rightarrow> 's api_handler" where
  "NewRouter chi dflt cfg =
    (let c = qclient (rt_Queue cfg) in
     RequestID c (middleware_Logger dflt (Some (rt_Logger cfg)) c
       (RateLimit (RateLimitRate cfg) c (route_to chi (api_routes cfg)))))"

section \<open>The limiter of the API is the token bucket\<close>

text \<open>The bucket as a limiter of \<open>internal/ratelimit\<close>.\<close>

definition limiter_of_bucket :: "tokenBucket \<Rightarrow> Limiter" where
  "limiter_of_bucket tb = \<lparr>tokens = tb_tokens tb, maxTokens = tb_maxTokens tb, refillRate = tb_refillRate tb,
     lastRefill = tb_lastRefill tb\<rparr>"

text \<open>The limiter of the API behaves as the token bucket of \<open>internal/ratelimit\<close> with the rate as its
  burst: they start alike and every request is decided alike and leaves corresponding states.\<close>

theorem bucket_is_limiter:
  shows "limiter_of_bucket (newTokenBucket t n) = NewLimiter t \<lparr>Rate = f_of_int n, Burst = n\<rparr> \<and>
    map_prod id limiter_of_bucket (bucket_Allow u tb) = limiter_Allow u (limiter_of_bucket tb)"
  by (simp add: limiter_of_bucket_def newTokenBucket_def NewLimiter_def bucket_Allow_def limiter_Allow_def refill_def Let_def)

end
