(* ===== verification/Job_Wf.thy ===== *)
theory Job_Wf
  imports Job
begin

text \<open>
  What the decoders of the program let through: whatever text is read, the value that comes out is one of its Go type, with
  integers of 64 bits, text in UTF-8, sorted maps and instants of the years 0 to 9999, so that it can be written again.
\<close>

section \<open>Strings, integers and maps\<close>

lemma decode_string_valid: "decode_string cur v = Inr s \<Longrightarrow> valid_utf8 cur \<Longrightarrow> valid_utf8 s"
  by (auto simp: decode_string_def json_unquote_valid split: json.splits option.splits)

lemma decode_int_range: "decode_int cur v = Inr n \<Longrightarrow> int64_range cur \<Longrightarrow> int64_range n"
  by (auto simp: decode_int_def parse_int_def in_int64_def split: json.splits option.splits list.splits if_splits)

lemma gomap_update_valid:
  "list_all (\<lambda>(k, v). P k \<and> P v) m \<Longrightarrow> P k \<Longrightarrow> P v \<Longrightarrow> list_all (\<lambda>(k, v). P k \<and> P v) (gomap_update k v m)"
  by (induction k v m rule: gomap_update.induct) auto

lemma decode_entries_wf:
  "decode_entries m es = Inr m' \<Longrightarrow> gomap_wf m \<Longrightarrow> list_all (\<lambda>(k, v). valid_utf8 k \<and> valid_utf8 v) m \<Longrightarrow>
     gomap_wf m' \<and> list_all (\<lambda>(k, v). valid_utf8 k \<and> valid_utf8 v) m'"
proof (induction m es rule: decode_entries.induct)
  case (2 m k r v es)
  then obtain key x where key: "json_unquote k = Some key" "decode_string [] v = Inr x"
    "decode_entries (gomap_update key x m) es = Inr m'" by (auto split: option.splits sum.splits)
  then have "valid_utf8 key" "valid_utf8 x" using json_unquote_valid decode_string_valid by auto
  then show ?case using 2(1) [OF key(1,2,3)] 2(3,4) by (simp add: gomap_wf_update gomap_update_valid)
qed simp

lemma decode_map_wf:
  assumes "decode_map cur v = Inr m'"
    and "case cur of None \<Rightarrow> True | Some m \<Rightarrow> gomap_wf m \<and> list_all (\<lambda>(k, v). valid_utf8 k \<and> valid_utf8 v) m"
  shows "case m' of None \<Rightarrow> True | Some m \<Rightarrow> gomap_wf m \<and> list_all (\<lambda>(k, v). valid_utf8 k \<and> valid_utf8 v) m"
  using assms decode_entries_wf [of "[]"]
  by (auto simp: decode_map_def gomap_wf_def split: json.splits sum.splits option.splits dest: decode_entries_wf)

lemma decode_members_inv:
  assumes "\<And>f raw v r r'. put f raw v r = Inr r' \<Longrightarrow> P r \<Longrightarrow> P r'"
  shows "decode_members names put r es = Inr r' \<Longrightarrow> P r \<Longrightarrow> P r'"
proof (induction es arbitrary: r)
  case (Cons e es)
  obtain k raw v where "e = (k, raw, v)" by (cases e) auto
  then show ?case using Cons assms by (auto split: option.splits sum.splits)
qed simp

section \<open>Instants\<close>

lemma civil_year_bounds:
  assumes "- 719528 \<le> n" "n \<le> 2932896"
  shows "0 \<le> fst (civil_of_days n) \<and> fst (civil_of_days n) \<le> 9999"
proof -
  define era where "era = (n + 719468) div 146097"
  define doe where "doe = (n + 719468) mod 146097"
  obtain yoe doy where y: "year_of_cycle doe = (yoe, doy)" by (rule prod.exhaust)
  obtain mp d where m: "month_of_year doy = (mp, d)" by (rule prod.exhaust)
  have doe: "0 \<le> doe" "doe < 146097" by (simp_all add: doe_def)
  note i = year_of_cycle_inverse [OF doe y]
  have n: "n + 719468 = era * 146097 + doe" by (simp add: era_def doe_def)
  have era: "- 1 \<le> era" "era \<le> 24" using assms n doe by linarith+
  have mp: "mp = (5 * doy + 2) div 153" using m by (simp add: month_of_year_def Let_def)
  have q: "0 \<le> yoe div 4" "yoe div 4 \<le> 99" "0 \<le> yoe div 100" "yoe div 100 \<le> 3" using i(1,2) by auto
  have low: "yoe = 399 \<and> 10 \<le> mp" if "era = - 1"
  proof -
    have "146037 \<le> doe" using n that assms(1) by simp
    then have "yoe = 399" using i q by linarith
    then have "306 \<le> doy" using i(5) \<open>146037 \<le> doe\<close> by simp
    then show ?thesis using \<open>yoe = 399\<close> mp by simp
  qed
  have high: "yoe \<le> 398 \<or> mp < 10" if "era = 24"
  proof (rule disjCI)
    assume "\<not> mp < 10"
    then have "306 \<le> doy" using mp by linarith
    moreover have "doe \<le> 146036" using n that assms(2) by simp
    ultimately show "yoe \<le> 398" using i by (cases "yoe = 399") auto
  qed
  have "fst (civil_of_days n) = 400 * era + yoe + (if mp < 10 then 0 else 1)"
    using month_of_year_inverse(1,2) [OF i(3,4) m] y m by (simp add: civil_of_days_def Let_def era_def doe_def)
  then show ?thesis using low high era i(1,2) by (cases "era = - 1"; cases "era = 24"; cases "mp < 10") auto
qed

lemma days_of_civil_bounds:
  assumes "0 \<le> y" "y \<le> 9999" "1 \<le> m" "m \<le> 12" "1 \<le> d" "d \<le> 31"
  shows "- 719528 \<le> days_of_civil y m d \<and> days_of_civil y m d \<le> 2932896"
proof -
  define y' where "y' = (if m \<le> 2 then y - 1 else y)"
  define mp where "mp = (if m > 2 then m - 3 else m + 9)"
  define k where "k = (153 * mp + 2) div 5"
  define era where "era = y' div 400"
  define yoe where "yoe = y' mod 400"
  have n: "days_of_civil y m d = era * 146097 + (yoe * 365 + yoe div 4 - yoe div 100 + (k + d - 1)) - 719468"
    by (simp add: days_of_civil_def y'_def mp_def k_def era_def yoe_def Let_def)
  have y': "y' = 400 * era + yoe" "0 \<le> yoe" "yoe < 400" by (simp_all add: era_def yoe_def)
  have q: "0 \<le> yoe div 4" "yoe div 4 \<le> 99" "0 \<le> yoe div 100" "yoe div 100 \<le> 3" "yoe div 100 \<le> yoe div 4"
    using y'(2,3) by (auto intro: zdiv_mono2)
  have mp: "0 \<le> mp" "mp \<le> 11" "y' = - 1 \<longrightarrow> 10 \<le> mp" "y' = 9999 \<longrightarrow> mp \<le> 9" using assms by (auto simp: mp_def y'_def)
  have k: "0 \<le> k" "k \<le> 337" "10 \<le> mp \<longrightarrow> 306 \<le> k" "mp \<le> 9 \<longrightarrow> k \<le> 275" using mp by (auto simp: k_def)
  have "- 1 \<le> y'" "y' \<le> 9999" using assms by (auto simp: y'_def)
  then consider "y' = - 1" | "0 \<le> y'" "y' \<le> 9998" | "y' = 9999" by linarith
  then show ?thesis
  proof cases
    case 1
    then have "era = - 1" "yoe = 399" by (simp_all add: era_def yoe_def)
    then show ?thesis using n k mp 1 assms by simp
  next
    case 2
    then have "0 \<le> era" "era \<le> 24" "era = 24 \<longrightarrow> yoe \<le> 398" using y' by linarith+
    then show ?thesis using n k q y'(2,3) assms by (cases "era = 24") linarith+
  next
    case 3
    then have "era = 24" "yoe = 399" by (simp_all add: era_def yoe_def)
    then show ?thesis using n k mp 3 assms by simp
  qed
qed

lemma digits2_range: "digits2 lo hi s = Some (n, r) \<Longrightarrow> lo \<le> n \<and> n \<le> hi"
  by (auto simp: digits2_def Let_def split: list.splits option.splits if_splits)

lemma digits4_range: "digits4 s = Some (n, r) \<Longrightarrow> 0 \<le> n \<and> n \<le> 9999"
  by (fastforce simp: digits4_def bind_eq_Some_conv dest: digits2_range)

lemma days_in_le: "days_in m y \<le> 31"
  by (simp add: days_in_def)

lemma parse_seconds_range:
  assumes "parse_seconds s = Some (secs, r)"
  shows "0 \<le> fst (civil_of_days (secs div 86400)) \<and> fst (civil_of_days (secs div 86400)) \<le> 9999"
proof -
  obtain y m d hh mm ss where p: "0 \<le> y \<and> y \<le> 9999" "1 \<le> m \<and> m \<le> 12" "1 \<le> d \<and> d \<le> days_in m y"
    "0 \<le> hh \<and> hh \<le> 23" "0 \<le> mm \<and> mm \<le> 59" "0 \<le> ss \<and> ss \<le> 59"
    and secs: "secs = days_of_civil y m d * 86400 + (hh * 3600 + mm * 60 + ss)"
    using assms by (auto simp: parse_seconds_def bind_eq_Some_conv dest!: digits4_range digits2_range)
  have "0 \<le> hh * 3600 + mm * 60 + ss" "hh * 3600 + mm * 60 + ss < 86400" using p by auto
  then have "secs div 86400 = days_of_civil y m d" unfolding secs by simp
  then show ?thesis using days_of_civil_bounds [of y m d] civil_year_bounds p days_in_le [of m y] by simp
qed

lemma parse_zone_range: "parse_zone s = Some off \<Longrightarrow> off mod 60 = 0 \<and> \<bar>off\<bar> < 86400"
  by (fastforce simp: parse_zone_def bind_eq_Some_conv mod_eq_0_iff_dvd dest!: digits2_range split: if_splits list.splits)

lemma parse_digits_less: "parse_digits acc s = Some n \<Longrightarrow> n < Suc acc * 10 ^ length s"
proof (induction acc s rule: parse_digits.induct)
  case (2 acc c cs)
  then obtain d where d: "char_digit c = Some d" "parse_digits (10 * acc + d) cs = Some n" by (auto split: option.splits)
  then have "d < 10" by (auto simp: char_digit_def split: if_splits)
  then have "Suc (10 * acc + d) * 10 ^ length cs \<le> 10 * Suc acc * 10 ^ length cs" by (intro mult_right_mono) auto
  with 2(1) [OF d] have "n < 10 * Suc acc * 10 ^ length cs" by (rule less_le_trans)
  then show ?case by (simp add: algebra_simps)
qed simp

lemma parse_digits_total: "\<forall>c \<in> set s. is_digit c \<Longrightarrow> \<exists>n. parse_digits acc s = Some n"
  by (induction acc s rule: parse_digits.induct) (auto simp: is_digit_def)

lemma parse_fraction_range: "fst (parse_fraction s) < 1000000000"
proof -
  have "the (parse_digits 0 (take 9 (takeWhile is_digit xs @ replicate 9 CHR ''0''))) < 1000000000" for xs
  proof -
    let ?s = "take 9 (takeWhile is_digit xs @ replicate 9 CHR ''0'')"
    have "\<forall>c \<in> set ?s. is_digit c"
      by (auto dest!: in_set_takeD set_takeWhileD) (simp add: is_digit_def char_digit_def)
    then obtain n where "parse_digits 0 ?s = Some n" using parse_digits_total by blast
    moreover have "length ?s = 9" by simp
    ultimately show ?thesis using parse_digits_less [of 0 ?s n] by simp
  qed
  then show ?thesis
    by (auto simp: parse_fraction_def Let_def split: list.split simp del: parse_digits.simps takeWhile.simps take_append)
qed

lemma parse_RFC3339_wf:
  assumes "parse_RFC3339 s = Some t"
  shows "time_wf t"
proof -
  obtain secs s' where s: "parse_seconds s = Some (secs, s')" using assms by (auto simp: parse_RFC3339_def bind_eq_Some_conv)
  obtain ns s'' where f: "parse_fraction s' = (ns, s'')" by (rule prod.exhaust)
  obtain off where p: "parse_seconds s = Some (secs, s')" "parse_fraction s' = (ns, s'')" "parse_zone s'' = Some off"
    "t = Time ((secs - off) * second + int ns) off"
    using assms s f by (auto simp: parse_RFC3339_def bind_eq_Some_conv)
  have "ns < 1000000000" using parse_fraction_range [of s'] p(2) by simp
  then have "((secs - off) * second + int ns) div second = secs - off" by simp
  then show ?thesis using parse_seconds_range [OF p(1)] parse_zone_range [OF p(3)] by (simp add: time_wf_def time_year_def p(4))
qed

lemma decode_time_wf: "decode_time cur raw = Inr t \<Longrightarrow> time_wf cur \<Longrightarrow> time_wf t"
  by (auto simp: decode_time_def dest: parse_RFC3339_wf split: if_splits option.splits)

section \<open>Jobs\<close>

lemma put_job_field_wf: "put_job_field f raw v j = Inr j' \<Longrightarrow> job_wf j \<Longrightarrow> job_wf j'"
  by (auto simp: put_job_field_def job_wf_def map_sum_def Status_UnmarshalJSON_def Let_def split: if_splits sum.splits
      dest: decode_string_valid decode_int_range decode_map_wf decode_time_wf)

lemma zero_time_wf: "time_wf zero_time"
proof -
  have "t_ns zero_time div second = - 62135596800" "t_off zero_time = 0" by (simp_all add: zero_time_def)
  then show ?thesis using civil_year_bounds [of "- 719162"] by (simp add: time_wf_def time_year_def)
qed

lemma zero_Job_wf: "job_wf zero_Job"
  by (simp add: zero_Job_def job_wf_def zero_time_wf status_known_def int64_range_def)



end
