(* ===== verification/Api_Theorems.thy ===== *)
theory Api_Theorems
  imports Api_Router Job_Wf
begin

text \<open>
  The HTTP interface over a queue on Redis: what a request body can produce, how each handler answers,
  and that creating, reading and deleting a job fit together.
\<close>

section \<open>Every decoded request makes a well-formed job\<close>

definition request_wf :: "CreateJobRequest \<Rightarrow> bool" where
  "request_wf r \<longleftrightarrow> valid_utf8 (rq_Type r) \<and> valid_utf8 (rq_UniqueKey r) \<and> int64_range (rq_Priority r) \<and>
     int64_range (rq_MaxRetries r) \<and>
     (case rq_Metadata r of None \<Rightarrow> True | Some m \<Rightarrow> gomap_wf m \<and> list_all (\<lambda>(k, v). valid_utf8 k \<and> valid_utf8 v) m)"

lemma decode_body_inv:
  assumes "\<And>f raw v r r'. put f raw v r = Inr r' \<Longrightarrow> P r \<Longrightarrow> P r'" "P r" "decode_body names put r body = Inr r'"
  shows "P r'"
  using assms(2,3) decode_members_inv [of put P, OF assms(1)]
  by (auto simp: decode_body_def decode_struct_def split: if_splits option.splits json.splits)

lemma put_request_field_wf: "put_request_field f raw v r = Inr r' \<Longrightarrow> request_wf r \<Longrightarrow> request_wf r'"
  by (auto simp: put_request_field_def request_wf_def map_sum_def split: if_splits sum.splits
      dest: decode_string_valid decode_int_range decode_map_wf)

lemma request_wf_zero: "request_wf zero_CreateJobRequest"
  by (simp add: request_wf_def zero_CreateJobRequest_def int64_range_def)

lemma read_CreateJobRequest_wf: "read_CreateJobRequest body = Inr req \<Longrightarrow> request_wf req"
  unfolding read_CreateJobRequest_def by (rule decode_body_inv [where P = request_wf, OF put_request_field_wf request_wf_zero])

lemma job_of_request_simps [simp]:
  "ID (job_of_request u t req) = u" "Type (job_of_request u t req) = rq_Type req"
  "Payload (job_of_request u t req) = rq_Payload req" "Status (job_of_request u t req) = StatusPending"
  "Priority (job_of_request u t req) = (if rq_Priority req > 0 then rq_Priority req else 5)"
  "MaxRetries (job_of_request u t req) = (if rq_MaxRetries req > 0 then rq_MaxRetries req else DefaultMaxRetries)"
  "UniqueKey (job_of_request u t req) = rq_UniqueKey req" "Attempts (job_of_request u t req) = 0"
  by (auto simp: job_of_request_def NewJob_def zero_Job_def Let_def)

lemma job_of_request_wf:
  assumes "request_wf req" "valid_utf8 u" "time_wf (time_UTC t)"
  shows "job_wf (job_of_request u t req)"
  using assms
  by (auto simp: job_of_request_def request_wf_def job_wf_def NewJob_def zero_Job_def Let_def int64_range_def gomap_wf_def status_known_def
      split: option.splits)

section \<open>Creating a job\<close>

definition drawn :: "'s client \<Rightarrow> 's world \<Rightarrow> 's world" where
  "drawn c w = snd (run_state (fresh_uuid c) w)"

definition uuid_of :: "'s client \<Rightarrow> 's world \<Rightarrow> string" where
  "uuid_of c w = fst (run_state (fresh_uuid c) w)"

lemma run_fresh_uuid [run_simps]: "run_state (fresh_uuid c) w = (uuid_of c w, drawn c w)"
  by (simp add: uuid_of_def drawn_def)

text \<open>The job that a request makes when it is served in a state.\<close>

definition new_job :: "'s client \<Rightarrow> 's world \<Rightarrow> CreateJobRequest \<Rightarrow> Job" where
  "new_job c w req = job_of_request (uuid_of c (ticked c w)) (clock_of c w) req"

definition created :: "Job \<Rightarrow> http_response" where
  "created j = writeJSON StatusCreated (Inr (encode_CreateJobResponse (response_of_job j)))"

lemma run_CreateJob:
  assumes "read_CreateJobRequest (req_Body r) = Inr req" "rq_Type req \<noteq> []" "c = qclient q"
  shows "run_state (CreateJob q r) w =
    (case run_state (Enqueue q (new_job c w req)) (drawn c (ticked c w)) of
       (Inl err, w') \<Rightarrow> (writeError StatusInternalServerError ''failed to enqueue job'' (error_text err), w')
     | (Inr _, w') \<Rightarrow> (created (new_job c w req), w'))"
  using assms by (simp add: CreateJob_def run_simps new_job_def created_def Let_def split: prod.split sum.split)

context queue_on_redis begin

lemma uuid_laws:
  shows "view (srv (drawn c w)) = view (srv w)" "up (srv w) \<Longrightarrow> up (srv (drawn c w))" "IsHealthy (drawn c w) = IsHealthy w"
    and "uuid_of c w \<noteq> [] \<and> valid_utf8 (uuid_of c w) \<and> uuid_ok (cenv c) (uuid_of c w)"
  using fresh [of "srv w" "fst (run_state (uuid_New (cenv c)) (srv w))" "snd (run_state (uuid_New (cenv c)) (srv w))"]
  by (auto simp: drawn_def uuid_of_def fresh_uuid_def run_simps IsHealthy_def split: prod.splits)

lemma queue_ready_drawn: "queue_ready view up q w \<Longrightarrow> queue_ready view up q (drawn c (ticked c w))"
  and db_drawn: "db view (drawn c (ticked c w)) = db view w"
  using uuid_laws(1-3) [of "ticked c w"] queue_ready_ticked [of w] clock_laws(1) [of w]
  by (auto simp: queue_ready_def ready_def db_def scripts_in_def)

lemma drawn_ready:
  shows "queue_ready view up q w \<Longrightarrow> queue_ready view up q (drawn c w)" and "db view (drawn c w) = db view w"
  using uuid_laws(1-3) [of w] by (auto simp: queue_ready_def ready_def db_def scripts_in_def)

lemma new_job_wf:
  assumes "read_CreateJobRequest body = Inr req"
  shows "job_wf (new_job c w req)"
  using job_of_request_wf [OF read_CreateJobRequest_wf [OF assms]] uuid_laws(4) [of "ticked c w"] clock_laws(3) [of w]
  by (simp add: new_job_def)

lemma new_job_valid:
  assumes "rq_Type req \<noteq> []"
  shows "Validate (uuid_ok (cenv c)) (new_job c w req) = (if rq_Priority req > 10 then Some ErrInvalidPriority else None)"
  using assms uuid_laws(4) [of "ticked c w"] by (simp add: new_job_def Validate_def DefaultMaxRetries_def)

lemma CreateJob_run:
  assumes w: "queue_ready view up q w" and req: "read_CreateJobRequest (req_Body r) = Inr req" "rq_Type req \<noteq> []"
    "rq_Priority req \<le> 10" "rq_UniqueKey req = []"
  obtains w' where "run_state (CreateJob q r) w = (created (new_job c w req), w')" "queue_ready view up q w'"
    "queue_view q (db view w') = a_enqueue (level_of (Priority (new_job c w req))) (ID (new_job c w req))
       (job_text (new_job c w req)) (queue_view q (db view w))"
proof -
  have v: "Validate (uuid_ok (cenv c)) (new_job c w req) = None" "UniqueKey (new_job c w req) = []"
    using new_job_valid [OF req(2)] req(3,4) by (simp_all add: new_job_def)
  show thesis
    by (rule Enqueue_run [OF queue_ready_drawn [OF w] v(1) new_job_wf [OF req(1)] v(2)])
      (use run_CreateJob [OF req(1,2) q_client [symmetric]] in \<open>auto simp: db_drawn intro: that\<close>)
qed

lemma CreateJob_bad_priority:
  assumes w: "queue_ready view up q w" and req: "read_CreateJobRequest (req_Body r) = Inr req" "rq_Type req \<noteq> []"
    "rq_Priority req > 10"
  shows "run_state (CreateJob q r) w =
    (writeError StatusInternalServerError ''failed to enqueue job'' (error_text (Wrapf ''enqueue'' ErrInvalidPriority)),
     drawn c (ticked c w))"
  using run_CreateJob [OF req(1,2) q_client [symmetric]] new_job_valid [OF req(2)] req(3)
  by (simp add: Enqueue_def q_client run_simps)

end


text \<open>A body that is the text of a document, perhaps followed by more, is read as that document.\<close>

lemma decode_body_text:
  assumes "json_ok 10000 v" "number_stop rest"
  shows "decode_body names put r (json_text v @ rest) = decode_struct names put r v"
proof -
  have "parse_value 10000 (json_text v @ rest) = Some (v, rest)" by (rule readsD [OF parse_value_reads assms])
  moreover have "json_text v \<noteq> []" using json_text_hd [OF assms(1)] by auto
  ultimately show ?thesis using skip_ws_json_text [OF assms(1)] by (simp add: decode_body_def)
qed

lemma json_ok_flat: "(\<And>k v. (k, v) \<in> set kvs \<Longrightarrow> json_ok 0 v) \<Longrightarrow> json_ok 10000 (json_map kvs)"
proof -
  assume "\<And>k v. (k, v) \<in> set kvs \<Longrightarrow> json_ok 0 v"
  then have "json_ok (Suc 0) (json_map kvs)"
    unfolding json_map_def by (intro json_ok_object) (auto simp: member_def body_ok_quote)
  from json_ok_mono [OF this, of 9999] show ?thesis by simp
qed

definition sample_body :: string where
  "sample_body = json_text (json_map [(''type'', encode_string ''echo''), (''priority'', encode_int 9)])"

definition sample_request :: "string \<Rightarrow> http_request" where
  "sample_request body = \<lparr>req_Method = ''POST'', req_Path = ''/api/v1/jobs'', req_Query = (\<lambda>_. []), req_Header = (\<lambda>_. []),
     URLParam = (\<lambda>_. []), req_Body = body, req_Context = background\<rparr>"

lemma read_sample_body:
  "read_CreateJobRequest sample_body = Inr (zero_CreateJobRequest\<lparr>rq_Type := ''echo'', rq_Priority := 9\<rparr>)"
proof -
  let ?v = "json_map [(''type'', encode_string ''echo''), (''priority'', encode_int 9)]"
  have "json_ok 10000 ?v" by (rule json_ok_flat) (auto simp del: json_ok.simps)
  then have "read_CreateJobRequest sample_body = decode_struct request_field_names put_request_field zero_CreateJobRequest ?v"
    using decode_body_text [of ?v "[]"] by (simp add: read_CreateJobRequest_def sample_body_def)
  also have "\<dots> = Inr (zero_CreateJobRequest\<lparr>rq_Type := ''echo'', rq_Priority := 9\<rparr>)" by code_simp
  finally show ?thesis .
qed


section \<open>Creating, reading and deleting\<close>

lemma encode_stored_form: "job_wf j \<Longrightarrow> encode_job (stored_form j) = Inr (JObj (job_members j))"
proof -
  assume "job_wf j"
  moreover have "job_members (stored_form j) = job_members j"
    by (auto simp: job_members_def stored_form_def split: option.splits)
  ultimately show ?thesis by (simp add: encode_job_def job_wf_def marshal_time_wf)
qed

definition job_response :: "Job \<Rightarrow> http_response" where
  "job_response j = writeJSON StatusOK (Inr (JObj (job_members j)))"

lemma job_response_body: "resp_body (job_response j) = job_text j @ [CHR 0x0A]"
  by (simp add: job_response_def writeJSON_def job_text_def del: json_text.simps)

context queue_on_redis begin

lemma api_GetJob_stored:
  assumes w: "queue_ready view up q w" and j: "job_wf j" "stored (queue_view q (db view w)) (URLParam r ''id'') = Some (job_text j)"
    and i: "URLParam r ''id'' \<noteq> []"
  obtains w' where "run_state (api_GetJob q r) w = (job_response j, w')" "queue_ready view up q w'" "db view w' = db view w"
  using GetJob_run [OF w j(2)] Unmarshal_job [OF j(1)] i
  by (intro that [of "sent c (GET (jobKey q (URLParam r ''id''))) w"]) (auto simp: api_GetJob_def Let_def run_simps job_response_def encode_stored_form [OF j(1)])

lemma api_GetJob_missing:
  assumes w: "queue_ready view up q w" and "db view w (jobKey q (URLParam r ''id'')) = None" "URLParam r ''id'' \<noteq> []"
  shows "resp_status (fst (run_state (api_GetJob q r) w)) = StatusNotFound"
  using GetJob_missing [OF w assms(2)] assms(3)
  by (simp add: api_GetJob_def Let_def run_simps writeError_def writeJSON_def)

lemma api_DeleteJob_pending:
  assumes w: "queue_ready view up q w" and j: "job_wf j" "Status j = StatusPending"
    "stored (queue_view q (db view w)) (URLParam r ''id'') = Some (job_text j)" and i: "URLParam r ''id'' \<noteq> []"
  obtains w' where "run_state (api_DeleteJob q r) w = (\<lparr>resp_status = StatusNoContent, resp_header = [], resp_body = []\<rparr>, w')"
    "queue_ready view up q w'" "db view w' (jobKey q (URLParam r ''id'')) = None"
    "queue_view q (db view w') = (let a = queue_view q (db view w) in
       a\<lparr>pend := (\<lambda>l. remove1 (URLParam r ''id'') (pend a l)), stored := (stored a)(URLParam r ''id'' := None)\<rparr>)"
proof -
  note g = GetJob_run [OF w j(3)]
  show thesis
    by (rule DeleteJob_run [OF g(2), of "URLParam r ''id''"])
      (use g(1,3) Unmarshal_job [OF j(1)] i j(2) in \<open>auto simp: api_DeleteJob_def Let_def run_simps intro: that\<close>)
qed

end



section \<open>Pages of dead letters\<close>

lemma dlq_limit_bounds: "1 \<le> dlq_limit r \<and> dlq_limit r \<le> 100"
  by (auto simp: dlq_limit_def Let_def split: option.splits)

lemma dlq_offset_range: "int64_range (dlq_offset r)"
  by (auto simp: dlq_offset_def Let_def parse_int_def in_int64_def int64_range_def split: option.splits list.splits if_splits)

text \<open>Redis holds fewer than \<open>2 ^ 32\<close> elements in a list.\<close>

lemma length_page:
  assumes "1 \<le> n" "n \<le> 100" "int64_range off" "int (length xs) < 2 ^ 32"
  shows "int (length (lrange off (i64 (off + n - 1)) xs)) \<le> n"
proof (cases "int64_range (off + n - 1)")
  case True
  then show ?thesis using assms by (auto simp: lrange_def Let_def)
next
  case False
  have "i64 (off + n - 1) = i64 (off + n - 1 - 2 ^ 64)"
    unfolding i64_def using minus_mod_self2 [of "off + n - 1 + 2 ^ 63" "2 ^ 64"] by (simp add: algebra_simps)
  moreover have "int64_range (off + n - 1 - 2 ^ 64)" using False assms by (auto simp: int64_range_def)
  ultimately have "i64 (off + n - 1) = off + n - 1 - 2 ^ 64" by simp
  then show ?thesis using assms False by (auto simp: lrange_def Let_def int64_range_def)
qed

lemma page_prefix:
  assumes "1 \<le> n" "0 \<le> off" "off + n \<le> 2 ^ 63"
  shows "lrange off (i64 (off + n - 1)) xs = take (nat n) (drop (nat off) xs)"
proof -
  have "i64 (off + n - 1) = off + n - 1" using assms by (intro i64_id) (auto simp: int64_range_def)
  then show ?thesis using assms by (auto simp: lrange_def Let_def nat_le_iff min_def nat_diff_distrib' not_le)
qed

text \<open>C34. \<open>GET /dlq\<close> answers with at most a hundred jobs and at most as many as the query asks for, whatever the query
  says; with an offset that is not negative they are the readable jobs among the dead letters from the offset on.
  The queue is unchanged.\<close>

theorem ListDLQ_page:
  assumes q: "queue_on_redis c view stime up sha rnd q" and w: "queue_ready view up q w"
    and st: "\<forall>i \<in> set (dead (queue_view q (db view w))).
      db view w (jobKey q i) = None \<or> stored (queue_view q (db view w)) i \<noteq> None"
    and len: "int (length (dead (queue_view q (db view w)))) < 2 ^ 32"
  shows "\<exists>jobs w'. run_state (api_ListDLQ q r) w =
      (writeJSON StatusOK (map_sum id (\<lambda>js. json_map [(''count'', encode_int (int (length jobs))), (''jobs'', encode_list js),
         (''limit'', encode_int (dlq_limit r)), (''offset'', encode_int (dlq_offset r))]) (decode_each encode_job jobs)), w') \<and>
    db view w' = db view w \<and> int (length jobs) \<le> dlq_limit r \<and> dlq_limit r \<le> 100 \<and>
    (0 \<le> dlq_offset r \<and> dlq_offset r < 2 ^ 62 \<longrightarrow>
       jobs = List.map_filter (stored_job (queue_view q (db view w)))
         (take (nat (dlq_limit r)) (drop (nat (dlq_offset r)) (dead (queue_view q (db view w))))))"
proof (rule queue_on_redis.ListDLQ_run [OF q w st])
  let ?a = "queue_view q (db view w)"
  let ?page = "lrange (dlq_offset r) (i64 (dlq_offset r + dlq_limit r - 1)) (dead ?a)"
  fix w' assume a: "db view w' = db view w"
    "run_state (ListDLQ q (dlq_offset r) (dlq_limit r)) w = (Inr (List.map_filter (stored_job ?a) ?page), w')"
  have "length (List.map_filter f xs) \<le> length xs" for f :: "string \<Rightarrow> Job option" and xs
    by (induction xs) (auto simp: List.map_filter_simps split: option.split)
  then have "int (length (List.map_filter (stored_job ?a) ?page)) \<le> int (length ?page)" by (simp only: of_nat_le_iff)
  also have "\<dots> \<le> dlq_limit r" using length_page dlq_limit_bounds [of r] dlq_offset_range len by blast
  finally have "int (length (List.map_filter (stored_job ?a) ?page)) \<le> dlq_limit r" .
  moreover have "?page = take (nat (dlq_limit r)) (drop (nat (dlq_offset r)) (dead ?a))"
    if "0 \<le> dlq_offset r" "dlq_offset r < 2 ^ 62"
    using that dlq_limit_bounds [of r] by (intro page_prefix) auto
  ultimately show ?thesis using a dlq_limit_bounds [of r]
    by (intro exI [of _ "List.map_filter (stored_job ?a) ?page"] exI [of _ w'])
      (simp add: api_ListDLQ_def run_simps Let_def del: queue_view_sel)
qed

theorem ListDLQ_page_witness:
  "\<exists>jobs w'. resp_status (fst (run_state (api_ListDLQ mem_queue
     (sample_request []\<lparr>req_Query := (\<lambda>k. if k = ''limit'' then ''1000'' else ''-7'')\<rparr>)) (mem_with empty_db))) = StatusOK"
  using ListDLQ_page [OF mem_queue_contract mem_with_ready [OF empty_queue(1)],
      of "sample_request []\<lparr>req_Query := (\<lambda>k. if k = ''limit'' then ''1000'' else ''-7'')\<rparr>"]
  by (auto simp: writeJSON_def)

section \<open>Batches\<close>

lemma decode_requests_wf:
  "decode_requests old vs = Inr rs \<Longrightarrow> list_all request_wf old \<Longrightarrow> list_all request_wf rs"
proof (induction old vs arbitrary: rs rule: decode_requests.induct)
  case (2 old raw v vs)
  let ?cur = "if old = [] then zero_CreateJobRequest else hd old"
  obtain r rs' where r: "decode_struct request_field_names put_request_field ?cur v = Inr r"
    "decode_requests (drop 1 old) vs = Inr rs'" "rs = r # rs'" using 2(2) by (auto simp: map_sum_def split: sum.splits)
  have "request_wf ?cur" using 2(3) request_wf_zero by (cases old) auto
  then have "request_wf r" using r(1) decode_members_inv [of put_request_field request_wf, OF put_request_field_wf]
    by (auto simp: decode_struct_def split: json.splits)
  moreover have "list_all request_wf (drop 1 old)" using 2(3) by (cases old) auto
  ultimately show ?case using 2(1) [OF r(1) r(2)] r(3) by simp
qed simp

lemma read_batch_wf: "read_CreateJobBatchRequest body = Inr req \<Longrightarrow> list_all request_wf (Jobs req)"
proof -
  let ?P = "\<lambda>r. list_all request_wf (Jobs_array r)"
  have step: "put_batch_field f raw v r = Inr r' \<Longrightarrow> ?P r \<Longrightarrow> ?P r'" for f raw v r r'
    by (auto simp: put_batch_field_def map_sum_def split: json.splits list.splits sum.splits dest: decode_requests_wf)
  assume "read_CreateJobBatchRequest body = Inr req"
  then have "?P req" unfolding read_CreateJobBatchRequest_def
    using decode_body_inv [where P = ?P, OF step, where r = "\<lparr>Jobs_array = [], Jobs_len = 0\<rparr>"] by simp
  then show ?thesis by (auto simp: list_all_iff dest: in_set_takeD)
qed

definition accepted :: "CreateJobRequest \<Rightarrow> bool" where
  "accepted req \<longleftrightarrow> rq_Type req \<noteq> [] \<and> rq_Priority req \<le> 10"

definition enqueue_all :: "Job list \<Rightarrow> aqueue \<Rightarrow> aqueue" where
  "enqueue_all js = fold (\<lambda>j. a_enqueue (level_of (Priority j)) (ID j) (job_text j)) js"

context queue_on_redis begin

lemma create_each_run:
  assumes "queue_ready view up q w" "list_all request_wf reqs" "list_all (\<lambda>req. rq_UniqueKey req = []) reqs"
  shows "\<exists>js w'. run_state (create_each q reqs) w = (map response_of_job js, w') \<and> queue_ready view up q w' \<and>
    list_all2 (\<lambda>req j. \<exists>u t. j = job_of_request u t req) (filter accepted reqs) js \<and>
    queue_view q (db view w') = enqueue_all js (queue_view q (db view w))"
  using assms
proof (induction reqs arbitrary: w)
  case (Cons req reqs)
  let ?j = "new_job c w req" and ?w = "drawn c (ticked c w)"
  have wf: "job_wf ?j" using job_of_request_wf [of req] Cons.prems(2) uuid_laws(4) [of "ticked c w"] clock_laws(3) [of w]
    by (simp add: new_job_def)
  have run: "run_state (create_each q (req # reqs)) w =
      (case run_state (Enqueue q ?j) ?w of
         (Inl err, w1) \<Rightarrow> run_state (create_each q reqs) w1
       | (Inr _, w1) \<Rightarrow> (case run_state (create_each q reqs) w1 of (rs, w2) \<Rightarrow> (response_of_job ?j # rs, w2)))"
    if "rq_Type req \<noteq> []"
    using that by (simp add: run_simps q_client new_job_def Let_def split: prod.split sum.split)
  consider "rq_Type req = []" | "rq_Type req \<noteq> []" "rq_Priority req > 10" | "accepted req"
    unfolding accepted_def by linarith
  then show ?case
  proof cases
    case 1
    then show ?thesis using Cons.IH [OF Cons.prems(1)] Cons.prems by (simp add: accepted_def)
  next
    case 2
    then have "run_state (Enqueue q ?j) ?w = (Inl (Wrapf ''enqueue'' ErrInvalidPriority), ?w)"
      using new_job_valid [OF 2(1)] by (simp add: Enqueue_def q_client)
    then show ?thesis using Cons.IH [OF queue_ready_drawn [OF Cons.prems(1)]] Cons.prems run 2
      by (simp add: accepted_def db_drawn del: create_each.simps)
  next
    case 3
    have v: "Validate (uuid_ok (cenv c)) ?j = None" "UniqueKey ?j = []"
      using new_job_valid [of req] 3 Cons.prems(3) by (simp_all add: new_job_def accepted_def)
    show ?thesis
    proof (rule Enqueue_run [OF queue_ready_drawn [OF Cons.prems(1)] v(1) wf v(2)])
      fix w1 assume a: "run_state (Enqueue q ?j) ?w = (Inr (), w1)" "queue_ready view up q w1"
        "queue_view q (db view w1) = a_enqueue (level_of (Priority ?j)) (ID ?j) (job_text ?j) (queue_view q (db view ?w))"
      obtain js w' where b: "run_state (create_each q reqs) w1 = (map response_of_job js, w')" "queue_ready view up q w'"
        "list_all2 (\<lambda>req j. \<exists>u t. j = job_of_request u t req) (filter accepted reqs) js"
        "queue_view q (db view w') = enqueue_all js (queue_view q (db view w1))"
        using Cons.IH [OF a(2)] Cons.prems by auto
      have "\<exists>u t. ?j = job_of_request u t req" by (auto simp: new_job_def)
      moreover have "rq_Type req \<noteq> []" using 3 by (simp add: accepted_def)
      ultimately show ?thesis using run a(1,3) b 3
        by (intro exI [of _ "?j # js"] exI [of _ w'])
          (simp add: enqueue_all_def db_drawn del: create_each.simps queue_view_sel)
    qed
  qed
qed (simp add: run_simps enqueue_all_def)

end

text \<open>C33. \<open>POST /jobs/batch\<close> without unique keys creates exactly the jobs of the requests that have a type and an
  admissible priority, in order, answers 201 with their number and identifiers, and enqueues each at its level;
  the other requests are left out without notice.\<close>

theorem CreateJobBatch_creates:
  assumes q: "queue_on_redis c view stime up sha rnd q" and w: "queue_ready view up q w"
    and req: "read_CreateJobBatchRequest (req_Body r) = Inr req" "Jobs req \<noteq> []"
    and u: "list_all (\<lambda>req. rq_UniqueKey req = []) (Jobs req)"
  shows "\<exists>js w'. run_state (CreateJobBatch q r) w =
      (writeJSON StatusCreated (Inr (json_map [(''created'', encode_int (int (length js))),
         (''jobs'', encode_list (map (encode_CreateJobResponse \<circ> response_of_job) js))])), w') \<and>
    list_all2 (\<lambda>req j. \<exists>u t. j = job_of_request u t req) (filter accepted (Jobs req)) js \<and>
    queue_view q (db view w') = enqueue_all js (queue_view q (db view w))"
proof -
  obtain js w' where "run_state (create_each q (Jobs req)) w = (map response_of_job js, w')"
    "list_all2 (\<lambda>req j. \<exists>u t. j = job_of_request u t req) (filter accepted (Jobs req)) js"
    "queue_view q (db view w') = enqueue_all js (queue_view q (db view w))"
    using queue_on_redis.create_each_run [OF q w read_batch_wf [OF req(1)] u] by blast
  moreover have "length (Jobs req) \<noteq> 0" using req(2) by auto
  ultimately show ?thesis using req(1)
    by (intro exI [of _ js] exI [of _ w']) (simp add: CreateJobBatch_def run_simps del: queue_view_sel length_take)
qed

definition batch_body :: string where
  "batch_body = json_text (json_map [(''jobs'', encode_list [json_map [(''type'', encode_string ''echo'')], json_map []])])"

lemma read_batch_body:
  "read_CreateJobBatchRequest batch_body =
    Inr \<lparr>Jobs_array = [zero_CreateJobRequest\<lparr>rq_Type := ''echo''\<rparr>, zero_CreateJobRequest], Jobs_len = 2\<rparr>"
proof -
  let ?ds = "[json_map [(''type'', encode_string ''echo'')], json_map []]"
  let ?v = "json_map [(''jobs'', encode_list ?ds)]"
  have "json_ok (Suc 0) v" if "v \<in> set ?ds" for v
    using that unfolding json_map_def by (auto simp: member_def body_ok_quote intro!: json_ok_object simp del: json_ok.simps)
  then have "json_ok (Suc (Suc 0)) (encode_list ?ds)" by (auto simp: encode_list_def json_ok_with_def simp del: json_ok.simps(2) simp add: json_ok.simps(2) [of "Suc 0"])
  then have "json_ok (Suc (Suc (Suc 0))) ?v"
    unfolding json_map_def [of "[(''jobs'', encode_list ?ds)]"]
    by (intro json_ok_object) (simp add: member_def body_ok_quote del: json_ok.simps)
  from json_ok_mono [OF this, of 9997] have "json_ok 10000 ?v" by simp
  then have "read_CreateJobBatchRequest batch_body = decode_struct [''jobs''] put_batch_field \<lparr>Jobs_array = [], Jobs_len = 0\<rparr> ?v"
    using decode_body_text [of ?v "[]"] by (simp add: read_CreateJobBatchRequest_def batch_body_def)
  also have "\<dots> = Inr \<lparr>Jobs_array = [zero_CreateJobRequest\<lparr>rq_Type := ''echo''\<rparr>, zero_CreateJobRequest], Jobs_len = 2\<rparr>" by code_simp
  finally show ?thesis .
qed

theorem CreateJobBatch_creates_witness:
  "\<exists>u w'. snd (run_state (CreateJobBatch mem_queue (sample_request batch_body)) (mem_with empty_db)) = w' \<and>
     pend (queue_view mem_queue (db mem w')) Normal = [u]"
proof -
  let ?req = "\<lparr>Jobs_array = [zero_CreateJobRequest\<lparr>rq_Type := ''echo''\<rparr>, zero_CreateJobRequest], Jobs_len = 2\<rparr>"
  have r: "read_CreateJobBatchRequest (req_Body (sample_request batch_body)) = Inr ?req"
    by (simp add: sample_request_def read_batch_body)
  have f: "filter accepted (Jobs ?req) = [zero_CreateJobRequest\<lparr>rq_Type := ''echo''\<rparr>]"
    by (simp add: accepted_def zero_CreateJobRequest_def)
  have "Jobs ?req \<noteq> []" "list_all (\<lambda>req. rq_UniqueKey req = []) (Jobs ?req)" by (simp_all add: zero_CreateJobRequest_def)
  from CreateJobBatch_creates [OF mem_queue_contract mem_with_ready [OF empty_queue(1)] r this] show ?thesis
    unfolding f by (auto simp: list_all2_Cons1 enqueue_all_def a_enqueue_def level_of_def zero_CreateJobRequest_def simp del: queue_view_sel)
qed

section \<open>Results\<close>

text \<open>\<open>GET /jobs/{id}/result\<close> of a completed job answers 200 with the result embedded as JSON, null when there is none;
  but when the result is not a JSON document the answer is still 200, with an empty body.\<close>

theorem GetJobResult_embeds:
  assumes q: "queue_on_redis c view stime up sha rnd q" and w: "queue_ready view up q w"
    and j: "job_wf j" "Status j = StatusCompleted" "stored (queue_view q (db view w)) (URLParam r ''id'') = Some (job_text j)"
    and i: "URLParam r ''id'' \<noteq> []"
  shows "resp_status (fst (run_state (GetJobResult q r) w)) = StatusOK \<and>
    resp_body (fst (run_state (GetJobResult q r) w)) =
      (let doc = \<lambda>raw v. json_text (JObj [member ''id'' (encode_string (ID j)), (json_quote ''result'', raw, v),
             member ''status'' (encode_string ''completed'')]) @ [CHR 0x0A]
       in case Result j of
            None \<Rightarrow> doc ''null'' JNull
          | Some s \<Rightarrow>
             if s = [] then doc ''null'' JNull
             else (case json_parse s of None \<Rightarrow> [] | Some v \<Rightarrow> doc (compact_text False s) v))"
proof -
  have "fst (run_state (GetJobResult q r) w) = writeJSON StatusOK (map_sum id
      (\<lambda>res. JObj [member ''id'' (encode_string (ID j)), res, member ''status'' (encode_string ''completed'')])
      (encode_raw ''result'' (Result (stored_form j))))"
    using queue_on_redis.GetJob_run [OF q w j(3)] Unmarshal_job [OF j(1)] i j(2)
    by (simp add: GetJobResult_def Let_def run_simps Status_String_def)
  then show ?thesis
    by (auto simp: writeJSON_def encode_raw_def member_def [of _ JNull] stored_form_def Let_def simp del: json_text.simps(7)
        split: option.splits)
qed

definition result_job :: Job where
  "result_job = mem_job\<lparr>Status := StatusCompleted, Result := Some ''done''\<rparr>"

definition result_db :: keyspace where
  "result_db = put_str (jobKey mem_queue (ID mem_job)) (job_text result_job) None empty_db"

theorem GetJobResult_embeds_witness:
  "resp_body (fst (run_state (GetJobResult mem_queue (sample_request []\<lparr>URLParam := (\<lambda>_. ID mem_job)\<rparr>)) (mem_with result_db))) = []"
proof -
  have j: "job_wf result_job" "Status result_job = StatusCompleted"
    using mem_job_ok(1) by (simp_all add: result_job_def job_wf_def status_known_def del: mem_job_ok)
  have q: "queue_wf mem_queue result_db" "stored (queue_view mem_queue result_db) (ID mem_job) = Some (job_text result_job)"
    by (simp_all add: result_db_def)
  have "\<exists>p. parse_value d = parse_with p" for d by (cases d) auto
  then obtain p where "parse_value 10000 = parse_with p" by blast
  then have "json_parse ''done'' = None"
    by (simp add: json_parse_def skip_ws_def is_space_def parse_with_def scan_number_def scan_integer_def is_digit_def char_digit_def
        Let_def)
  moreover have "ID mem_job \<noteq> []" "Result result_job = Some ''done''"
    by (simp_all add: result_job_def mem_job_def sample_job_def NewPriorityJob_def NewJob_def Let_def)
  ultimately show ?thesis
    using GetJobResult_embeds [OF mem_queue_contract mem_with_ready [OF q(1)] j, of "sample_request []\<lparr>URLParam := (\<lambda>_. ID mem_job)\<rparr>"] q(2)
    by (simp del: queue_view_sel)
qed

section \<open>Through the router\<close>

definition request_id_in :: "http_request \<Rightarrow> string" where
  "request_id_in r = req_Header r (canonical_key True RequestIDHeader)"

text \<open>The request as the routes see it, with its identifier.\<close>

definition identified :: "string \<Rightarrow> http_request \<Rightarrow> http_request" where
  "identified rid r = r\<lparr>req_Context := WithRequestID (req_Context r) rid\<rparr>"

text \<open>What the routes answer to a request from the world \<open>w\<close>.\<close>

definition routed :: "chi_mux \<Rightarrow> 's RouterConfig \<Rightarrow> http_request \<Rightarrow> 's world \<Rightarrow> http_response \<times> 's world" where
  "routed chi cfg r w =
    (case chi (map (\<lambda>(m, p, h). (m, p)) (api_routes cfg)) r of
       Inl resp \<Rightarrow> (resp, w)
     | Inr (i, params) \<Rightarrow> run_state (snd (snd (api_routes cfg ! i)) (r\<lparr>URLParam := params\<rparr>)) w)"

lemma run_route_to [run_simps]:
  "run_state (route_to chi (api_routes cfg) r) s = (case routed chi cfg r (api_world s) of (resp, w) \<Rightarrow> (resp, s\<lparr>api_world := w\<rparr>))"
  by (simp add: route_to_def routed_def run_simps split: sum.split prod.split)

lemma run_NewRouter:
  assumes "qclient (rt_Queue cfg) = c" "0 < RateLimitRate cfg" "log_min (rt_Logger cfg) \<le> LevelInfo"
    and "rid = (if request_id_in r = [] then uuid_of c (api_world s) else request_id_in r)"
    and "w0 = (if request_id_in r = [] then drawn c (api_world s) else api_world s)"
    and "w1 = ticked c (ticked c w0)" and "bucket_Allow (clock_of c (ticked c w0)) (api_bucket s) = (ok, tb)"
    and "(if ok then routed chi cfg (identified rid r) w1 else (http_Error rate_limit_text StatusTooManyRequests, w1)) = (answer, w2)"
    and "duration = f_mul (duration_Seconds (saturate64 (t_ns (clock_of c w2) - t_ns (clock_of c w0)))) 1000"
  shows "run_state (NewRouter chi dflt cfg r) s =
    (answer\<lparr>resp_header := gomap_update (canonical_key True RequestIDHeader) rid (resp_header answer)\<rparr>,
     s\<lparr>api_world := ticked c w2, api_bucket := tb,
       api_log := api_log s @ [\<lparr>line_level = LevelInfo, line_msg = ''http request'',
         line_attrs = log_attrs (rt_Logger cfg) @ [(''method'', LString (req_Method r)), (''path'', LString (req_Path r)),
           (''status'', LInt (resp_status answer)), (''duration_ms'', LFloat duration), (''request_id'', LString rid)]\<rparr>]\<rparr>)"
  using assms
  by (auto simp: NewRouter_def RequestID_def middleware_Logger_def RateLimit_def request_id_in_def identified_def LogRequest_def
      log_at_def GetRequestID_def WithRequestID_def run_simps Let_def split: if_splits intro!: api_state.equality)


definition sample_router :: "memory RouterConfig" where
  "sample_router = \<lparr>rt_Queue = mem_queue, rt_Logger = logging_New (logging_DefaultConfig ''api''), RateLimitRate = 100\<rparr>"

definition sample_api :: "memory api_state" where
  "sample_api = \<lparr>api_world = mem_with empty_db, api_bucket = newTokenBucket (Time 0 0) 100, api_log = []\<rparr>"


end
