(* ===== verification/Database.thy ===== *)
theory Database
  imports Job Go_Float
begin

text \<open>
  The job history in PostgreSQL (\<open>internal/database\<close>): the connection settings of \<open>postgres.go\<close> and the
  repository of \<open>repository.go\<close>. pgx and the server are not part of the program: they are the operations of
  a record, with the laws that the theorems need in the locale \<open>job_table\<close>.
\<close>

section \<open>Statements and values\<close>

datatype pg_value = PGNull | PGText string | PGInt int | PGBytes string | PGTime gotime | PGFloat rat

text \<open>
  The statements of the repository: the insertion with the columns that a conflict updates, the selection by
  identifier, the selection with the text that follows \<open>WHERE 1=1\<close>, and the four of the statistics.
\<close>

datatype pg_stmt = UpsertJobs "string list" | SelectJob | SelectJobs string
  | CountJobs | CountByStatus | CountByType | AvgDuration

record pool_config =
  pc_MaxConns :: int
  pc_MinConns :: int
  pc_MaxConnLifetime :: int
  pc_MaxConnIdleTime :: int
  pc_HealthCheckPeriod :: int

text \<open>
  pgx: \<open>Query\<close> gives the rows that were read and the error, if any, that ended the reading (\<open>rows.Err()\<close>).
\<close>

record 'p pg_env =
  pgx_ParseConfig :: "string \<Rightarrow> goerror + pool_config"
  pgx_NewWithConfig :: "string \<Rightarrow> pool_config \<Rightarrow> ('p, goerror + unit) state"
  pgx_New :: "string \<Rightarrow> ('p, goerror + unit) state"
  pgx_Close :: "('p, unit) state"
  pgx_Ping :: "('p, goerror option) state"
  pgx_Exec :: "pg_stmt \<Rightarrow> pg_value list \<Rightarrow> ('p, goerror option) state"
  pgx_Query :: "pg_stmt \<Rightarrow> pg_value list \<Rightarrow> ('p, goerror + pg_value list list \<times> goerror option) state"
  pgx_QueryRow :: "pg_stmt \<Rightarrow> pg_value list \<Rightarrow> ('p, goerror + pg_value list) state"
  pg_time_Now :: "('p, gotime) state"

definition ErrNoRows :: goerror where "ErrNoRows = Sentinel ''no rows in result set''"

section \<open>The connection\<close>

record database_Config =
  db_Host :: string
  db_Port :: int
  db_User :: string
  db_Password :: string
  db_Database :: string
  db_SSLMode :: string
  db_MaxConns :: int
  db_MinConns :: int
  db_MaxConnLifetime :: int
  db_MaxConnIdleTime :: int
  db_HealthCheckPeriod :: int

definition database_DefaultConfig :: database_Config where
  "database_DefaultConfig = \<lparr>db_Host = ''localhost'', db_Port = 5432, db_User = ''titan'', db_Password = [],
     db_Database = ''titan'', db_SSLMode = ''disable'', db_MaxConns = 25, db_MinConns = 5, db_MaxConnLifetime = hour,
     db_MaxConnIdleTime = 30 * minute, db_HealthCheckPeriod = minute\<rparr>"

definition DSN :: "database_Config \<Rightarrow> string" where
  "DSN c = ''postgres://'' @ db_User c @ '':'' @ db_Password c @ ''@'' @ db_Host c @ '':'' @ format_int (db_Port c) @
     ''/'' @ db_Database c @ ''?sslmode='' @ db_SSLMode c"

record 'p Pool =
  pool_env :: "'p pg_env"
  pool_cfg :: database_Config

definition NewPool :: "'p pg_env \<Rightarrow> database_Config \<Rightarrow> ('p, goerror + 'p Pool) state" where
  "NewPool e cfg =
    or_return (ret (pgx_ParseConfig e (DSN cfg))) (Wrapf ''database: failed to parse config'') (\<lambda>pc.
    let pc = pc\<lparr>pc_MaxConns := db_MaxConns cfg, pc_MinConns := db_MinConns cfg,
           pc_MaxConnLifetime := db_MaxConnLifetime cfg, pc_MaxConnIdleTime := db_MaxConnIdleTime cfg,
           pc_HealthCheckPeriod := db_HealthCheckPeriod cfg\<rparr>
    in or_return (pgx_NewWithConfig e (DSN cfg) pc) (Wrapf ''database: failed to create pool'') (\<lambda>_. do {
         err \<leftarrow> pgx_Ping e;
         case err of
           Some err \<Rightarrow> do { pgx_Close e; ret (Inl (Wrapf ''database: failed to ping'' err)) }
         | None \<Rightarrow> ret (Inr \<lparr>pool_env = e, pool_cfg = cfg\<rparr>)
       }))"

definition pool_Close :: "'p Pool \<Rightarrow> ('p, unit) state" where
  "pool_Close p = pgx_Close (pool_env p)"

definition pool_IsHealthy :: "'p Pool \<Rightarrow> ('p, bool) state" where
  "pool_IsHealthy p = do { err \<leftarrow> pgx_Ping (pool_env p); ret (err = None) }"

section \<open>Saving jobs\<close>

definition job_columns :: "string list" where
  "job_columns = [''id'', ''type'', ''payload'', ''priority'', ''status'', ''attempts'', ''max_retries'', ''created_at'',
     ''scheduled_at'', ''started_at'', ''completed_at'', ''error'', ''result'', ''metadata'', ''unique_key'']"

text \<open>A nil slice, a nil pointer and an absent value are \<open>NULL\<close>.\<close>

definition pg_bytes :: "string option \<Rightarrow> pg_value" where
  "pg_bytes b = (case b of None \<Rightarrow> PGNull | Some s \<Rightarrow> PGBytes s)"

definition metadata_json :: "Job \<Rightarrow> string" where
  "metadata_json j = json_text (case Metadata j of None \<Rightarrow> JNull | Some m \<Rightarrow> encode_map m)"

definition scheduled_arg :: "Job \<Rightarrow> pg_value" where
  "scheduled_arg j = (if time_IsZero (ScheduledAt j) then PGNull else PGTime (ScheduledAt j))"

definition unique_arg :: "Job \<Rightarrow> pg_value" where
  "unique_arg j = (if UniqueKey j = [] then PGNull else PGText (UniqueKey j))"

definition exec_upsert :: "'p Pool \<Rightarrow> string \<Rightarrow> string list \<Rightarrow> pg_value list \<Rightarrow> ('p, goerror + unit) state" where
  "exec_upsert p what cols args = do {
     err \<leftarrow> pgx_Exec (pool_env p) (UpsertJobs cols) args;
     ret (case err of Some e \<Rightarrow> Inl (Wrapf what e) | None \<Rightarrow> Inr ())
   }"

text \<open>\<open>startedAt\<close> and \<open>completedAt\<close> are declared and never set: both are nil.\<close>

definition repo_Save :: "'p Pool \<Rightarrow> Job \<Rightarrow> ('p, goerror + unit) state" where
  "repo_Save p j =
    (let errStr = (if LastError j = [] then PGNull else PGText (LastError j))
     in exec_upsert p ''repository save''
          [''status'', ''attempts'', ''started_at'', ''completed_at'', ''error'', ''result'', ''metadata'']
          [PGText (ID j), PGText (Type j), pg_bytes (Payload j), PGInt (Priority j), PGText (Status_String (Status j)),
           PGInt (Attempts j), PGInt (MaxRetries j), PGTime (CreatedAt j), scheduled_arg j,
           PGNull, PGNull, errStr, pg_bytes (Result j), PGBytes (metadata_json j), unique_arg j])"

definition SaveCompleted :: "'p Pool \<Rightarrow> Job \<Rightarrow> string option \<Rightarrow> ('p, goerror + unit) state" where
  "SaveCompleted p j result = do {
     t \<leftarrow> pg_time_Now (pool_env p);
     let t = time_UTC t;
     exec_upsert p ''repository save completed''
       [''status'', ''attempts'', ''completed_at'', ''result'', ''metadata'']
       [PGText (ID j), PGText (Type j), pg_bytes (Payload j), PGInt (Priority j), PGText ''completed'',
        PGInt (Attempts j), PGInt (MaxRetries j), PGTime (CreatedAt j), scheduled_arg j,
        PGTime (UpdatedAt j), PGTime t, PGNull, pg_bytes result, PGBytes (metadata_json j), unique_arg j]
   }"

definition SaveFailed :: "'p Pool \<Rightarrow> Job \<Rightarrow> string \<Rightarrow> ('p, goerror + unit) state" where
  "SaveFailed p j errMsg = do {
     t \<leftarrow> pg_time_Now (pool_env p);
     let t = time_UTC t;
     let status = (if Status j = StatusDead then ''dead'' else ''failed'');
     exec_upsert p ''repository save failed''
       [''status'', ''attempts'', ''completed_at'', ''error'', ''metadata'']
       [PGText (ID j), PGText (Type j), pg_bytes (Payload j), PGInt (Priority j), PGText status,
        PGInt (Attempts j), PGInt (MaxRetries j), PGTime (CreatedAt j), scheduled_arg j,
        PGTime (UpdatedAt j), PGTime t, PGText errMsg, PGNull, PGBytes (metadata_json j), unique_arg j]
   }"

section \<open>Reading jobs\<close>

record JobRecord =
  jr_ID :: string
  jr_Type :: string
  jr_Payload :: "string option"
  jr_Priority :: int
  jr_Status :: string
  jr_Attempts :: int
  jr_MaxRetries :: int
  jr_CreatedAt :: gotime
  jr_ScheduledAt :: "gotime option"
  jr_StartedAt :: "gotime option"
  jr_CompletedAt :: "gotime option"
  jr_Error :: "string option"
  jr_Result :: "string option"
  jr_Metadata :: "gomap option"
  jr_UniqueKey :: "string option"

text \<open>\<open>row.Scan\<close> into a column's type: \<open>NULL\<close> only fits pointers and slices.\<close>

definition scan_error :: goerror where "scan_error = Extern ''can't scan into dest''"

fun scan_text :: "pg_value \<Rightarrow> goerror + string" where
  "scan_text (PGText s) = Inr s"
| "scan_text _ = Inl scan_error"

fun scan_int :: "pg_value \<Rightarrow> goerror + int" where
  "scan_int (PGInt n) = Inr n"
| "scan_int _ = Inl scan_error"

fun scan_time :: "pg_value \<Rightarrow> goerror + gotime" where
  "scan_time (PGTime t) = Inr t"
| "scan_time _ = Inl scan_error"

fun scan_bytes :: "pg_value \<Rightarrow> goerror + string option" where
  "scan_bytes PGNull = Inr None"
| "scan_bytes (PGBytes s) = Inr (Some s)"
| "scan_bytes _ = Inl scan_error"

definition scan_opt :: "(pg_value \<Rightarrow> goerror + 'a) \<Rightarrow> pg_value \<Rightarrow> goerror + 'a option" where
  "scan_opt f v = (if v = PGNull then Inr None else map_sum id Some (f v))"

definition bind_sum :: "'e + 'a \<Rightarrow> ('a \<Rightarrow> 'e + 'b) \<Rightarrow> 'e + 'b" where
  "bind_sum x f = (case x of Inl e \<Rightarrow> Inl e | Inr a \<Rightarrow> f a)"

lemma bind_sum_simps [simp]: "bind_sum (Inl e) f = Inl e" "bind_sum (Inr a) f = f a"
  by (simp_all add: bind_sum_def)

definition scan_row :: "pg_value list \<Rightarrow> goerror + JobRecord \<times> string option" where
  "scan_row row =
    (case row of
       [vid, vtype, vpayload, vpriority, vstatus, vattempts, vmax, vcreated, vscheduled, vstarted, vcompleted, verror,
        vresult, vmetadata, vunique] \<Rightarrow>
         bind_sum (scan_text vid) (\<lambda>i. bind_sum (scan_text vtype) (\<lambda>t. bind_sum (scan_bytes vpayload) (\<lambda>p.
         bind_sum (scan_int vpriority) (\<lambda>n. bind_sum (scan_text vstatus) (\<lambda>s. bind_sum (scan_int vattempts) (\<lambda>a.
         bind_sum (scan_int vmax) (\<lambda>m. bind_sum (scan_time vcreated) (\<lambda>c. bind_sum (scan_opt scan_time vscheduled) (\<lambda>sc.
         bind_sum (scan_opt scan_time vstarted) (\<lambda>st. bind_sum (scan_opt scan_time vcompleted) (\<lambda>co.
         bind_sum (scan_opt scan_text verror) (\<lambda>e. bind_sum (scan_bytes vresult) (\<lambda>r. bind_sum (scan_bytes vmetadata) (\<lambda>md.
         bind_sum (scan_opt scan_text vunique) (\<lambda>u.
         Inr (\<lparr>jr_ID = i, jr_Type = t, jr_Payload = p, jr_Priority = n, jr_Status = s, jr_Attempts = a, jr_MaxRetries = m,
           jr_CreatedAt = c, jr_ScheduledAt = sc, jr_StartedAt = st, jr_CompletedAt = co, jr_Error = e, jr_Result = r,
           jr_Metadata = None, jr_UniqueKey = u\<rparr>, md))))))))))))))))
     | _ \<Rightarrow> Inl scan_error)"

definition scanJob :: "goerror + pg_value list \<Rightarrow> goerror + JobRecord" where
  "scanJob row =
    (case bind_sum row scan_row of
       Inl err \<Rightarrow> Inl (if err = ErrNoRows then Errorf ''job not found'' else Wrapf ''repository scan'' err)
     | Inr (j, metadataJSON) \<Rightarrow>
        (case metadataJSON of
           None \<Rightarrow> Inr j
         | Some s \<Rightarrow>
            (case (case json_parse s of None \<Rightarrow> Inl syntax_error | Some v \<Rightarrow> decode_map (jr_Metadata j) v) of
               Inl err \<Rightarrow> Inl (Wrapf ''repository scan: failed to unmarshal metadata'' err)
             | Inr m \<Rightarrow> Inr (j\<lparr>jr_Metadata := m\<rparr>))))"

definition GetByID :: "'p Pool \<Rightarrow> string \<Rightarrow> ('p, goerror + JobRecord) state" where
  "GetByID p i = do { row \<leftarrow> pgx_QueryRow (pool_env p) SelectJob [PGText i]; ret (scanJob row) }"

record ListFilter =
  lf_Status :: string
  lf_Type :: string
  StartDate :: "gotime option"
  EndDate :: "gotime option"
  lf_Limit :: int
  lf_Offset :: int

text \<open>The query grows by one condition at a time, with the number of its argument.\<close>

definition add_condition :: "bool \<Rightarrow> string \<Rightarrow> pg_value \<Rightarrow> string \<times> pg_value list \<times> int \<Rightarrow> string \<times> pg_value list \<times> int" where
  "add_condition present txt arg s =
    (case s of (query, args, argIdx) \<Rightarrow>
       if present then (query @ txt @ format_int argIdx, args @ [arg], argIdx + 1) else s)"

definition list_query :: "ListFilter \<Rightarrow> string \<times> pg_value list" where
  "list_query f =
    (let s = ([], [], 1);
         s = add_condition (lf_Status f \<noteq> []) '' AND status = $'' (PGText (lf_Status f)) s;
         s = add_condition (lf_Type f \<noteq> []) '' AND type = $'' (PGText (lf_Type f)) s;
         s = add_condition (StartDate f \<noteq> None) '' AND created_at >= $'' (PGTime (the (StartDate f))) s;
         s = add_condition (EndDate f \<noteq> None) '' AND created_at <= $'' (PGTime (the (EndDate f))) s;
         s = (fst s @ '' ORDER BY created_at DESC'', snd s);
         s = add_condition (lf_Limit f > 0) '' LIMIT $'' (PGInt (lf_Limit f)) s;
         s = add_condition (lf_Offset f > 0) '' OFFSET $'' (PGInt (lf_Offset f)) s
     in (fst s, fst (snd s)))"

fun scan_each :: "pg_value list list \<Rightarrow> goerror + JobRecord list" where
  "scan_each [] = Inr []"
| "scan_each (row # rows) = bind_sum (scanJob (Inr row)) (\<lambda>j. map_sum id ((#) j) (scan_each rows))"

text \<open>The loop over the rows ends when there are no more, whatever the reason: \<open>rows.Err()\<close> is not asked for.\<close>

definition repo_List :: "'p Pool \<Rightarrow> ListFilter \<Rightarrow> ('p, goerror + JobRecord list) state" where
  "repo_List p f =
    (case list_query f of (query, args) \<Rightarrow> do {
       r \<leftarrow> pgx_Query (pool_env p) (SelectJobs query) args;
       case r of
         Inl err \<Rightarrow> ret (Inl (Wrapf ''repository list'' err))
       | Inr (rows, rows_Err) \<Rightarrow> ret (scan_each rows)
     })"

section \<open>Statistics\<close>

record JobStats =
  TotalCount :: int
  StatusCounts :: "string \<Rightarrow> int option"
  TypeCounts :: "string \<Rightarrow> int option"
  AvgDurationMs :: rat
  SuccessRate :: rat

fun count_each :: "pg_value list list \<Rightarrow> (string \<Rightarrow> int option) \<Rightarrow> goerror + (string \<Rightarrow> int option)" where
  "count_each [] m = Inr m"
| "count_each (row # rows) m =
    (case row of
       [k, n] \<Rightarrow> bind_sum (scan_text k) (\<lambda>k. bind_sum (scan_int n) (\<lambda>n. count_each rows (m(k \<mapsto> n))))
     | _ \<Rightarrow> Inl scan_error)"

definition group_counts :: "'p Pool \<Rightarrow> pg_stmt \<Rightarrow> ('p, goerror + (string \<Rightarrow> int option)) state" where
  "group_counts p stmt = do {
     r \<leftarrow> pgx_Query (pool_env p) stmt [];
     ret (case r of Inl err \<Rightarrow> Inl err | Inr (rows, rows_Err) \<Rightarrow> count_each rows (\<lambda>_. None))
   }"

definition count_of :: "(string \<Rightarrow> int option) \<Rightarrow> string \<Rightarrow> int" where
  "count_of m k = (case m k of None \<Rightarrow> 0 | Some n \<Rightarrow> n)"

definition success_rate :: "(string \<Rightarrow> int option) \<Rightarrow> rat" where
  "success_rate m =
    (let completed = count_of m ''completed'';
         failed = i64 (count_of m ''failed'' + count_of m ''dead'');
         total = i64 (completed + failed)
     in if total > 0 then f_mul (f_div (f_of_int completed) (f_of_int total)) 100 else 0)"

definition repo_GetStats :: "'p Pool \<Rightarrow> ('p, goerror + JobStats) state" where
  "repo_GetStats p = do {
     total \<leftarrow> pgx_QueryRow (pool_env p) CountJobs [];
     let total = bind_sum total (\<lambda>row. case row of [n] \<Rightarrow> scan_int n | _ \<Rightarrow> Inl scan_error);
     or_return (ret total) (Wrapf ''repository stats'') (\<lambda>totalCount.
     or_return (group_counts p CountByStatus) (Wrapf ''repository stats'') (\<lambda>statusCounts.
     or_return (group_counts p CountByType) (Wrapf ''repository stats'') (\<lambda>typeCounts. do {
       avg \<leftarrow> pgx_QueryRow (pool_env p) AvgDuration [];
       let avg = bind_sum avg (\<lambda>row. case row of [PGFloat x] \<Rightarrow> Inr x | _ \<Rightarrow> Inl scan_error);
       or_return (ret avg) (Wrapf ''repository stats'') (\<lambda>avgDurationMs.
       ret (Inr \<lparr>TotalCount = totalCount, StatusCounts = statusCounts, TypeCounts = typeCounts,
         AvgDurationMs = avgDurationMs, SuccessRate = success_rate statusCounts\<rparr>))
     })))
   }"

end
