(* ===== verification/Database_Theorems.thy ===== *)
theory Database_Theorems
  imports Database
begin

text \<open>
  What the repository sends and returns: the numbering of the arguments of a listing, the rows that saving
  leaves in a table that behaves as PostgreSQL documents, and the bounds of the statistics.
\<close>

section \<open>The arguments of a listing\<close>

fun numbered :: "int \<Rightarrow> (string \<times> pg_value) list \<Rightarrow> string" where
  "numbered i [] = []"
| "numbered i ((t, _) # cs) = t @ format_int i @ numbered (i + 1) cs"

definition conditions :: "ListFilter \<Rightarrow> (string \<times> pg_value) list" where
  "conditions f =
    (if lf_Status f \<noteq> [] then [('' AND status = $'', PGText (lf_Status f))] else []) @
    (if lf_Type f \<noteq> [] then [('' AND type = $'', PGText (lf_Type f))] else []) @
    (case StartDate f of None \<Rightarrow> [] | Some t \<Rightarrow> [('' AND created_at >= $'', PGTime t)]) @
    (case EndDate f of None \<Rightarrow> [] | Some t \<Rightarrow> [('' AND created_at <= $'', PGTime t)])"

definition paging :: "ListFilter \<Rightarrow> (string \<times> pg_value) list" where
  "paging f =
    (if lf_Limit f > 0 then [('' LIMIT $'', PGInt (lf_Limit f))] else []) @
    (if lf_Offset f > 0 then [('' OFFSET $'', PGInt (lf_Offset f))] else [])"

text \<open>The query of a listing is its conditions, the order and the page, with their arguments numbered from one in
  the order in which they are passed: every placeholder stands for the value of its own condition.\<close>

theorem list_query_numbered:
  "list_query f =
    (numbered 1 (conditions f) @ '' ORDER BY created_at DESC'' @ numbered (1 + int (length (conditions f))) (paging f),
     map snd (conditions f @ paging f))"
  by (cases "lf_Status f = []"; cases "lf_Type f = []"; cases "StartDate f"; cases "EndDate f"; cases "lf_Limit f > 0"; cases "lf_Offset f > 0")
    (simp_all add: list_query_def add_condition_def conditions_def paging_def Let_def)

section \<open>The success rate\<close>

text \<open>The success rate is a percentage: between 0 and 100 for counts that are not negative and whose sum fits, whatever
  the rounding, and 100 when nothing failed.\<close>

theorem success_rate_bounds:
  assumes "0 \<le> count_of m ''completed''" "0 \<le> count_of m ''failed''" "0 \<le> count_of m ''dead''"
    and "count_of m ''completed'' + count_of m ''failed'' + count_of m ''dead'' < 2 ^ 63"
  shows "0 \<le> success_rate m \<and> success_rate m \<le> 100 \<and>
    (count_of m ''failed'' + count_of m ''dead'' = 0 \<and> 0 < count_of m ''completed'' \<longrightarrow> success_rate m = 100)"
proof -
  define c where "c = count_of m ''completed''"
  define d where "d = count_of m ''failed'' + count_of m ''dead''"
  have cd: "0 \<le> c" "0 \<le> d" "c + d < 2 ^ 63" using assms by (simp_all add: c_def d_def)
  then have "i64 d = d" "i64 (c + d) = c + d" by (simp_all add: int64_range_def)
  then have r: "success_rate m = (if c + d > 0 then f_mul (f_div (f_of_int c) (f_of_int (c + d))) 100 else 0)"
    by (simp add: success_rate_def Let_def c_def d_def)
  have "f_of_int c / f_of_int (c + d) \<le> 1" "0 \<le> f_of_int c / f_of_int (c + d)" "d = 0 \<longrightarrow> f_of_int c / f_of_int (c + d) = 1"
    if "0 < c + d"
  proof -
    have "1 \<le> rat_of_int (c + d)" using that by (simp only: of_int_1_le_iff)
    then have "f_round 1 \<le> f_of_int (c + d)" unfolding f_of_int_def by (intro f_round_mono) simp_all
    then have pos: "0 < f_of_int (c + d)" using f_round_of_int [of 1] by simp
    have "f_of_int c \<le> f_of_int (c + d)" using cd unfolding f_of_int_def by (intro f_round_mono) simp_all
    moreover have "0 \<le> f_of_int c" using cd by (simp add: f_of_int_def f_round_nonneg)
    ultimately show "f_of_int c / f_of_int (c + d) \<le> 1" "0 \<le> f_of_int c / f_of_int (c + d)"
      "d = 0 \<longrightarrow> f_of_int c / f_of_int (c + d) = 1" using pos by auto
  qed
  note q = this
  have "0 \<le> f_round x" "f_round x \<le> 1" if "0 \<le> x" "x \<le> 1" for x
    using f_round_nonneg [OF that(1)] f_round_mono [OF that] f_round_of_int [of 1] by simp_all
  moreover have "0 \<le> f_round (x * 100)" "f_round (x * 100) \<le> 100" if "0 \<le> x" "x \<le> 1" for x
    using f_round_nonneg [of "x * 100"] f_round_mono [of "x * 100" 100] f_round_of_int [of 100] that by simp_all
  ultimately show ?thesis
    using q cd f_round_of_int [of 1] f_round_of_int [of 100] by (auto simp: r f_mul_def f_div_def c_def [symmetric] d_def [symmetric])
qed

theorem success_rate_bounds_witness:
  "success_rate (\<lambda>k. if k = ''completed'' then Some 7 else None) = 100"
  using success_rate_bounds [of "\<lambda>k. if k = ''completed'' then Some 7 else None"] by (simp add: count_of_def)

section \<open>The contract of the table\<close>

text \<open>
  A row is the value of every column. The server may store another form of a value: a canonical
  identifier, a timestamp in microseconds, a JSON document without its layout; \<open>canon\<close> gives that form. Texts and
  numbers are stored as they are, and so is \<open>NULL\<close>. A statement that fails changes nothing.
\<close>

type_synonym pg_row = "string \<Rightarrow> pg_value"

definition arg_of :: "pg_value list \<Rightarrow> pg_row" where
  "arg_of args col = (case map_of (zip job_columns args) col of None \<Rightarrow> PGNull | Some v \<Rightarrow> v)"

definition upserted :: "(string \<Rightarrow> pg_value \<Rightarrow> pg_value) \<Rightarrow> string list \<Rightarrow> pg_value list \<Rightarrow> pg_row option \<Rightarrow> pg_row" where
  "upserted canon cols args old col =
    (case old of
       Some r \<Rightarrow> if col \<in> set cols then canon col (arg_of args col) else r col
     | None \<Rightarrow> canon col (arg_of args col))"

locale job_table =
  fixes p :: "'p Pool"
    and rows :: "'p \<Rightarrow> string \<Rightarrow> pg_row option"
    and canon :: "string \<Rightarrow> pg_value \<Rightarrow> pg_value"
  assumes upsert: "length args = 15 \<Longrightarrow> canon ''id'' (hd args) = PGText i \<Longrightarrow>
      run_state (pgx_Exec (pool_env p) (UpsertJobs cols) args) s = (None, s') \<Longrightarrow>
      rows s' = (rows s)(i \<mapsto> upserted canon cols args (rows s i))"
    and upsert_error: "run_state (pgx_Exec (pool_env p) (UpsertJobs cols) args) s = (Some e, s') \<Longrightarrow> rows s' = rows s"
    and select: "canon ''id'' (PGText i) = PGText k \<Longrightarrow>
      run_state (pgx_QueryRow (pool_env p) SelectJob [PGText i]) s = (Inr row, s') \<Longrightarrow>
      rows s' = rows s \<and> (\<exists>r. rows s k = Some r \<and> row = map r job_columns)"
    and now_rows: "run_state (pg_time_Now (pool_env p)) s = (t, s') \<Longrightarrow> rows s' = rows s"
    and canon_scalar: "canon col (PGInt n) = PGInt n" "col \<noteq> ''id'' \<Longrightarrow> canon col (PGText x) = PGText x" "canon col PGNull = PGNull"
    and canon_time: "\<exists>t'. canon col (PGTime t) = PGTime t'"
begin

text \<open>What is known of a row once a statement of the repository has written it.\<close>

lemma exec_upsert_rows:
  assumes "run_state (exec_upsert p what cols args) s = (Inr (), s')" "length args = 15" "canon ''id'' (hd args) = PGText i"
  shows "rows s' = (rows s)(i \<mapsto> upserted canon cols args (rows s i))"
proof -
  obtain e s1 where e: "run_state (pgx_Exec (pool_env p) (UpsertJobs cols) args) s = (e, s1)" by (rule prod.exhaust)
  then have "e = None" "s1 = s'" using assms(1) by (auto simp: exec_upsert_def run_simps split: option.splits)
  then show ?thesis using upsert [OF assms(2,3)] e by simp
qed

lemma repo_Save_rows:
  assumes "run_state (repo_Save p j) s = (Inr (), s')" "canon ''id'' (PGText (ID j)) = PGText i"
  shows "\<exists>r. rows s' = (rows s)(i \<mapsto> r) \<and> r ''status'' = PGText (Status_String (Status j)) \<and> r ''attempts'' = PGInt (Attempts j) \<and>
    r ''started_at'' = PGNull \<and> r ''completed_at'' = PGNull \<and>
    (\<forall>old. rows s i = Some old \<longrightarrow> (\<forall>col \<in> {''id'', ''type'', ''payload'', ''priority'', ''max_retries'', ''created_at'', ''scheduled_at'', ''unique_key''}.
       r col = old col))"
proof -
  note rows = exec_upsert_rows [OF assms(1) [unfolded repo_Save_def Let_def], of i]
  show ?thesis using assms(2)
    by (intro exI conjI) (rule rows, auto simp: upserted_def arg_of_def job_columns_def canon_scalar split: option.splits)
qed

lemma SaveCompleted_rows:
  assumes "run_state (SaveCompleted p j result) s = (Inr (), s')" "canon ''id'' (PGText (ID j)) = PGText i"
  shows "\<exists>r t. rows s' = (rows s)(i \<mapsto> r) \<and> r ''status'' = PGText ''completed'' \<and> r ''attempts'' = PGInt (Attempts j) \<and>
    r ''completed_at'' = PGTime t \<and> r ''result'' = canon ''result'' (pg_bytes result)"
proof -
  obtain t s1 where t: "run_state (pg_time_Now (pool_env p)) s = (t, s1)" by (rule prod.exhaust)
  have run: "run_state (exec_upsert p ''repository save completed'' [''status'', ''attempts'', ''completed_at'', ''result'', ''metadata'']
      [PGText (ID j), PGText (Type j), pg_bytes (Payload j), PGInt (Priority j), PGText ''completed'',
       PGInt (Attempts j), PGInt (MaxRetries j), PGTime (CreatedAt j), scheduled_arg j, PGTime (UpdatedAt j),
       PGTime (time_UTC t), PGNull, pg_bytes result, PGBytes (metadata_json j), unique_arg j]) s1 = (Inr (), s')"
    using assms(1) by (simp add: SaveCompleted_def run_simps t)
  obtain t' where t': "canon ''completed_at'' (PGTime (time_UTC t)) = PGTime t'" using canon_time by blast
  show ?thesis using exec_upsert_rows [OF run, of i] assms(2) now_rows [OF t]
    by (intro exI conjI) (simp, auto simp: upserted_def arg_of_def job_columns_def canon_scalar t' split: option.splits)
qed

lemma GetByID_rows:
  assumes "run_state (GetByID p i) s = (Inr rec, s')" "canon ''id'' (PGText i) = PGText k"
  shows "\<exists>r. rows s k = Some r \<and> PGText (jr_Status rec) = r ''status'' \<and> PGInt (jr_Attempts rec) = r ''attempts'' \<and>
    scan_opt scan_time (r ''started_at'') = Inr (jr_StartedAt rec) \<and> scan_opt scan_time (r ''completed_at'') = Inr (jr_CompletedAt rec) \<and>
    scan_bytes (r ''result'') = Inr (jr_Result rec)"
proof -
  obtain row s1 where row: "run_state (pgx_QueryRow (pool_env p) SelectJob [PGText i]) s = (row, s1)" by (rule prod.exhaust)
  then have "scanJob row = Inr rec" using assms(1) by (auto simp: GetByID_def run_simps)
  then obtain vs md rec0 where vs: "row = Inr vs" "scan_row vs = Inr (rec0, md)"
    "\<exists>m. rec = rec0\<lparr>jr_Metadata := m\<rparr>"
    by (cases row; auto simp: scanJob_def bind_sum_def split: sum.splits option.splits if_splits)
       (metis JobRecord.surjective JobRecord.update_convs(14))+
  then obtain r where r: "rows s k = Some r" "vs = map r job_columns" using select [OF assms(2)] row by blast
  show ?thesis using vs(2,3) r
    by (auto simp: job_columns_def scan_row_def bind_sum_def split: sum.splits elim!: scan_text.elims scan_int.elims)
qed

end

section \<open>The history of a job\<close>


subsection \<open>A table in memory\<close>

text \<open>A table that stores every value as it is passed and takes every statement of the repository.\<close>

type_synonym mem_table = "string \<Rightarrow> pg_row option"

fun table_exec :: "pg_stmt \<Rightarrow> pg_value list \<Rightarrow> mem_table \<Rightarrow> goerror option \<times> mem_table" where
  "table_exec (UpsertJobs cols) (PGText i # args) T =
    (None, T(i \<mapsto> upserted (\<lambda>_ v. v) cols (PGText i # args) (T i)))"
| "table_exec _ _ T = (Some (Extern ''syntax error''), T)"

fun table_row :: "pg_stmt \<Rightarrow> pg_value list \<Rightarrow> mem_table \<Rightarrow> goerror + pg_value list" where
  "table_row SelectJob [PGText i] T = (case T i of None \<Rightarrow> Inl ErrNoRows | Some r \<Rightarrow> Inr (map r job_columns))"
| "table_row _ _ T = Inl ErrNoRows"

definition table_env :: "mem_table pg_env" where
  "table_env = \<lparr>
     pgx_ParseConfig = (\<lambda>_. Inr \<lparr>pc_MaxConns = 4, pc_MinConns = 0, pc_MaxConnLifetime = hour, pc_MaxConnIdleTime = 30 * minute,
       pc_HealthCheckPeriod = minute\<rparr>),
     pgx_NewWithConfig = (\<lambda>_ _. ret (Inr ())), pgx_New = (\<lambda>_. ret (Inr ())), pgx_Close = ret (), pgx_Ping = ret None,
     pgx_Exec = (\<lambda>stmt args. State (table_exec stmt args)),
     pgx_Query = (\<lambda>stmt args. ret (Inr ([], None))),
     pgx_QueryRow = (\<lambda>stmt args. State (\<lambda>T. (table_row stmt args T, T))),
     pg_time_Now = ret (Time (1700000000 * second) 0)\<rparr>"

definition table_pool :: "mem_table Pool" where
  "table_pool = \<lparr>pool_env = table_env, pool_cfg = database_DefaultConfig\<rparr>"

interpretation mem_jobs: job_table table_pool "\<lambda>T. T" "\<lambda>_ v. v"
proof
  show "s' = s(i \<mapsto> upserted (\<lambda>_ v. v) cols args (s i))"
    if "length args = 15" "hd args = PGText i" "run_state (pgx_Exec (pool_env table_pool) (UpsertJobs cols) args) s = (None, s')"
    for args i cols s s'
    using that by (cases args) (auto simp: table_pool_def table_env_def)
  show "s' = s" if "run_state (pgx_Exec (pool_env table_pool) (UpsertJobs cols) args) s = (Some e, s')" for cols args s e s'
    using that by (auto simp: table_pool_def table_env_def elim: table_exec.elims)
qed (auto simp: table_pool_def table_env_def run_simps split: option.splits)

definition history_job :: Job where
  "history_job = sample_job\<lparr>Status := StatusCompleted, Metadata := None\<rparr>"

lemma history_job_simps [simp]: "Metadata history_job = None" "Status history_job = StatusCompleted"
  by (simp_all add: history_job_def)

lemma json_parse_null: "json_parse ''null'' = Some JNull"
  using json_parse_text [of JNull] by simp

lemmas table_simps = table_pool_def table_env_def run_simps upserted_def arg_of_def job_columns_def GetByID_def scanJob_def scan_row_def
  scan_opt_def exec_upsert_def pg_bytes_def scheduled_arg_def unique_arg_def metadata_json_def decode_map_def json_parse_null

definition table_completed :: mem_table where
  "table_completed = snd (run_state (SaveCompleted table_pool history_job None) (\<lambda>_. None))"

definition table_saved :: mem_table where
  "table_saved = snd (run_state (repo_Save table_pool history_job) table_completed)"

lemma table_saves:
  "run_state (SaveCompleted table_pool history_job None) (\<lambda>_. None) = (Inr (), table_completed)"
  "run_state (repo_Save table_pool history_job) table_completed = (Inr (), table_saved)"
  by (simp_all add: table_completed_def table_saved_def SaveCompleted_def repo_Save_def table_simps)

lemma table_reads:
  "\<exists>rec. run_state (GetByID table_pool (ID history_job)) table_completed = (Inr rec, table_completed)"
  "\<exists>rec. run_state (GetByID table_pool (ID history_job)) table_saved = (Inr rec, table_saved)"
  by (auto simp: table_completed_def table_saved_def SaveCompleted_def repo_Save_def table_simps split: option.splits)


end
