(* ===== verification/Health.thy ===== *)
theory Health
  imports Redis_Memory Database
begin

text \<open>
  Health checks (\<open>internal/health\<close>): the checkers of \<open>checks.go\<close>, the registry of checkers and the answers of
  \<open>health.go\<close>. The checkers of a readiness check run at the same time; the order in which they happen to run is
  an argument here.
\<close>

section \<open>Durations as text\<close>

text \<open>\<open>Duration.String()\<close>: the fraction of \<open>v\<close> in units of \<open>10 ^ prec\<close>, without trailing zeros.\<close>

definition fraction_text :: "nat \<Rightarrow> nat \<Rightarrow> string" where
  "fraction_text v prec =
    (let ds = rev (dropWhile (\<lambda>c. c = CHR ''0'') (map (\<lambda>i. digit_char (v div 10 ^ i mod 10)) [0..<prec]))
     in if ds = [] then [] else CHR ''.'' # ds)"

definition duration_String :: "int \<Rightarrow> string" where
  "duration_String d =
    (let u = nat \<bar>d\<bar>;
         part = (\<lambda>prec suffix. format_nat (u div 10 ^ prec) @ fraction_text u prec @ suffix);
         body =
           (if u = 0 then ''0s''
            else if u < 10 ^ 3 then format_nat u @ ''ns''
            else if u < 10 ^ 6 then part 3 [CHR 0xC2, CHR 0xB5, CHR ''s'']
            else if u < 10 ^ 9 then part 6 ''ms''
            else
              (let w = u div 10 ^ 9; m = w div 60; h = m div 60;
                   secs = format_nat (w mod 60) @ fraction_text u 9 @ ''s''
               in if m = 0 then secs
                  else if h = 0 then format_nat m @ ''m'' @ secs
                  else format_nat h @ ''h'' @ format_nat (m mod 60) @ ''m'' @ secs))
     in if d < 0 then CHR ''-'' # body else body)"

section \<open>States and answers\<close>

definition Version :: string where "Version = ''1.0.0''"

type_synonym health_Status = string

definition StatusHealthy :: health_Status where "StatusHealthy = ''healthy''"
definition StatusUnhealthy :: health_Status where "StatusUnhealthy = ''unhealthy''"
definition StatusDegraded :: health_Status where "StatusDegraded = ''degraded''"

record ComponentStatus =
  cs_Name :: string
  cs_Status :: health_Status
  cs_Latency :: string
  cs_Error :: string

record WorkerInfo =
  wi_ID :: string
  wi_ProcessingCount :: int
  wi_IsLeader :: bool

record HealthResponse =
  hr_Status :: health_Status
  hr_Version :: string
  hr_Timestamp :: string
  hr_Components :: "ComponentStatus list"
  hr_WorkerInfo :: "WorkerInfo option"

type_synonym 'w Checker = "('w, ComponentStatus) state"

section \<open>Checkers\<close>

text \<open>The status of a component whose ping gave \<open>err\<close> between two readings of the clock.\<close>

definition ping_status :: "string \<Rightarrow> gotime \<Rightarrow> gotime \<Rightarrow> string option \<Rightarrow> ComponentStatus" where
  "ping_status name start stop err =
    (let latency = duration_String (saturate64 (t_ns stop - t_ns start)) in
     case err of
       Some e \<Rightarrow> \<lparr>cs_Name = name, cs_Status = StatusUnhealthy, cs_Latency = latency, cs_Error = e\<rparr>
     | None \<Rightarrow> \<lparr>cs_Name = name, cs_Status = StatusHealthy, cs_Latency = latency, cs_Error = []\<rparr>)"

definition RedisChecker :: "'s client \<Rightarrow> 's world Checker" where
  "RedisChecker c = do {
     start \<leftarrow> now c;
     r \<leftarrow> Ping c;
     stop \<leftarrow> now c;
     ret (ping_status ''redis'' start stop (case r of Inl err \<Rightarrow> Some (error_text err) | Inr _ \<Rightarrow> None))
   }"

definition PostgresChecker :: "'p Pool \<Rightarrow> 'p Checker" where
  "PostgresChecker p = do {
     start \<leftarrow> pg_time_Now (pool_env p);
     err \<leftarrow> pgx_Ping (pool_env p);
     stop \<leftarrow> pg_time_Now (pool_env p);
     ret (ping_status ''postgres'' start stop (map_option error_text err))
   }"

definition PostgresCheckerWithDSN :: "'p pg_env \<Rightarrow> string \<Rightarrow> 'p Checker" where
  "PostgresCheckerWithDSN e dsn = do {
     start \<leftarrow> pg_time_Now e;
     r \<leftarrow> pgx_New e dsn;
     case r of
       Inl err \<Rightarrow> do {
         stop \<leftarrow> pg_time_Now e;
         ret (ping_status ''postgres'' start stop (Some (''failed to connect: '' @ error_text err)))
       }
     | Inr _ \<Rightarrow> do {
         err \<leftarrow> pgx_Ping e;
         stop \<leftarrow> pg_time_Now e;
         pgx_Close e;
         ret (ping_status ''postgres'' start stop (map_option error_text err))
       }
   }"

section \<open>The registry\<close>

record 'w health_Check =
  checkers :: "'w Checker list"

definition NewCheck :: "'w health_Check" where "NewCheck = \<lparr>checkers = []\<rparr>"

definition check_Register :: "'w Checker \<Rightarrow> 'w health_Check \<Rightarrow> 'w health_Check" where
  "check_Register checker c = c\<lparr>checkers := checkers c @ [checker]\<rparr>"

definition Liveness :: "gotime \<Rightarrow> HealthResponse" where
  "Liveness t = \<lparr>hr_Status = StatusHealthy, hr_Version = Version, hr_Timestamp = format_RFC3339 (time_UTC t),
     hr_Components = [], hr_WorkerInfo = None\<rparr>"

text \<open>The goroutines run in the order \<open>order\<close> of their indices and write each its own element of the results.\<close>

fun run_checks :: "'w Checker list \<Rightarrow> nat list \<Rightarrow> ComponentStatus list \<Rightarrow> ('w, ComponentStatus list) state" where
  "run_checks cs [] results = ret results"
| "run_checks cs (i # order) results = do { r \<leftarrow> cs ! i; run_checks cs order (results[i := r]) }"

definition zero_ComponentStatus :: ComponentStatus where
  "zero_ComponentStatus = \<lparr>cs_Name = [], cs_Status = [], cs_Latency = [], cs_Error = []\<rparr>"

fun overall_status :: "health_Status \<Rightarrow> ComponentStatus list \<Rightarrow> health_Status" where
  "overall_status acc [] = acc"
| "overall_status acc (r # rs) =
    (if cs_Status r = StatusUnhealthy then StatusUnhealthy
     else if cs_Status r = StatusDegraded then overall_status StatusDegraded rs
     else overall_status acc rs)"

definition Readiness :: "('w, gotime) state \<Rightarrow> nat list \<Rightarrow> 'w health_Check \<Rightarrow> ('w, HealthResponse) state" where
  "Readiness clock order c = do {
     results \<leftarrow> run_checks (checkers c) order (replicate (length (checkers c)) zero_ComponentStatus);
     t \<leftarrow> clock;
     ret \<lparr>hr_Status = overall_status StatusHealthy results, hr_Version = Version,
       hr_Timestamp = format_RFC3339 (time_UTC t), hr_Components = results, hr_WorkerInfo = None\<rparr>
   }"

definition ReadinessWithWorkerInfo ::
    "('w, gotime) state \<Rightarrow> nat list \<Rightarrow> 'w health_Check \<Rightarrow> WorkerInfo option \<Rightarrow> ('w, HealthResponse) state" where
  "ReadinessWithWorkerInfo clock order c workerInfo = do {
     resp \<leftarrow> Readiness clock order c;
     ret (resp\<lparr>hr_WorkerInfo := workerInfo\<rparr>)
   }"

section \<open>What readiness says\<close>

lemma status_distinct [simp]:
  "StatusHealthy \<noteq> StatusUnhealthy" "StatusHealthy \<noteq> StatusDegraded" "StatusUnhealthy \<noteq> StatusDegraded"
  "StatusUnhealthy \<noteq> StatusHealthy" "StatusDegraded \<noteq> StatusHealthy" "StatusDegraded \<noteq> StatusUnhealthy"
  by (simp_all add: StatusHealthy_def StatusUnhealthy_def StatusDegraded_def)

lemma overall_status_iff:
  "overall_status acc rs =
    (if \<exists>r \<in> set rs. cs_Status r = StatusUnhealthy then StatusUnhealthy
     else if \<exists>r \<in> set rs. cs_Status r = StatusDegraded then StatusDegraded else acc)"
  by (induction rs arbitrary: acc) auto

lemma length_run_checks: "run_state (run_checks cs order rs) w = (rs', w') \<Longrightarrow> length rs' = length rs"
  by (induction order arbitrary: rs w) (auto simp: run_simps split: prod.splits)

text \<open>An invariant of a state in which every checker gives a status that meets its own specification.\<close>

lemma run_checks_meets:
  assumes "\<And>i w r w'. i < length cs \<Longrightarrow> Q w \<Longrightarrow> run_state (cs ! i) w = (r, w') \<Longrightarrow> P i r \<and> Q w'"
    and "set order \<subseteq> {..<length cs}" "length rs = length cs" "Q w"
    and "run_state (run_checks cs order rs) w = (rs', w')"
  shows "Q w' \<and> (\<forall>i < length cs. i \<in> set order \<or> P i (rs ! i) \<longrightarrow> P i (rs' ! i))"
  using assms(2-5)
proof (induction order arbitrary: rs w)
  case (Cons k order)
  obtain r w1 where r: "run_state (cs ! k) w = (r, w1)" by (rule prod.exhaust)
  have k: "k < length cs" "P k r" "Q w1" using Cons.prems(1) assms(1) [OF _ Cons.prems(3) r] by auto
  have "Q w' \<and> (\<forall>i < length cs. i \<in> set order \<or> P i (rs[k := r] ! i) \<longrightarrow> P i (rs' ! i))"
    using Cons.IH [of "rs[k := r]" w1] Cons.prems k(3) r by (auto simp: run_simps)
  moreover have "rs[k := r] ! i = (if i = k then r else rs ! i)" for i using k(1) Cons.prems(2) by simp
  ultimately show ?case using k(2) by (metis set_ConsD)
qed (auto simp: run_simps)

text \<open>C35. Readiness reports the worst state among its components, in whatever order the checkers happen to run: one that is
  unhealthy makes the whole unhealthy, else one that is degraded makes it degraded; there is one component
  for every checker, each with a status that its checker can give.\<close>

theorem Readiness_reports:
  assumes "\<forall>i w r w'. i < length (checkers c) \<and> Q w \<and> run_state (checkers c ! i) w = (r, w') \<longrightarrow> P i r \<and> Q w'"
    and "set order = {..<length (checkers c)}" "Q w" "run_state (Readiness clock order c) w = (resp, w')"
  shows "length (hr_Components resp) = length (checkers c) \<and> (\<forall>i < length (checkers c). P i (hr_Components resp ! i)) \<and>
    hr_Status resp =
      (if \<exists>r \<in> set (hr_Components resp). cs_Status r = StatusUnhealthy then StatusUnhealthy
       else if \<exists>r \<in> set (hr_Components resp). cs_Status r = StatusDegraded then StatusDegraded else StatusHealthy)"
proof -
  let ?zs = "replicate (length (checkers c)) zero_ComponentStatus"
  obtain rs w1 where rs: "run_state (run_checks (checkers c) order ?zs) w = (rs, w1)" by (rule prod.exhaust)
  have "hr_Components resp = rs" "hr_Status resp = overall_status StatusHealthy rs"
    using assms(4) by (auto simp: Readiness_def run_simps rs split: prod.splits)
  moreover have "length rs = length (checkers c)" using length_run_checks [OF rs] by simp
  moreover have "\<forall>i < length (checkers c). P i (rs ! i)"
    using run_checks_meets [of "checkers c" Q P order ?zs w rs w1] assms(1-3) rs by auto
  ultimately show ?thesis unfolding overall_status_iff by blast
qed

context redis_server begin

lemma RedisChecker_ready:
  assumes "ready up w" "run_state (RedisChecker c) w = (r, w')"
  shows "cs_Status r = StatusHealthy \<and> ready up w'"
proof -
  have "run_state (Ping c) (ticked c w) = (Inr (), sent c PING (ticked c w))"
    unfolding Ping_def by (rule run_basic) (use assms(1) in \<open>simp_all add: as_unit_def\<close>)
  then show ?thesis using assms by (auto simp: RedisChecker_def run_simps ping_status_def)
qed

end

theorem Readiness_reports_witness:
  "hr_Status (fst (run_state (Readiness (now mem_client) [1, 0]
     (check_Register (RedisChecker mem_client) (check_Register (RedisChecker mem_client) NewCheck))) mem_world)) = StatusHealthy"
proof -
  let ?c = "check_Register (RedisChecker mem_client) (check_Register (RedisChecker mem_client) NewCheck)"
  obtain resp w' where r: "run_state (Readiness (now mem_client) [1, 0] ?c) mem_world = (resp, w')" by (rule prod.exhaust)
  have c: "checkers ?c = [RedisChecker mem_client, RedisChecker mem_client]" by (simp add: check_Register_def NewCheck_def)
  have n: "length (checkers ?c) = 2" "i < 2 \<Longrightarrow> checkers ?c ! i = RedisChecker mem_client" for i
    unfolding c by (auto simp: less_Suc_eq numeral_2_eq_2)
  have step: "\<forall>i w r w'. i < length (checkers ?c) \<and> ready alive w \<and> run_state (checkers ?c ! i) w = (r, w') \<longrightarrow>
      cs_Status r = StatusHealthy \<and> ready alive w'"
    using memory.RedisChecker_ready n by metis
  have "set [1, 0] = {..<length (checkers ?c)}" unfolding n(1) by (auto simp: numeral_2_eq_2 less_Suc_eq)
  from Readiness_reports [where Q = "ready alive" and P = "\<lambda>_ r. cs_Status r = StatusHealthy", OF step this mem_world_ready(1) r]
  have h: "length (hr_Components resp) = 2" "\<forall>i < 2. cs_Status (hr_Components resp ! i) = StatusHealthy"
    "hr_Status resp = (if \<exists>r \<in> set (hr_Components resp). cs_Status r = StatusUnhealthy then StatusUnhealthy
        else if \<exists>r \<in> set (hr_Components resp). cs_Status r = StatusDegraded then StatusDegraded else StatusHealthy)"
    unfolding n(1) by blast+
  then have "\<forall>r \<in> set (hr_Components resp). cs_Status r = StatusHealthy" by (metis in_set_conv_nth)
  then have "hr_Status resp = StatusHealthy" using h(3) by auto
  then show ?thesis using r by simp
qed

end
