(* ===== verification/Configuration.thy ===== *)
theory Configuration
  imports Go_Time Go_Float
begin

text \<open>
  The settings of the program (\<open>internal/config\<close>): the tables of defaults, of flags and of environment variables and
  the loading of a configuration. viper is not part of the program: it is the operations of a record, with what the
  documentation of viper says about the precedence of the sources in the locale \<open>viper_sources\<close>.
\<close>

section \<open>Settings\<close>

record config_RedisConfig =
  rc_Host :: string
  rc_Port :: int
  rc_Password :: string
  rc_DB :: int
  rc_PoolSize :: int

record PostgresConfig =
  pgc_Host :: string
  pgc_Port :: int
  pgc_User :: string
  pgc_Password :: string
  pgc_Database :: string
  pgc_SSLMode :: string

record APIConfig =
  ac_Port :: int
  ac_ReadTimeout :: int
  ac_WriteTimeout :: int

record WorkerConfig =
  wc_Concurrency :: int
  wc_PollInterval :: int
  wc_MaxRetries :: int
  wc_BackoffInitial :: int
  wc_BackoffMax :: int
  wc_BackoffFactor :: rat

record LoggingConfig =
  lgc_Level :: string
  lgc_Format :: string

record Config =
  cfg_Redis :: config_RedisConfig
  cfg_Postgres :: PostgresConfig
  cfg_API :: APIConfig
  cfg_Worker :: WorkerConfig
  cfg_Logging :: LoggingConfig

section \<open>viper\<close>

text \<open>A value of a setting and the type of the field it is decoded into.\<close>

datatype conf_value = CString string | CInt int | CDuration int | CFloat rat

datatype conf_kind = KString | KInt | KDuration | KFloat

fun kind_of :: "conf_value \<Rightarrow> conf_kind" where
  "kind_of (CString _) = KString"
| "kind_of (CInt _) = KInt"
| "kind_of (CDuration _) = KDuration"
| "kind_of (CFloat _) = KFloat"

fun zero_value :: "conf_kind \<Rightarrow> conf_value" where
  "zero_value KString = CString []"
| "zero_value KInt = CInt 0"
| "zero_value KDuration = CDuration 0"
| "zero_value KFloat = CFloat 0"

type_synonym flag_set = "(string \<times> conf_value) list"

datatype read_error = ConfigFileNotFoundError | ReadError goerror

text \<open>
  \<open>Unmarshal\<close> fills the fields, given by their keys and types, with the settings or reports an error. A flag of the
  set was not given on a command line: the program never parses its flag set.
\<close>

record 'v viper =
  v_New :: 'v
  v_SetDefault :: "string \<Rightarrow> conf_value \<Rightarrow> 'v \<Rightarrow> 'v"
  v_BindPFlags :: "flag_set \<Rightarrow> 'v \<Rightarrow> 'v"
  v_SetConfigFile :: "string \<Rightarrow> 'v \<Rightarrow> 'v"
  v_SetConfigName :: "string \<Rightarrow> 'v \<Rightarrow> 'v"
  v_SetConfigType :: "string \<Rightarrow> 'v \<Rightarrow> 'v"
  v_AddConfigPath :: "string \<Rightarrow> 'v \<Rightarrow> 'v"
  v_ReadInConfig :: "'v \<Rightarrow> read_error option \<times> 'v"
  v_SetEnvPrefix :: "string \<Rightarrow> 'v \<Rightarrow> 'v"
  v_SetEnvKeyReplacer :: "(string \<times> string) list \<Rightarrow> 'v \<Rightarrow> 'v"
  v_AutomaticEnv :: "'v \<Rightarrow> 'v"
  v_BindEnv :: "string \<Rightarrow> string \<Rightarrow> 'v \<Rightarrow> 'v"
  v_Unmarshal :: "(string \<times> conf_kind) list \<Rightarrow> 'v \<Rightarrow> goerror + (string \<Rightarrow> conf_value)"

section \<open>Loading\<close>

definition config_defaults :: "(string \<times> conf_value) list" where
  "config_defaults =
    [(''redis.host'', CString ''localhost''), (''redis.port'', CInt 6379), (''redis.db'', CInt 0),
     (''redis.pool_size'', CInt 10),
     (''postgres.host'', CString ''localhost''), (''postgres.port'', CInt 5432), (''postgres.user'', CString ''titan''),
     (''postgres.database'', CString ''titan''), (''postgres.ssl_mode'', CString ''disable''),
     (''api.port'', CInt 8080), (''api.read_timeout'', CDuration (30 * second)),
     (''api.write_timeout'', CDuration (30 * second)),
     (''worker.concurrency'', CInt 10), (''worker.poll_interval'', CDuration second), (''worker.max_retries'', CInt 3),
     (''worker.backoff_initial'', CDuration second), (''worker.backoff_max'', CDuration minute),
     (''worker.backoff_factor'', CFloat 2),
     (''logging.level'', CString ''info''), (''logging.format'', CString ''json'')]"

definition setDefaults :: "'v viper \<Rightarrow> 'v \<Rightarrow> 'v" where
  "setDefaults e v = fold (\<lambda>(k, x). v_SetDefault e k x) config_defaults v"

definition config_flags :: flag_set where
  "config_flags = [(''api.port'', CInt 8080), (''logging.level'', CString ''info''), (''logging.format'', CString ''json''),
     (''worker.concurrency'', CInt 10)]"

text \<open>The flag set is a variable of the package, made by the first call.\<close>

definition bindFlags :: "'v viper \<Rightarrow> flag_set option \<Rightarrow> 'v \<Rightarrow> flag_set option \<times> 'v" where
  "bindFlags e flagSet v =
    (let fs = (case flagSet of None \<Rightarrow> config_flags | Some fs \<Rightarrow> fs)
     in (Some fs, v_BindPFlags e fs v))"

definition config_env :: "(string \<times> string) list" where
  "config_env =
    [(''redis.password'', ''TITAN_REDIS_PASSWORD''),
     (''postgres.password'', ''TITAN_POSTGRES_PASSWORD''),
     (''redis.host'', ''TITAN_REDIS_HOST''), (''redis.port'', ''TITAN_REDIS_PORT''), (''redis.db'', ''TITAN_REDIS_DB''),
     (''redis.pool_size'', ''TITAN_REDIS_POOL_SIZE''),
     (''postgres.host'', ''TITAN_POSTGRES_HOST''), (''postgres.port'', ''TITAN_POSTGRES_PORT''),
     (''postgres.user'', ''TITAN_POSTGRES_USER''), (''postgres.database'', ''TITAN_POSTGRES_DATABASE''),
     (''postgres.ssl_mode'', ''TITAN_POSTGRES_SSL_MODE''),
     (''api.port'', ''TITAN_API_PORT''), (''api.read_timeout'', ''TITAN_API_READ_TIMEOUT''),
     (''api.write_timeout'', ''TITAN_API_WRITE_TIMEOUT''),
     (''worker.concurrency'', ''TITAN_WORKER_CONCURRENCY''), (''worker.poll_interval'', ''TITAN_WORKER_POLL_INTERVAL''),
     (''worker.max_retries'', ''TITAN_WORKER_MAX_RETRIES''), (''worker.backoff_initial'', ''TITAN_WORKER_BACKOFF_INITIAL''),
     (''worker.backoff_max'', ''TITAN_WORKER_BACKOFF_MAX''), (''worker.backoff_factor'', ''TITAN_WORKER_BACKOFF_FACTOR''),
     (''logging.level'', ''TITAN_LOGGING_LEVEL''), (''logging.format'', ''TITAN_LOGGING_FORMAT'')]"

definition bindEnvVars :: "'v viper \<Rightarrow> 'v \<Rightarrow> 'v" where
  "bindEnvVars e v = fold (\<lambda>(k, n). v_BindEnv e k n) config_env v"

text \<open>The fields of \<open>Config\<close>, by the path of their \<open>mapstructure\<close> tags.\<close>

definition config_fields :: "(string \<times> conf_kind) list" where
  "config_fields =
    [(''redis.host'', KString), (''redis.port'', KInt), (''redis.password'', KString), (''redis.db'', KInt),
     (''redis.pool_size'', KInt),
     (''postgres.host'', KString), (''postgres.port'', KInt), (''postgres.user'', KString), (''postgres.password'', KString),
     (''postgres.database'', KString), (''postgres.ssl_mode'', KString),
     (''api.port'', KInt), (''api.read_timeout'', KDuration), (''api.write_timeout'', KDuration),
     (''worker.concurrency'', KInt), (''worker.poll_interval'', KDuration), (''worker.max_retries'', KInt),
     (''worker.backoff_initial'', KDuration), (''worker.backoff_max'', KDuration), (''worker.backoff_factor'', KFloat),
     (''logging.level'', KString), (''logging.format'', KString)]"

primrec value_string :: "conf_value \<Rightarrow> string" where
  "value_string (CString s) = s" | "value_string (CInt _) = []" | "value_string (CDuration _) = []" | "value_string (CFloat _) = []"

primrec value_int :: "conf_value \<Rightarrow> int" where
  "value_int (CString _) = 0" | "value_int (CInt i) = i" | "value_int (CDuration i) = i" | "value_int (CFloat _) = 0"

primrec value_float :: "conf_value \<Rightarrow> rat" where
  "value_float (CString _) = 0" | "value_float (CInt _) = 0" | "value_float (CDuration _) = 0" | "value_float (CFloat x) = x"

definition config_of :: "(string \<Rightarrow> conf_value) \<Rightarrow> Config" where
  "config_of s = \<lparr>
     cfg_Redis = \<lparr>rc_Host = value_string (s ''redis.host''), rc_Port = value_int (s ''redis.port''),
       rc_Password = value_string (s ''redis.password''), rc_DB = value_int (s ''redis.db''),
       rc_PoolSize = value_int (s ''redis.pool_size'')\<rparr>,
     cfg_Postgres = \<lparr>pgc_Host = value_string (s ''postgres.host''), pgc_Port = value_int (s ''postgres.port''),
       pgc_User = value_string (s ''postgres.user''), pgc_Password = value_string (s ''postgres.password''),
       pgc_Database = value_string (s ''postgres.database''), pgc_SSLMode = value_string (s ''postgres.ssl_mode'')\<rparr>,
     cfg_API = \<lparr>ac_Port = value_int (s ''api.port''), ac_ReadTimeout = value_int (s ''api.read_timeout''),
       ac_WriteTimeout = value_int (s ''api.write_timeout'')\<rparr>,
     cfg_Worker = \<lparr>wc_Concurrency = value_int (s ''worker.concurrency''),
       wc_PollInterval = value_int (s ''worker.poll_interval''), wc_MaxRetries = value_int (s ''worker.max_retries''),
       wc_BackoffInitial = value_int (s ''worker.backoff_initial''), wc_BackoffMax = value_int (s ''worker.backoff_max''),
       wc_BackoffFactor = value_float (s ''worker.backoff_factor'')\<rparr>,
     cfg_Logging = \<lparr>lgc_Level = value_string (s ''logging.level''), lgc_Format = value_string (s ''logging.format'')\<rparr>\<rparr>"

definition config_location :: "'v viper \<Rightarrow> string \<Rightarrow> 'v \<Rightarrow> 'v" where
  "config_location e configPath v =
    (if configPath \<noteq> [] then v_SetConfigFile e configPath v
     else v_AddConfigPath e ''.'' (v_AddConfigPath e ''./config'' (v_SetConfigType e ''yaml'' (v_SetConfigName e ''config'' v))))"

definition Load :: "'v viper \<Rightarrow> flag_set option \<Rightarrow> string \<Rightarrow> (goerror + Config) \<times> flag_set option" where
  "Load e flagSet configPath =
    (let v = setDefaults e (v_New e);
         (flagSet, v) = bindFlags e flagSet v;
         v = config_location e configPath v;
         (err, v) = v_ReadInConfig e v
     in case err of
          Some (ReadError x) \<Rightarrow> (Inl (Wrapf ''error reading config file'' x), flagSet)
        | _ \<Rightarrow>
           (let v = v_AutomaticEnv e (v_SetEnvKeyReplacer e [(''.'', ''_'')] (v_SetEnvPrefix e ''TITAN'' v));
                v = bindEnvVars e v
            in (case v_Unmarshal e config_fields v of
                  Inl x \<Rightarrow> Inl (Wrapf ''error unmarshaling config'' x)
                | Inr s \<Rightarrow> Inr (config_of s), flagSet)))"

section \<open>Where a setting comes from\<close>

text \<open>
  What viper documents about its sources. A value is taken from the environment (a variable that is empty counts as
  absent), else from the file, else from the defaults, else from the default of a flag. With \<open>AutomaticEnv\<close> the key
  with its prefix, in upper case, is a variable of its own; the replacer applies to every name that is looked up.
\<close>

datatype conf_place = ConfFile string | ConfSearch string string "string list"

record sources =
  src_default :: "string \<Rightarrow> conf_value option"
  src_flag :: "string \<Rightarrow> conf_value option"
  src_file :: "string \<Rightarrow> conf_value option"
  src_place :: conf_place
  src_prefix :: string
  src_replacer :: "(string \<times> string) list"
  src_auto :: bool
  src_bound :: "string \<Rightarrow> string list"

definition no_sources :: sources where
  "no_sources = \<lparr>src_default = Map.empty, src_flag = Map.empty, src_file = Map.empty, src_place = ConfSearch [] [] [],
     src_prefix = [], src_replacer = [], src_auto = False, src_bound = (\<lambda>_. [])\<rparr>"

fun place_name :: "string \<Rightarrow> conf_place \<Rightarrow> conf_place" where
  "place_name n (ConfFile f) = ConfFile f"
| "place_name n (ConfSearch _ t ps) = ConfSearch n t ps"

fun place_type :: "string \<Rightarrow> conf_place \<Rightarrow> conf_place" where
  "place_type t (ConfFile f) = ConfFile f"
| "place_type t (ConfSearch n _ ps) = ConfSearch n t ps"

fun place_path :: "string \<Rightarrow> conf_place \<Rightarrow> conf_place" where
  "place_path p (ConfFile f) = ConfFile f"
| "place_path p (ConfSearch n t ps) = ConfSearch n t (ps @ [p])"

definition upper_char :: "char \<Rightarrow> char" where
  "upper_char c = (if 97 \<le> (of_char c :: nat) \<and> (of_char c :: nat) \<le> 122 then char_of ((of_char c :: nat) - 32) else c)"

text \<open>\<open>strings.NewReplacer\<close> for pairs whose first string is a single character.\<close>

definition replaced :: "(string \<times> string) list \<Rightarrow> string \<Rightarrow> string" where
  "replaced r s = concat (map (\<lambda>c. case map_of r [c] of Some t \<Rightarrow> t | None \<Rightarrow> [c]) s)"

definition env_names :: "sources \<Rightarrow> string \<Rightarrow> string list" where
  "env_names S k = map (replaced (src_replacer S))
     ((if src_auto S then [map upper_char (src_prefix S @ ''_'' @ k)] else []) @ src_bound S k)"

definition present :: "string option \<Rightarrow> bool" where "present v \<longleftrightarrow> v \<noteq> None \<and> v \<noteq> Some []"

definition setting :: "(string \<Rightarrow> string option) \<Rightarrow> sources \<Rightarrow> string \<Rightarrow> conf_value option" where
  "setting environ S k =
    (case find present (map environ (env_names S k)) of
       Some v \<Rightarrow> map_option CString v
     | None \<Rightarrow>
        (case src_file S k of Some x \<Rightarrow> Some x | None \<Rightarrow>
         (case src_default S k of Some x \<Rightarrow> Some x | None \<Rightarrow> src_flag S k)))"

definition field_value :: "(string \<Rightarrow> string option) \<Rightarrow> (conf_kind \<Rightarrow> conf_value \<Rightarrow> goerror + conf_value) \<Rightarrow>
    sources \<Rightarrow> string \<Rightarrow> conf_kind \<Rightarrow> goerror + conf_value" where
  "field_value environ decode S k kd =
    (case setting environ S k of Some x \<Rightarrow> decode kd x | None \<Rightarrow> Inr (zero_value kd))"

text \<open>
  The variable of a key, the place that is searched, and the value of a field: from its variable, else from the file \<open>m\<close>,
  else its default, else the zero value of its type.
\<close>

definition titan_var :: "string \<Rightarrow> string" where
  "titan_var k = ''TITAN_'' @ map (\<lambda>c. if c = CHR ''.'' then CHR ''_'' else upper_char c) k"

definition searched :: "string \<Rightarrow> conf_place" where
  "searched path = (if path = [] then ConfSearch ''config'' ''yaml'' [''./config'', ''.''] else ConfFile path)"

definition configured :: "(string \<Rightarrow> string option) \<Rightarrow> (conf_kind \<Rightarrow> conf_value \<Rightarrow> goerror + conf_value) \<Rightarrow>
    (string \<Rightarrow> conf_value option) \<Rightarrow> string \<Rightarrow> conf_kind \<Rightarrow> goerror + conf_value" where
  "configured environ decode m k kd =
    (if present (environ (titan_var k)) then decode kd (CString (the (environ (titan_var k))))
     else case m k of Some x \<Rightarrow> decode kd x
     | None \<Rightarrow> (case map_of config_defaults k of Some x \<Rightarrow> Inr x | None \<Rightarrow> Inr (zero_value kd)))"

text \<open>
  The three tables agree: every field has exactly the variable that \<open>AutomaticEnv\<close> would give it, the default of a field
  has its type and only the passwords have none, and the default of a flag is that of its field.
\<close>

lemma upper_letters [simp]:
  "upper_char CHR ''a'' = CHR ''A''" "upper_char CHR ''b'' = CHR ''B''" "upper_char CHR ''c'' = CHR ''C''"
  "upper_char CHR ''d'' = CHR ''D''" "upper_char CHR ''e'' = CHR ''E''" "upper_char CHR ''f'' = CHR ''F''"
  "upper_char CHR ''g'' = CHR ''G''" "upper_char CHR ''h'' = CHR ''H''" "upper_char CHR ''i'' = CHR ''I''"
  "upper_char CHR ''j'' = CHR ''J''" "upper_char CHR ''k'' = CHR ''K''" "upper_char CHR ''l'' = CHR ''L''"
  "upper_char CHR ''m'' = CHR ''M''" "upper_char CHR ''n'' = CHR ''N''" "upper_char CHR ''o'' = CHR ''O''"
  "upper_char CHR ''p'' = CHR ''P''" "upper_char CHR ''q'' = CHR ''Q''" "upper_char CHR ''r'' = CHR ''R''"
  "upper_char CHR ''s'' = CHR ''S''" "upper_char CHR ''t'' = CHR ''T''" "upper_char CHR ''u'' = CHR ''U''"
  "upper_char CHR ''v'' = CHR ''V''" "upper_char CHR ''w'' = CHR ''W''" "upper_char CHR ''x'' = CHR ''X''"
  "upper_char CHR ''y'' = CHR ''Y''" "upper_char CHR ''z'' = CHR ''Z''" "upper_char CHR ''_'' = CHR ''_''"
  "upper_char CHR ''T'' = CHR ''T''" "upper_char CHR ''I'' = CHR ''I''" "upper_char CHR ''A'' = CHR ''A''" "upper_char CHR ''N'' = CHR ''N''"
  by code_simp+

lemma upper_char_dot [simp]: "upper_char c = CHR ''.'' \<longleftrightarrow> c = CHR ''.''"
proof -
  have "n \<le> 122 \<Longrightarrow> 97 \<le> n \<Longrightarrow> char_of (n - 32) \<noteq> CHR ''.''" for n :: nat
  proof
    assume "97 \<le> n" "n \<le> 122" "char_of (n - 32) = CHR ''.''"
    then have "of_char (char_of (n - 32) :: char) = (of_char CHR ''.'' :: nat)" by simp
    then show False using \<open>97 \<le> n\<close> \<open>n \<le> 122\<close> by simp
  qed
  then show ?thesis by (auto simp: upper_char_def)
qed

lemma replaced_dot: "replaced [(''.'', ''_'')] s = map (\<lambda>c. if c = CHR ''.'' then CHR ''_'' else c) s"
  by (induction s) (simp_all add: replaced_def)

lemma config_env_vars: "list_all (\<lambda>(k, kd). map snd (filter (\<lambda>b. fst b = k) config_env) = [titan_var k]) config_fields"
  by (simp add: config_fields_def config_env_def titan_var_def)

lemma auto_titan_var: "replaced [(''.'', ''_'')] (map upper_char (''TITAN_'' @ k)) = titan_var k"
  by (simp add: titan_var_def replaced_dot)

lemma replaced_titan_var: "replaced [(''.'', ''_'')] (titan_var k) = titan_var k"
  by (simp add: titan_var_def replaced_dot)

lemma config_defaults_distinct: "list_all (\<lambda>(k, kd). map_of (rev config_defaults) k = map_of config_defaults k) config_fields"
  by (simp add: config_fields_def config_defaults_def)

lemma config_defaults_kinds: "list_all (\<lambda>(k, kd). case map_of config_defaults k of
      None \<Rightarrow> k \<in> {''redis.password'', ''postgres.password''} \<and> map_of config_flags k = None
    | Some x \<Rightarrow> kind_of x = kd) config_fields"
  by (simp add: config_fields_def config_defaults_def config_flags_def)

lemma config_tables:
  assumes "(k, kd) \<in> set config_fields"
  shows "map snd (filter (\<lambda>b. fst b = k) config_env) = [titan_var k]"
    and "map_of (rev config_defaults) k = map_of config_defaults k"
    and "map_of config_defaults k = None \<longrightarrow> map_of config_flags k = None"
    and "map_of config_defaults k = Some x \<longrightarrow> kind_of x = kd"
  using assms config_env_vars config_defaults_distinct config_defaults_kinds
  by (fastforce simp: list_all_iff split: option.splits)+

lemma config_fields_distinct: "distinct (map fst config_fields)"
  by (simp add: config_fields_def)

lemma config_of_fields:
  assumes "\<forall>k \<in> fst ` set config_fields. s k = s' k"
  shows "config_of s = config_of s'"
  using assms by (simp add: config_of_def config_fields_def)

text \<open>The sources after loading a file \<open>m\<close> from \<open>place\<close>.\<close>

definition loaded :: "(string \<Rightarrow> conf_value option) \<Rightarrow> conf_place \<Rightarrow> sources" where
  "loaded m place = \<lparr>src_default = map_of (rev config_defaults), src_flag = map_of config_flags, src_file = m, src_place = place,
     src_prefix = ''TITAN'', src_replacer = [(''.'', ''_'')], src_auto = True,
     src_bound = (\<lambda>k. map snd (filter (\<lambda>b. fst b = k) config_env))\<rparr>"

locale viper_sources =
  fixes e :: "'v viper" and view :: "'v \<Rightarrow> sources" and environ :: "string \<Rightarrow> string option"
    and disk :: "conf_place \<Rightarrow> read_error + (string \<Rightarrow> conf_value option)"
    and decode :: "conf_kind \<Rightarrow> conf_value \<Rightarrow> goerror + conf_value"
  assumes New [simp]: "view (v_New e) = no_sources"
    and SetDefault [simp]: "view (v_SetDefault e k x v) = (view v)\<lparr>src_default := (src_default (view v))(k \<mapsto> x)\<rparr>"
    and BindPFlags [simp]: "view (v_BindPFlags e flags v) = (view v)\<lparr>src_flag := src_flag (view v) ++ map_of flags\<rparr>"
    and SetConfigFile [simp]: "view (v_SetConfigFile e p v) = (view v)\<lparr>src_place := ConfFile p\<rparr>"
    and SetConfigName [simp]: "view (v_SetConfigName e n v) = (view v)\<lparr>src_place := place_name n (src_place (view v))\<rparr>"
    and SetConfigType [simp]: "view (v_SetConfigType e n v) = (view v)\<lparr>src_place := place_type n (src_place (view v))\<rparr>"
    and AddConfigPath [simp]: "view (v_AddConfigPath e n v) = (view v)\<lparr>src_place := place_path n (src_place (view v))\<rparr>"
    and ReadInConfig: "disk (src_place (view v)) = Inr m \<Longrightarrow>
      fst (v_ReadInConfig e v) = None \<and> view (snd (v_ReadInConfig e v)) = (view v)\<lparr>src_file := m\<rparr>"
    and ReadInConfig_error: "disk (src_place (view v)) = Inl err \<Longrightarrow>
      fst (v_ReadInConfig e v) = Some err \<and> view (snd (v_ReadInConfig e v)) = view v"
    and SetEnvPrefix [simp]: "view (v_SetEnvPrefix e p v) = (view v)\<lparr>src_prefix := p\<rparr>"
    and SetEnvKeyReplacer [simp]: "view (v_SetEnvKeyReplacer e r v) = (view v)\<lparr>src_replacer := r\<rparr>"
    and AutomaticEnv [simp]: "view (v_AutomaticEnv e v) = (view v)\<lparr>src_auto := True\<rparr>"
    and BindEnv [simp]: "view (v_BindEnv e k n v) =
      (view v)\<lparr>src_bound := (src_bound (view v))(k := src_bound (view v) k @ [n])\<rparr>"
    and Unmarshal: "\<forall>(k, kd) \<in> set fs. field_value environ decode (view v) k kd = Inr (s k) \<Longrightarrow>
      \<exists>s'. v_Unmarshal e fs v = Inr s' \<and> (\<forall>k \<in> fst ` set fs. s' k = s k)"
    and Unmarshal_error: "(k, kd) \<in> set fs \<Longrightarrow> field_value environ decode (view v) k kd = Inl bad \<Longrightarrow>
      \<exists>ue. v_Unmarshal e fs v = Inl ue"
    and decode_same: "decode (kind_of x) x = Inr x"
begin

lemma view_setDefaults: "view (setDefaults e v) = (view v)\<lparr>src_default := src_default (view v) ++ map_of (rev config_defaults)\<rparr>"
proof -
  have "view (fold (\<lambda>(k, x). v_SetDefault e k x) ds v) = (view v)\<lparr>src_default := src_default (view v) ++ map_of (rev ds)\<rparr>" for ds v
    by (induction ds arbitrary: v) auto
  then show ?thesis by (simp add: setDefaults_def)
qed

lemma view_bindEnvVars:
  "view (bindEnvVars e v) =
    (view v)\<lparr>src_bound := \<lambda>k. src_bound (view v) k @ map snd (filter (\<lambda>b. fst b = k) config_env)\<rparr>"
proof -
  have "view (fold (\<lambda>(k, n). v_BindEnv e k n) bs v) =
      (view v)\<lparr>src_bound := \<lambda>k. src_bound (view v) k @ map snd (filter (\<lambda>b. fst b = k) bs)\<rparr>" for bs v
    by (induction bs arbitrary: v) (auto simp: fun_eq_iff intro!: sources.equality)
  then show ?thesis by (simp add: bindEnvVars_def)
qed

lemma loaded_field:
  assumes "(k, kd) \<in> set config_fields"
  shows "field_value environ decode (loaded m place) k kd = configured environ decode m k kd"
  using config_tables [OF assms] decode_same auto_titan_var [of k]
  by (auto simp: field_value_def setting_def env_names_def loaded_def configured_def present_def replaced_titan_var split: option.split)

lemma Unmarshal_configured:
  assumes "view v = loaded m place"
  shows "if \<exists>(k, kd) \<in> set config_fields. \<exists>x. configured environ decode m k kd = Inl x
      then \<exists>x. v_Unmarshal e config_fields v = Inl x
      else \<exists>s. v_Unmarshal e config_fields v = Inr s \<and>
        (\<forall>(k, kd) \<in> set config_fields. configured environ decode m k kd = Inr (s k))" (is "if ?bad then _ else _")
proof -
  have fv: "field_value environ decode (view v) k kd = configured environ decode m k kd" if "(k, kd) \<in> set config_fields" for k kd
    using loaded_field [OF that] assms by simp
  show ?thesis
  proof (cases ?bad)
    case True
    then obtain k kd x where "(k, kd) \<in> set config_fields" "configured environ decode m k kd = Inl x" by auto
    then have "\<exists>ue. v_Unmarshal e config_fields v = Inl ue"
      using Unmarshal_error fv by metis
    then show ?thesis using True by simp
  next
    case False
    define s where "s k = projr (configured environ decode m k (the (map_of config_fields k)))" for k
    have ok: "\<forall>(k, kd) \<in> set config_fields. configured environ decode m k kd = Inr (s k)"
    proof clarify
      fix k kd assume k: "(k, kd) \<in> set config_fields"
      then have "\<not> isl (configured environ decode m k kd)" using False by (auto simp: isl_def)
      then show "configured environ decode m k kd = Inr (s k)"
        using map_of_is_SomeI [OF config_fields_distinct k] by (simp add: s_def)
    qed
    then have "\<forall>(k, kd) \<in> set config_fields. field_value environ decode (view v) k kd = Inr (s k)" using fv by auto
    from Unmarshal [OF this] obtain s'
      where s': "v_Unmarshal e config_fields v = Inr s'" "\<forall>k \<in> fst ` set config_fields. s' k = s k" by blast
    then have "\<forall>(k, kd) \<in> set config_fields. configured environ decode m k kd = Inr (s' k)" using ok by fastforce
    then show ?thesis using s'(1) False by (simp only: if_False) blast
  qed
qed

lemma Load_run:
  assumes fl: "fl = None \<or> fl = Some config_flags"
  obtains v where "view v = loaded (case disk (searched path) of Inr m \<Rightarrow> m | Inl _ \<Rightarrow> Map.empty) (searched path)"
    and "Load e fl path =
      (case disk (searched path) of
         Inl (ReadError x) \<Rightarrow> Inl (Wrapf ''error reading config file'' x)
       | _ \<Rightarrow> (case v_Unmarshal e config_fields v of
             Inl x \<Rightarrow> Inl (Wrapf ''error unmarshaling config'' x)
           | Inr s \<Rightarrow> Inr (config_of s)), Some config_flags)"
proof -
  define v where "v = config_location e path (v_BindPFlags e config_flags (setDefaults e (v_New e)))"
  have flags: "bindFlags e fl u = (Some config_flags, v_BindPFlags e config_flags u)" for u
    using fl by (auto simp: bindFlags_def)
  have place: "src_place (view v) = searched path"
    by (simp add: v_def config_location_def searched_def view_setDefaults no_sources_def)
  have vw: "view v = no_sources\<lparr>src_default := map_of (rev config_defaults), src_flag := map_of config_flags, src_place := searched path\<rparr>"
    by (simp add: v_def config_location_def searched_def view_setDefaults no_sources_def)
  define u where "u = bindEnvVars e (v_AutomaticEnv e (v_SetEnvKeyReplacer e [(''.'', ''_'')] (v_SetEnvPrefix e ''TITAN'' (snd (v_ReadInConfig e v)))))"
  have "view u = loaded (case disk (searched path) of Inr m \<Rightarrow> m | Inl _ \<Rightarrow> Map.empty) (searched path)"
    using ReadInConfig [of v] ReadInConfig_error [of v] place
    by (cases "disk (searched path)") (simp_all add: u_def view_bindEnvVars vw loaded_def no_sources_def)
  moreover have "Load e fl path =
      (case disk (searched path) of
         Inl (ReadError x) \<Rightarrow> Inl (Wrapf ''error reading config file'' x)
       | _ \<Rightarrow> (case v_Unmarshal e config_fields u of
             Inl x \<Rightarrow> Inl (Wrapf ''error unmarshaling config'' x)
           | Inr s \<Rightarrow> Inr (config_of s)), Some config_flags)"
    using ReadInConfig [of v] ReadInConfig_error [of v] place
    by (cases "disk (searched path)") (auto simp: Load_def flags u_def v_def [symmetric] split: prod.splits read_error.splits sum.splits)
  ultimately show ?thesis by (rule that)
qed

end

section \<open>Loading a configuration\<close>


text \<open>
  A viper in memory. The last setting shows that a password is read from the file as any other setting, though the
  program's comment reserves it to the environment.
\<close>

definition mem_viper :: "(string \<Rightarrow> string option) \<Rightarrow> (conf_place \<Rightarrow> read_error + (string \<Rightarrow> conf_value option)) \<Rightarrow>
    (conf_kind \<Rightarrow> conf_value \<Rightarrow> goerror + conf_value) \<Rightarrow> sources viper" where
  "mem_viper environ disk decode = \<lparr>v_New = no_sources,
     v_SetDefault = (\<lambda>k x S. S\<lparr>src_default := (src_default S)(k \<mapsto> x)\<rparr>),
     v_BindPFlags = (\<lambda>fs S. S\<lparr>src_flag := src_flag S ++ map_of fs\<rparr>),
     v_SetConfigFile = (\<lambda>p S. S\<lparr>src_place := ConfFile p\<rparr>),
     v_SetConfigName = (\<lambda>n S. S\<lparr>src_place := place_name n (src_place S)\<rparr>),
     v_SetConfigType = (\<lambda>n S. S\<lparr>src_place := place_type n (src_place S)\<rparr>),
     v_AddConfigPath = (\<lambda>n S. S\<lparr>src_place := place_path n (src_place S)\<rparr>),
     v_ReadInConfig = (\<lambda>S. case disk (src_place S) of Inl err \<Rightarrow> (Some err, S) | Inr m \<Rightarrow> (None, S\<lparr>src_file := m\<rparr>)),
     v_SetEnvPrefix = (\<lambda>p S. S\<lparr>src_prefix := p\<rparr>),
     v_SetEnvKeyReplacer = (\<lambda>r S. S\<lparr>src_replacer := r\<rparr>),
     v_AutomaticEnv = (\<lambda>S. S\<lparr>src_auto := True\<rparr>),
     v_BindEnv = (\<lambda>k n S. S\<lparr>src_bound := (src_bound S)(k := src_bound S k @ [n])\<rparr>),
     v_Unmarshal = (\<lambda>fs S.
       case find (\<lambda>(k, kd). isl (field_value environ decode S k kd)) fs of
         Some (k, kd) \<Rightarrow> Inl (projl (field_value environ decode S k kd))
       | None \<Rightarrow> Inr (\<lambda>k. case map_of fs k of None \<Rightarrow> CString [] | Some kd \<Rightarrow> projr (field_value environ decode S k kd)))\<rparr>"

definition mem_decode :: "conf_kind \<Rightarrow> conf_value \<Rightarrow> goerror + conf_value" where
  "mem_decode kd x =
    (if kind_of x = kd then Inr x
     else case (kd, x) of
       (KInt, CString s) \<Rightarrow> (case parse_int s of Some i \<Rightarrow> Inr (CInt i) | None \<Rightarrow> Inl (Extern ''cannot parse as int''))
     | (KFloat, CInt i) \<Rightarrow> Inr (CFloat (f_of_int i))
     | _ \<Rightarrow> Inl (Extern ''expected type does not match''))"

lemma mem_viper_contract: "viper_sources (mem_viper environ disk mem_decode) (\<lambda>S. S) environ disk mem_decode"
proof
  fix fs :: "(string \<times> conf_kind) list" and v s
  assume ok: "\<forall>(k, kd) \<in> set fs. field_value environ mem_decode v k kd = Inr (s k)"
  then have "find (\<lambda>(k, kd). isl (field_value environ mem_decode v k kd)) fs = None" by (fastforce simp: find_None_iff)
  then show "\<exists>s'. v_Unmarshal (mem_viper environ disk mem_decode) fs v = Inr s' \<and> (\<forall>k \<in> fst ` set fs. s' k = s k)"
    using ok by (fastforce simp: mem_viper_def dest: map_of_SomeD split: option.splits simp: map_of_eq_None_iff)
next
  fix fs :: "(string \<times> conf_kind) list" and v k kd bad
  assume "(k, kd) \<in> set fs" "field_value environ mem_decode v k kd = Inl bad"
  then have "find (\<lambda>(k, kd). isl (field_value environ mem_decode v k kd)) fs \<noteq> None"
    unfolding find_None_iff not_not by (intro exI [of _ "(k, kd)"]) simp
  then show "\<exists>ue. v_Unmarshal (mem_viper environ disk mem_decode) fs v = Inl ue"
    by (auto simp: mem_viper_def)
qed (auto simp: mem_viper_def mem_decode_def)

definition sample_environ :: "string \<Rightarrow> string option" where
  "sample_environ = [''TITAN_REDIS_PORT'' \<mapsto> ''7000'', ''TITAN_REDIS_HOST'' \<mapsto> []]"

definition sample_disk :: "conf_place \<Rightarrow> read_error + (string \<Rightarrow> conf_value option)" where
  "sample_disk place = (if place = ConfFile ''titan.yaml''
     then Inr [''redis.port'' \<mapsto> CInt 6380, ''redis.password'' \<mapsto> CString ''hunter2''] else Inl ConfigFileNotFoundError)"

interpretation sample_viper: viper_sources "mem_viper sample_environ sample_disk mem_decode" "\<lambda>S. S" sample_environ sample_disk mem_decode
  by (rule mem_viper_contract)


end
