(* ===== verification/Cmd.thy ===== *)
theory Cmd
  imports Configuration Worker_Theorems Api_Router
begin

text \<open>
  The two programs of the repository, \<open>cmd/api/main.go\<close> and \<open>cmd/worker/main.go\<close>: how they build their parts from the
  configuration, up to the point where they serve. The programs from there on are in \<open>Processes\<close>.
\<close>

section \<open>Setting up\<close>

text \<open>\<open>os.Exit(1)\<close> with the message that is logged before, or the parts that were built.\<close>

datatype 'a startup = Exited string goerror | Started 'a

definition main_log_config :: "string \<Rightarrow> Config \<Rightarrow> logging_Config" where
  "main_log_config service cfg = \<lparr>lc_Level = lgc_Level (cfg_Logging cfg), lc_Format = lgc_Format (cfg_Logging cfg), lc_Service = service\<rparr>"

text \<open>Only five of the fields are set: the others are zero, the threshold and the timeout of the breaker among them.\<close>

definition main_redis_options :: "Config \<Rightarrow> Options" where
  "main_redis_options cfg = \<lparr>Host = rc_Host (cfg_Redis cfg), Port = rc_Port (cfg_Redis cfg), Password = rc_Password (cfg_Redis cfg),
     DB = rc_DB (cfg_Redis cfg), PoolSize = rc_PoolSize (cfg_Redis cfg), MinIdleConns = 0, MaxRetries_opt = 0, DialTimeout = 0,
     ReadTimeout = 0, WriteTimeout = 0, CircuitBreakerThreshold = 0, CircuitBreakerTimeout = 0, ReconnectBackoffInitial = 0,
     ReconnectBackoffMax = 0\<rparr>"

definition main_connect :: "'s env \<Rightarrow> Config \<Rightarrow> 's \<Rightarrow> 's queue startup \<times> 's world" where
  "main_connect env cfg s =
    (case client_New env (main_redis_options cfg) s of (c, w) \<Rightarrow>
       run_state (do {
         r \<leftarrow> Ping c;
         case r of
           Inl err \<Rightarrow> ret (Exited ''failed to ping redis'' err)
         | Inr _ \<Rightarrow> do {
             r \<leftarrow> queue_New c queue_DefaultOptions;
             case r of
               Inl err \<Rightarrow> ret (Exited ''failed to create queue'' err)
             | Inr q \<Rightarrow> ret (Started q)
           }
       }) w)"

section \<open>The API server\<close>

record 's http_server =
  srv_Addr :: string
  srv_Handler :: "'s api_handler"
  srv_ReadTimeout :: int
  srv_WriteTimeout :: int

definition api_main :: "'v viper \<Rightarrow> chi_mux \<Rightarrow> 's env \<Rightarrow> 's \<Rightarrow> ('s http_server \<times> 's api_state) startup" where
  "api_main vp chi env s =
    (case fst (Load vp None []) of
       Inl err \<Rightarrow> Exited ''failed to load config'' err
     | Inr cfg \<Rightarrow>
        (let logger = logging_New (main_log_config ''api'' cfg)
         in case main_connect env cfg s of
              (Exited msg err, w) \<Rightarrow> Exited msg err
            | (Started q, w) \<Rightarrow>
               (let router = NewRouter chi logger \<lparr>rt_Queue = q, rt_Logger = logger, RateLimitRate = 100\<rparr>;
                    (t, w) = run_state (now (qclient q)) w
                in Started (\<lparr>srv_Addr = '':'' @ format_int (ac_Port (cfg_API cfg)), srv_Handler = router,
                      srv_ReadTimeout = ac_ReadTimeout (cfg_API cfg), srv_WriteTimeout = ac_WriteTimeout (cfg_API cfg)\<rparr>,
                    \<lparr>api_world = w, api_bucket = newTokenBucket t 100, api_log = []\<rparr>))))"

section \<open>The worker\<close>

definition main_worker_config :: "string \<Rightarrow> Config \<Rightarrow> worker_Config" where
  "main_worker_config workerID cfg = (let wc = cfg_Worker cfg in
     \<lparr>wk_ID = workerID, Concurrency = wc_Concurrency wc, wk_PollInterval = wc_PollInterval wc,
      JobTimeout = i64 (30 * wc_PollInterval wc), ShutdownTimeout = wc_BackoffMax wc,
      wk_BackoffConfig = \<lparr>Initial = wc_BackoffInitial wc, Max_backoff = wc_BackoffMax wc, Factor = wc_BackoffFactor wc,
        Jitter = f_round (1 / 10)\<rparr>\<rparr>)"

definition worker_main :: "'v viper \<Rightarrow> 's env \<Rightarrow> 's \<Rightarrow> host_state \<Rightarrow> (('s, host_state) Worker \<times> ('s, host_state) worker_state) startup" where
  "worker_main vp env s h =
    (case run_state (uuid_New env) s of (u, s) \<Rightarrow>
       let workerID = ''worker-'' @ take 8 u
       in case fst (Load vp None []) of
            Inl err \<Rightarrow> Exited ''failed to load config'' err
          | Inr cfg \<Rightarrow>
             (case main_connect env cfg s of
                (Exited msg err, w) \<Rightarrow> Exited msg err
              | (Started q, w) \<Rightarrow>
                 Started (worker_New (main_worker_config workerID cfg) (RegisterAll NewRegistry) q (qclient q) w h)))"

section \<open>Both programs start on a working Redis\<close>

context redis_server begin

lemma Ping_run [run_simps]: "ready up w \<Longrightarrow> run_state (Ping c) w = (Inr (), sent c PING w)"
  by (simp add: Ping_def run_call_ready exec_def as_unit_def)

lemma db_ping [simp]: "ready up w \<Longrightarrow> db view (sent c PING w) = db view w"
  by (simp add: db_sent)

lemma main_connect_run:
  assumes up: "up s" and c: "c = \<lparr>cenv = env, copts = main_redis_options cfg\<rparr>"
  shows "\<exists>q w. main_connect env cfg s = (Started q, w) \<and> qclient q = c \<and> qopts q = queue_DefaultOptions \<and> ready up w \<and>
    failures w = 0 \<and> db view w = keyspace (view s) \<and> scripts_loaded (scripts_in view w) q"
proof -
  define w0 where "w0 = \<lparr>srv = s, cstate = circuitClosed, failures = 0, lastFailure = 0\<rparr>"
  have r: "ready up w0" "db view w0 = keyspace (view s)" using up by (simp_all add: w0_def ready_def IsHealthy_def db_def)
  have n: "client_New env (main_redis_options cfg) s = (c, w0)" by (simp add: client_New_def c w0_def)
  note d = inj_eq [OF sha_inj]
  show ?thesis
    using r by (simp add: main_connect_def n run_simps queue_New_def scripts_loaded_def d db_ping) (simp add: sent_def)
qed

end

section \<open>The first poll of an idle worker\<close>

text \<open>A keyspace with the queue's keys of their types and no job in the critical list.\<close>

definition idle :: "'s client \<Rightarrow> keyspace \<Rightarrow> bool" where
  "idle c D \<longleftrightarrow> (\<forall>q. qclient q = c \<and> qopts q = queue_DefaultOptions \<longrightarrow> queue_wf q D \<and> pend (queue_view q D) High = [])"

lemma first_poll_opens:
  assumes q: "queue_on_redis c view stime up sha rnd (wk_queue w)" and r: "queue_ready view up (wk_queue w) (lw st)"
    and t: "CircuitBreakerThreshold (copts c) \<le> 1" "failures (lw st) = 0" and n: "0 < whole_seconds (LockTTL (qopts (wk_queue w)))"
    and e: "pend (queue_view (wk_queue w) (db view (lw st))) High = []"
  shows "\<exists>s'. run_state (processLoop w (LoopDefault # es)) st = (Returned (), s') \<and> host s' = host st \<and> \<not> IsHealthy (lw s') \<and>
    db view (lw s') = db view (lw st)"
proof (rule queue_on_redis.claim_empty [OF q r n e])
  fix w'
  assume a: "run_state (claimFromQueue (wk_queue w) (pending_key (Prefix (qopts (wk_queue w))) High)) (lw st) =
      (Inl (Wrapf ''claim script blew up'' (Wrapf ''redis evalsha'' ErrNotFound)), w')"
    "db view w' = db view (lw st)"
    "cstate w' = (if CircuitBreakerThreshold (copts c) \<le> sint (failures (lw st) + 1) then circuitOpen else cstate (lw st))"
  have open_circuit: "\<not> IsHealthy w'" using a(3) t by (simp add: IsHealthy_def)
  have "IsHealthy (lw st)" using queue_readyD(1) [OF r] by (simp add: ready_def)
  then have "run_state (processLoop w (LoopDefault # es)) st = (Returned (), st\<lparr>lw := w'\<rparr>)"
    using queue_on_redis.Claim_first_queue [OF q a(1), of "wk_PollInterval (wk_cfg w)"] stalled_loop [of "st\<lparr>lw := w'\<rparr>" w es] open_circuit
    by (simp add: run_simps)
  then show ?thesis using open_circuit a(2) by simp
qed

text \<open>The worker program on a working Redis, with a configuration that loads.\<close>

lemma worker_main_starts:
  assumes rs: "redis_server \<lparr>cenv = env, copts = main_redis_options cfg\<rparr> view stime up sha rnd" and "up s"
    and "fst (Load vp None []) = Inr cfg"
  obtains k st where "worker_main vp env s h = Started (k, st)" "host st = h" "ready up (lw st)" "failures (lw st) = 0"
    "db view (lw st) = keyspace (view s)" "qclient (wk_queue k) = \<lparr>cenv = env, copts = main_redis_options cfg\<rparr>"
    "qopts (wk_queue k) = queue_DefaultOptions" "scripts_loaded (scripts_in view (lw st)) (wk_queue k)"
proof -
  let ?c = "\<lparr>cenv = env, copts = main_redis_options cfg\<rparr>"
  obtain u s1 where u: "run_state (uuid_New env) s = (u, s1)" by (cases "run_state (uuid_New env) s")
  then have s1: "up s1" "view s1 = view s" using redis_server.fresh [OF rs, of s u s1] \<open>up s\<close> by auto
  obtain q w where q: "main_connect env cfg s1 = (Started q, w)" "qclient q = ?c" "qopts q = queue_DefaultOptions" "ready up w"
      "failures w = 0" "db view w = keyspace (view s1)" "scripts_loaded (scripts_in view w) q"
    using redis_server.main_connect_run [OF rs s1(1) refl] by blast
  obtain k st where k: "worker_New (main_worker_config (''worker-'' @ take 8 u) cfg) (RegisterAll NewRegistry) q ?c w h = (k, st)"
    by (cases "worker_New (main_worker_config (''worker-'' @ take 8 u) cfg) (RegisterAll NewRegistry) q ?c w h")
  then have "wk_queue k = q" "lw st = w" "host st = h"
    by (auto simp: worker_New_def watchdog_New_def service.extend_def)
  moreover have "worker_main vp env s h = Started (k, st)" using k by (simp add: worker_main_def u assms(3) q)
  ultimately show thesis using that [of k st] q s1(2) by simp
qed


text \<open>The contract of Redis speaks of the environment of a client only, and without a file and variables loading succeeds.\<close>

lemma redis_server_options:
  "redis_server c view stime up sha rnd \<Longrightarrow> cenv c' = cenv c \<Longrightarrow> redis_server c' view stime up sha rnd"
proof -
  assume "cenv c' = cenv c"
  then have "redis_server c' view stime up sha rnd = redis_server c view stime up sha rnd" by (simp only: redis_server_def)
  then show "redis_server c view stime up sha rnd \<Longrightarrow> ?thesis" by simp
qed

abbreviation no_file :: "conf_place \<Rightarrow> read_error + (string \<Rightarrow> conf_value option)" where
  "no_file \<equiv> \<lambda>_. Inl ConfigFileNotFoundError"

lemma Load_defaults: "\<exists>cfg. fst (Load (mem_viper Map.empty no_file mem_decode) None []) = Inr cfg"
proof (rule viper_sources.Load_run [OF mem_viper_contract [of Map.empty no_file], of None])
  show "None = None \<or> None = Some config_flags" by simp
next
  fix v
  assume v: "v = loaded (case no_file (searched []) of Inr m \<Rightarrow> m | Inl _ \<Rightarrow> Map.empty) (searched [])"
    and l: "Load (mem_viper Map.empty no_file mem_decode) None [] =
      (case no_file (searched []) of
         Inl (ReadError x) \<Rightarrow> Inl (Wrapf ''error reading config file'' x)
       | _ \<Rightarrow> (case v_Unmarshal (mem_viper Map.empty no_file mem_decode) config_fields v of
             Inl x \<Rightarrow> Inl (Wrapf ''error unmarshaling config'' x)
           | Inr s \<Rightarrow> Inr (config_of s)), Some config_flags)"
  have "\<exists>s. v_Unmarshal (mem_viper Map.empty no_file mem_decode) config_fields v = Inr s"
    using viper_sources.Unmarshal_configured [OF mem_viper_contract [of Map.empty no_file], of v Map.empty "searched []"] v
    by (auto simp: configured_def present_def split: option.splits if_splits)
  then show ?thesis using l by auto
qed


end
