(* ===== verification/Processes.thy ===== *)
theory Processes
  imports Cmd
begin

text \<open>
  The two programs while they run, from the end of their setup to the end of the process (\<open>cmd/worker/main.go\<close>,
  \<open>cmd/api/main.go\<close>): \<open>main\<close> waits for a signal while the goroutines it launched work. A step is a step of one goroutine; a process
  is over when \<open>main\<close> returns, whatever its goroutines are doing.
\<close>

section \<open>Frames\<close>

text \<open>A program that leaves the part \<open>f\<close> of its state alone.\<close>

definition keeps :: "('s \<Rightarrow> 'b) \<Rightarrow> ('s, 'a) state \<Rightarrow> bool" where
  "keeps f m \<longleftrightarrow> (\<forall>s. f (snd (run_state m s)) = f s)"

lemma keeps_run: "keeps f m \<Longrightarrow> run_state m s = (a, s') \<Longrightarrow> f s' = f s"
  unfolding keeps_def by (metis snd_conv)

lemma keeps_ret [simp]: "keeps f (ret a)" "keeps f read_state"
  by (simp_all add: keeps_def)

lemma keeps_bind: "keeps f m \<Longrightarrow> (\<And>a. keeps f (k a)) \<Longrightarrow> keeps f (State_Monad.bind m k)"
  by (simp add: keeps_def split: prod.split) (metis snd_conv)

lemma keeps_modify: "(\<And>s. f (g s) = f s) \<Longrightarrow> keeps f (modify_state g)"
  by (simp add: keeps_def)

section \<open>The worker process\<close>

datatype main_status = MainWaiting | MainStopping | MainReturned | MainExited goerror | Crashed panic_value
datatype run_status = RunNotStarted | RunWaiting | RunReturned

record ('s, 'h) worker_proc =
  wp_state :: "('s, 'h) worker_state"
  wp_main :: main_status
  wp_run :: run_status

fun alive_main :: "main_status \<Rightarrow> bool" where
  "alive_main MainWaiting \<longleftrightarrow> True"
| "alive_main MainStopping \<longleftrightarrow> True"
| "alive_main _ \<longleftrightarrow> False"

text \<open>
  The goroutine of \<open>main\<close> that calls \<open>Run\<close>, the processing loops that \<open>Run\<close> launches, its watchdog, and \<open>main\<close> itself:
  the signal with the call of \<open>Stop\<close>, and the return, are two steps, so that the others may run between them. A panic of a
  goroutine ends the process.
\<close>

inductive worker_step :: "('s, 'h) Worker \<Rightarrow> ('s, 'h) worker_proc \<Rightarrow> ('s, 'h) worker_proc \<Rightarrow> bool" for w where
  run_begins: "alive_main (wp_main P) \<Longrightarrow> wp_run P = RunNotStarted \<Longrightarrow>
    run_state (worker_Run_begin w) (wp_state P) = (r, s) \<Longrightarrow>
    worker_step w P (P\<lparr>wp_state := s, wp_run := (case r of None \<Rightarrow> RunReturned | Some _ \<Rightarrow> RunWaiting)\<rparr>)"
| loop_polls: "alive_main (wp_main P) \<Longrightarrow> wp_run P = RunWaiting \<Longrightarrow> 0 < Concurrency (wk_cfg w) \<Longrightarrow> \<not> wk_stop_closed (wp_state P) \<Longrightarrow>
    run_state (processLoop w [LoopDefault]) (wp_state P) = (Returned (), s) \<Longrightarrow> worker_step w P (P\<lparr>wp_state := s\<rparr>)"
| loop_panics: "alive_main (wp_main P) \<Longrightarrow> wp_run P = RunWaiting \<Longrightarrow> 0 < Concurrency (wk_cfg w) \<Longrightarrow> \<not> wk_stop_closed (wp_state P) \<Longrightarrow>
    run_state (processLoop w [LoopDefault]) (wp_state P) = (Panicked v, s) \<Longrightarrow>
    worker_step w P (P\<lparr>wp_state := s, wp_main := Crashed v\<rparr>)"
| watchdog_ticks: "alive_main (wp_main P) \<Longrightarrow> svc_running (wp_state P) \<Longrightarrow> e \<in> {RenewTick, WorkTick} \<Longrightarrow>
    run_state (watchdog_run (wk_watchdog w) [e]) (wp_state P) = ((), s) \<Longrightarrow> worker_step w P (P\<lparr>wp_state := s\<rparr>)"
| run_ends: "alive_main (wp_main P) \<Longrightarrow> wp_run P = RunWaiting \<Longrightarrow> wk_stop_closed (wp_state P) \<Longrightarrow>
    run_state (worker_Run_end w) (wp_state P) = (Returned (), s) \<Longrightarrow> worker_step w P (P\<lparr>wp_state := s, wp_run := RunReturned\<rparr>)"
| main_signalled: "wp_main P = MainWaiting \<Longrightarrow> run_state worker_Stop (wp_state P) = (Returned (), s) \<Longrightarrow>
    worker_step w P (P\<lparr>wp_state := s, wp_main := MainStopping\<rparr>)"
| main_returns: "wp_main P = MainStopping \<Longrightarrow> worker_step w P (P\<lparr>wp_main := MainReturned\<rparr>)"

text \<open>The process after its setup, and the states it can reach.\<close>

definition worker_proc_start :: "('s, 'h) worker_state \<Rightarrow> ('s, 'h) worker_proc" where
  "worker_proc_start s = \<lparr>wp_state = s, wp_main = MainWaiting, wp_run = RunNotStarted\<rparr>"

definition worker_reaches :: "('s, 'h) Worker \<Rightarrow> ('s, 'h) worker_proc \<Rightarrow> ('s, 'h) worker_proc \<Rightarrow> bool" where
  "worker_reaches w = (worker_step w)\<^sup>*\<^sup>*"

lemma over_is_final: "\<not> alive_main (wp_main P) \<Longrightarrow> \<not> worker_step w P P'"
  by (auto elim!: worker_step.cases)

definition flags :: "('s, 'h) worker_state \<Rightarrow> bool \<times> bool \<times> bool \<times> bool" where
  "flags s = (svc_running s, stopCh_closed s, wk_running s, wk_stop_closed s)"

lemma flags_eqD:
  "flags s = flags s' \<Longrightarrow> svc_running s = svc_running s'" "flags s = flags s' \<Longrightarrow> stopCh_closed s = stopCh_closed s'"
  "flags s = flags s' \<Longrightarrow> wk_running s = wk_running s'" "flags s = flags s' \<Longrightarrow> wk_stop_closed s = wk_stop_closed s'"
  by (simp_all add: flags_def)

lemma keeps_flags [simp]:
  "keeps flags (on_world m)" "keeps flags (on_host n)" "keeps flags (set_leader b)"
  "keeps flags (modify_state (\<lambda>s. s\<lparr>processing := g s\<rparr>))"
  by (auto simp: keeps_def flags_def run_simps set_leader_def split: prod.split)

lemma keeps_processLoop: "keeps flags (processLoop w es)"
proof (induction w es rule: processLoop.induct)
  case (2 w e es)
  have "keeps flags (handleJobFailure w j t)" for j t by (auto simp: handleJobFailure_def intro!: keeps_bind)
  moreover have "keeps flags (executeHandler h j)" for h j
    by (auto simp: executeHandler_def Let_def intro!: keeps_bind split: prod.split option.split)
  ultimately have "keeps flags (processJob w j)" for j
    by (auto simp: processJob_def intro!: keeps_bind split: option.split outcome.split sum.split)
  then show ?case using 2 by (auto intro!: keeps_bind split: loop_event.split sum.split option.split outcome.split)
qed simp

lemma keeps_watchdog_run: "keeps flags (watchdog_run wd es)"
proof (induction wd es rule: watchdog_run.induct)
  case (2 wd e es)
  have "keeps flags (TryAcquire l)" "keeps flags (Renew l)" for l :: "'a leaderElection"
    by (auto simp: TryAcquire_def Renew_def renew_extend_def intro!: keeps_bind split: sum.split)
  then have "keeps flags (watchdog_tryMaintainLeadership wd)" "keeps flags (scanAndRecover wd)"
    by (auto simp: watchdog_tryMaintainLeadership_def scanAndRecover_def intro!: keeps_bind split: sum.split)
  then show ?case using 2 by (auto intro!: keeps_bind split: service_event.split)
qed simp

text \<open>What the flags say of the goroutines.\<close>

definition worker_proc_inv :: "('s, 'h) worker_proc \<Rightarrow> bool" where
  "worker_proc_inv P \<longleftrightarrow>
    (let s = wp_state P in
     (wp_run P = RunNotStarted \<longrightarrow> \<not> svc_running s \<and> \<not> stopCh_closed s \<and> \<not> wk_running s) \<and>
     (wp_run P = RunWaiting \<longrightarrow> svc_running s \<and> \<not> stopCh_closed s \<and> wk_running s) \<and>
     (wp_main P = MainWaiting \<longrightarrow> \<not> wk_stop_closed s))"

lemma worker_proc_inv_start:
  assumes "worker_main vp env s h = Started (w, st)"
  shows "worker_proc_inv (worker_proc_start st)"
  using assms by (auto simp: worker_main_def worker_New_def watchdog_New_def service.extend_def worker_proc_inv_def worker_proc_start_def
      Let_def split: prod.splits sum.splits startup.splits)

lemma worker_proc_inv_step:
  assumes "worker_step w P P'" "worker_proc_inv P"
  shows "worker_proc_inv P'"
  using assms
proof cases
  case (run_begins r s)
  then show ?thesis using assms(2)
    by (auto simp: worker_Run_begin_def watchdog_Start_def run_simps worker_proc_inv_def Let_def)
next
  case (loop_polls s)
  then show ?thesis using assms(2) flags_eqD [OF keeps_run [OF keeps_processLoop loop_polls(6)]]
    by (simp add: worker_proc_inv_def Let_def)
next
  case (loop_panics v s)
  then show ?thesis using assms(2) flags_eqD [OF keeps_run [OF keeps_processLoop loop_panics(6)]]
    by (simp add: worker_proc_inv_def Let_def)
next
  case (watchdog_ticks e s)
  then show ?thesis using assms(2) flags_eqD [OF keeps_run [OF keeps_watchdog_run watchdog_ticks(5)]]
    by (simp add: worker_proc_inv_def Let_def)
next
  case (run_ends s)
  then have "wp_main P \<noteq> MainWaiting" using assms(2) by (auto simp: worker_proc_inv_def Let_def)
  then show ?thesis using run_ends by (simp add: worker_proc_inv_def)
next
  case (main_signalled s)
  then show ?thesis using assms(2) by (auto simp: worker_Stop_def run_simps worker_proc_inv_def Let_def split: if_splits)
next
  case main_returns
  then show ?thesis using assms(2) by (simp add: worker_proc_inv_def Let_def)
qed

lemma worker_proc_inv_reaches: "worker_reaches w P P' \<Longrightarrow> worker_proc_inv P \<Longrightarrow> worker_proc_inv P'"
  unfolding worker_reaches_def by (induction rule: rtranclp_induct) (auto intro: worker_proc_inv_step)

lemma Run_end_returns:
  assumes "svc_running s" "\<not> stopCh_closed s"
  shows "\<exists>s'. run_state (worker_Run_end w) s = (Returned (), s') \<and> \<not> wk_running s' \<and> \<not> svc_running s'"
proof -
  have k: "keeps flags (Release l)" for l :: "'a leaderElection"
    by (auto simp: Release_def release_delete_def intro!: keeps_bind split: sum.split)
  obtain r s1 where s1: "run_state (Release (wleader (wk_watchdog w))) (s\<lparr>svc_running := False, stopCh_closed := True\<rparr>) = (r, s1)"
    by (cases "run_state (Release (wleader (wk_watchdog w))) (s\<lparr>svc_running := False, stopCh_closed := True\<rparr>)")
  then have "\<not> svc_running s1" using flags_eqD(1) [OF keeps_run [OF k]] by fastforce
  then show ?thesis using assms s1 by (simp add: worker_Run_end_def watchdog_Stop_def run_simps)
qed

text \<open>C30. The worker program can be stopped at any time: in every state that it reaches, the stop after a signal does not panic, nor does
  the shutdown of \<open>Run\<close> that follows. But \<open>main\<close> does not wait for that shutdown: from every state in which the worker runs, the process
  may end right after the signal with \<open>Run\<close> still at its wait, so that the watchdog was never stopped, the leader's lock was
  not released and the jobs in processing stay there.\<close>

theorem worker_shutdown:
  assumes "worker_main vp env s h = Started (w, st)" and "worker_reaches w (worker_proc_start st) P" and "alive_main (wp_main P)"
  shows "(wp_main P = MainWaiting \<longrightarrow> (\<exists>s'. run_state worker_Stop (wp_state P) = (Returned (), s'))) \<and>
    (wp_run P = RunWaiting \<longrightarrow> (\<exists>s'. run_state (worker_Run_end w) (wp_state P) = (Returned (), s') \<and>
       \<not> wk_running s' \<and> \<not> svc_running s')) \<and>
    (wp_main P = MainWaiting \<and> wp_run P = RunWaiting \<longrightarrow>
      (\<exists>P'. worker_reaches w P P' \<and> wp_main P' = MainReturned \<and> wp_run P' = RunWaiting \<and>
         lw (wp_state P') = lw (wp_state P) \<and> isLeader (wp_state P') = isLeader (wp_state P) \<and> svc_running (wp_state P') \<and>
         (\<forall>P''. \<not> worker_step w P' P'')))"
proof (intro conjI impI)
  have inv: "worker_proc_inv P" using worker_proc_inv_reaches [OF assms(2) worker_proc_inv_start [OF assms(1)]] .
  let ?s = "wp_state P"
  have stop: "run_state worker_Stop ?s = (Returned (), if wk_running ?s then ?s\<lparr>wk_stop_closed := True\<rparr> else ?s)"
    if "wp_main P = MainWaiting"
    using that inv by (simp add: worker_Stop_def run_simps worker_proc_inv_def Let_def)
  then show "\<exists>s'. run_state worker_Stop ?s = (Returned (), s')" if "wp_main P = MainWaiting" using that by simp
  show "\<exists>s'. run_state (worker_Run_end w) ?s = (Returned (), s') \<and> \<not> wk_running s' \<and> \<not> svc_running s'" if "wp_run P = RunWaiting"
    using Run_end_returns [of ?s w] that inv by (simp add: worker_proc_inv_def Let_def)
  assume run: "wp_main P = MainWaiting \<and> wp_run P = RunWaiting"
  define P1 where "P1 = P\<lparr>wp_state := ?s\<lparr>wk_stop_closed := True\<rparr>, wp_main := MainStopping\<rparr>"
  have r: "wk_running ?s" "svc_running ?s" using run inv by (auto simp: worker_proc_inv_def Let_def)
  have "worker_step w P P1" unfolding P1_def using main_signalled [of P "?s\<lparr>wk_stop_closed := True\<rparr>" w] run stop r by simp
  moreover have "worker_step w P1 (P1\<lparr>wp_main := MainReturned\<rparr>)" by (rule main_returns) (simp add: P1_def)
  ultimately have "worker_reaches w P (P1\<lparr>wp_main := MainReturned\<rparr>)" unfolding worker_reaches_def by simp
  then show "\<exists>P'. worker_reaches w P P' \<and> wp_main P' = MainReturned \<and> wp_run P' = RunWaiting \<and>
      lw (wp_state P') = lw (wp_state P) \<and> isLeader (wp_state P') = isLeader (wp_state P) \<and> svc_running (wp_state P') \<and>
      (\<forall>P''. \<not> worker_step w P' P'')"
    using run r over_is_final [of "P1\<lparr>wp_main := MainReturned\<rparr>" w] by (intro exI [of _ "P1\<lparr>wp_main := MainReturned\<rparr>"]) (simp add: P1_def)
qed

text \<open>The worker with a Redis in memory, once \<open>Run\<close> waits: the process may end with the watchdog running.\<close>

theorem worker_shutdown_witness:
  "\<exists>w st P'. worker_main (mem_viper Map.empty no_file mem_decode) mem_env mem_start fresh_host = Started (w, st) \<and>
     worker_reaches w (worker_proc_start st) P' \<and> wp_main P' = MainReturned \<and> svc_running (wp_state P')"
proof -
  obtain cfg where cfg: "fst (Load (mem_viper Map.empty no_file mem_decode) None []) = Inr cfg" using Load_defaults by blast
  have rs: "redis_server \<lparr>cenv = mem_env, copts = main_redis_options cfg\<rparr> mem ms alive sha_text ''0.5''"
    by (rule redis_server_options [OF memory_contract]) (simp add: mem_client_def)
  have "alive mem_start" by (simp add: mem_start_def)
  then obtain w st where w: "worker_main (mem_viper Map.empty no_file mem_decode) mem_env mem_start fresh_host = Started (w, st)"
    using worker_main_starts [OF rs _ cfg] by metis
  note inv = worker_proc_inv_start [OF w]
  let ?P = "worker_proc_start st"
  obtain r s1 where s1: "run_state (worker_Run_begin w) st = (r, s1)" by (cases "run_state (worker_Run_begin w) st")
  with inv have "r \<noteq> None" by (auto simp: worker_Run_begin_def watchdog_Start_def run_simps worker_proc_inv_def worker_proc_start_def Let_def)
  define P where "P = ?P\<lparr>wp_state := s1, wp_run := RunWaiting\<rparr>"
  have "worker_step w ?P P" using run_begins [of ?P w r s1] \<open>r \<noteq> None\<close> s1 by (auto simp: worker_proc_start_def P_def)
  then have P: "worker_reaches w ?P P" by (simp add: worker_reaches_def)
  moreover have "wp_main P = MainWaiting" "wp_run P = RunWaiting" "alive_main (wp_main P)" by (simp_all add: P_def worker_proc_start_def)
  ultimately obtain P' where "worker_reaches w P P'" "wp_main P' = MainReturned" "svc_running (wp_state P')"
    using worker_shutdown [OF w P] by blast
  then show ?thesis using w P unfolding worker_reaches_def by (meson rtranclp_trans)
qed

section \<open>The API process\<close>

text \<open>
  Requests that the server has accepted and not answered yet, and what it answered. \<open>Shutdown\<close> of \<open>net/http\<close> stops accepting and
  returns nil once no request is open, or the error of its context after its 30 seconds. A request is answered in one step.
\<close>

record 's api_proc =
  ap_state :: "'s api_state"
  ap_main :: main_status
  ap_listening :: bool
  ap_open :: "http_request list"
  ap_accepted :: "http_request list"
  ap_answered :: "(http_request \<times> http_response) list"
  ap_shutdown :: "goerror option"

inductive api_step :: "'s http_server \<Rightarrow> 's api_proc \<Rightarrow> 's api_proc \<Rightarrow> bool" for sv where
  listens: "ap_main P = MainWaiting \<Longrightarrow> api_step sv P (P\<lparr>ap_listening := True\<rparr>)"
| listen_fails: "alive_main (ap_main P) \<Longrightarrow> err \<noteq> Sentinel ''http: Server closed'' \<Longrightarrow> api_step sv P (P\<lparr>ap_main := MainExited err\<rparr>)"
| accepts: "alive_main (ap_main P) \<Longrightarrow> ap_listening P \<Longrightarrow>
    api_step sv P (P\<lparr>ap_open := r # ap_open P, ap_accepted := r # ap_accepted P\<rparr>)"
| answers: "alive_main (ap_main P) \<Longrightarrow> r \<in> set (ap_open P) \<Longrightarrow> run_state (srv_Handler sv r) (ap_state P) = (resp, s) \<Longrightarrow>
    api_step sv P (P\<lparr>ap_state := s, ap_open := remove1 r (ap_open P), ap_answered := (r, resp) # ap_answered P\<rparr>)"
| signalled: "ap_main P = MainWaiting \<Longrightarrow> api_step sv P (P\<lparr>ap_main := MainStopping, ap_listening := False\<rparr>)"
| drained: "ap_main P = MainStopping \<Longrightarrow> ap_open P = [] \<Longrightarrow> api_step sv P (P\<lparr>ap_main := MainReturned, ap_shutdown := None\<rparr>)"
| times_out: "ap_main P = MainStopping \<Longrightarrow> api_step sv P (P\<lparr>ap_main := MainReturned, ap_shutdown := Some err\<rparr>)"

definition api_proc_start :: "'s api_state \<Rightarrow> 's api_proc" where
  "api_proc_start s = \<lparr>ap_state = s, ap_main = MainWaiting, ap_listening = False, ap_open = [], ap_accepted = [], ap_answered = [],
     ap_shutdown = None\<rparr>"

definition api_reaches :: "'s http_server \<Rightarrow> 's api_proc \<Rightarrow> 's api_proc \<Rightarrow> bool" where
  "api_reaches sv = (api_step sv)\<^sup>*\<^sup>*"

definition api_proc_inv :: "'s api_proc \<Rightarrow> bool" where
  "api_proc_inv P \<longleftrightarrow> mset (ap_accepted P) = mset (ap_open P) + mset (map fst (ap_answered P)) \<and>
     (ap_main P = MainStopping \<longrightarrow> \<not> ap_listening P) \<and> (ap_main P = MainReturned \<and> ap_shutdown P = None \<longrightarrow> ap_open P = [])"

lemma api_proc_inv_step: "api_step sv P P' \<Longrightarrow> api_proc_inv P \<Longrightarrow> api_proc_inv P'"
  by (induction rule: api_step.induct) (auto simp: api_proc_inv_def)

lemma api_proc_inv_reaches: "api_reaches sv P P' \<Longrightarrow> api_proc_inv P \<Longrightarrow> api_proc_inv P'"
  unfolding api_reaches_def by (induction rule: rtranclp_induct) (auto intro: api_proc_inv_step)

text \<open>The API program drains: when its shutdown reports no error, every request that it accepted was answered before the process ended,
  once for each time it was accepted, and between the signal and the end it accepts no request.\<close>

lemma api_shutdown_drains:
  assumes "api_reaches sv (api_proc_start st) P"
  shows "(ap_main P = MainReturned \<and> ap_shutdown P = None \<longrightarrow> mset (map fst (ap_answered P)) = mset (ap_accepted P)) \<and>
    (ap_main P = MainStopping \<longrightarrow> (\<forall>P'. api_step sv P P' \<longrightarrow> ap_accepted P' = ap_accepted P))"
proof -
  have "api_proc_inv (api_proc_start st)" by (simp add: api_proc_inv_def api_proc_start_def)
  then have inv: "api_proc_inv P" by (rule api_proc_inv_reaches [OF assms])
  have "ap_accepted P' = ap_accepted P" if "ap_main P = MainStopping" "api_step sv P P'" for P'
    using that(2,1) inv by cases (auto simp: api_proc_inv_def)
  then show ?thesis using inv by (auto simp: api_proc_inv_def)
qed

end
