(* ===== verification/Metrics.thy ===== *)
theory Metrics
  imports Go_Text Go_Float
begin

text \<open>
  The metrics package: the collectors of \<open>metrics/metrics.go\<close> with the functions that record into them, and the server of
  \<open>metrics/server.go\<close>. The prometheus client is not part of the program: it is the operations of a record, with
  what its documentation promises in the locale \<open>prometheus_client\<close>. A metric is written with finite floats.
\<close>

section \<open>The prometheus client\<close>

record Opts =
  mo_Name :: string
  mo_Help :: string

record ('r, 'v, 'm) prometheus =
  prom_NewCounterVec :: "Opts \<Rightarrow> string list \<Rightarrow> ('r, 'v outcome) state"
  prom_NewHistogramVec :: "Opts \<Rightarrow> rat list \<Rightarrow> string list \<Rightarrow> ('r, 'v outcome) state"
  prom_NewGaugeVec :: "Opts \<Rightarrow> string list \<Rightarrow> ('r, 'v outcome) state"
  prom_NewGauge :: "Opts \<Rightarrow> ('r, 'm outcome) state"
  prom_WithLabelValues :: "'v \<Rightarrow> string list \<Rightarrow> ('r, 'm outcome) state"
  prom_Inc :: "'m \<Rightarrow> ('r, unit) state"
  prom_Set :: "'m \<Rightarrow> rat \<Rightarrow> ('r, unit) state"
  prom_Observe :: "'m \<Rightarrow> rat \<Rightarrow> ('r, unit) state"
  prom_DefBuckets :: "rat list"

text \<open>A call that may panic, and what follows it.\<close>

definition or_panic :: "('s, 'a outcome) state \<Rightarrow> ('a \<Rightarrow> ('s, 'b outcome) state) \<Rightarrow> ('s, 'b outcome) state" where
  "or_panic m k = do { r \<leftarrow> m; case r of Panicked v \<Rightarrow> ret (Panicked v) | Returned a \<Rightarrow> k a }"

lemma run_or_panic [run_simps]:
  "run_state (or_panic m k) s =
     (case run_state m s of (r, s') \<Rightarrow> (case r of Panicked v \<Rightarrow> (Panicked v, s') | Returned a \<Rightarrow> run_state (k a) s'))"
  by (simp add: or_panic_def split: prod.split outcome.split)

lemma or_panic_returns:
  "\<exists>a s'. run_state m s = (Returned a, s') \<and> P a s' \<Longrightarrow>
   (\<And>a s'. P a s' \<Longrightarrow> \<exists>b s''. run_state (k a) s' = (Returned b, s'') \<and> Q b s'') \<Longrightarrow>
   \<exists>b s''. run_state (or_panic m k) s = (Returned b, s'') \<and> Q b s''"
  by (auto simp: run_or_panic)

section \<open>The collectors\<close>

text \<open>The package variables, and their initialisation in the order of their declaration.\<close>

record ('v, 'm) collectors =
  JobsSubmitted :: 'v
  JobsProcessed :: 'v
  JobDuration :: 'v
  QueueDepth :: 'v
  WorkersActive :: 'm
  DLQSize :: 'm
  RedisConnections :: 'm
  RedisErrors :: 'v

definition JobsSubmitted_opts :: Opts where
  "JobsSubmitted_opts = \<lparr>mo_Name = ''titan_jobs_submitted_total'', mo_Help = ''total jobs submitted''\<rparr>"
definition JobsProcessed_opts :: Opts where
  "JobsProcessed_opts = \<lparr>mo_Name = ''titan_jobs_processed_total'', mo_Help = ''total jobs processed''\<rparr>"
definition JobDuration_opts :: Opts where
  "JobDuration_opts = \<lparr>mo_Name = ''titan_jobs_duration_seconds'', mo_Help = ''job processing duration in seconds''\<rparr>"
definition QueueDepth_opts :: Opts where
  "QueueDepth_opts = \<lparr>mo_Name = ''titan_queue_depth'', mo_Help = ''current queue depth''\<rparr>"
definition WorkersActive_opts :: Opts where
  "WorkersActive_opts = \<lparr>mo_Name = ''titan_workers_active'', mo_Help = ''number of active workers''\<rparr>"
definition DLQSize_opts :: Opts where
  "DLQSize_opts = \<lparr>mo_Name = ''titan_dlq_size'', mo_Help = ''dead letter queue size''\<rparr>"
definition RedisConnections_opts :: Opts where
  "RedisConnections_opts = \<lparr>mo_Name = ''titan_redis_connections'', mo_Help = ''redis connection pool size''\<rparr>"
definition RedisErrors_opts :: Opts where
  "RedisErrors_opts = \<lparr>mo_Name = ''titan_redis_errors_total'', mo_Help = ''redis errors by operation''\<rparr>"

lemmas opts_defs = JobsSubmitted_opts_def JobsProcessed_opts_def JobDuration_opts_def QueueDepth_opts_def
  WorkersActive_opts_def DLQSize_opts_def RedisConnections_opts_def RedisErrors_opts_def

definition collectors_init :: "('r, 'v, 'm) prometheus \<Rightarrow> ('r, ('v, 'm) collectors outcome) state" where
  "collectors_init p =
    or_panic (prom_NewCounterVec p JobsSubmitted_opts [''priority'', ''type'']) (\<lambda>submitted.
    or_panic (prom_NewCounterVec p JobsProcessed_opts [''status'', ''type'']) (\<lambda>processed.
    or_panic (prom_NewHistogramVec p JobDuration_opts (prom_DefBuckets p) [''type'']) (\<lambda>duration.
    or_panic (prom_NewGaugeVec p QueueDepth_opts [''priority'']) (\<lambda>depth.
    or_panic (prom_NewGauge p WorkersActive_opts) (\<lambda>workers.
    or_panic (prom_NewGauge p DLQSize_opts) (\<lambda>dlq.
    or_panic (prom_NewGauge p RedisConnections_opts) (\<lambda>connections.
    or_panic (prom_NewCounterVec p RedisErrors_opts [''operation'']) (\<lambda>errs.
      ret (Returned \<lparr>JobsSubmitted = submitted, JobsProcessed = processed, JobDuration = duration, QueueDepth = depth,
        WorkersActive = workers, DLQSize = dlq, RedisConnections = connections, RedisErrors = errs\<rparr>)))))))))"

definition RecordJobSubmitted :: "('r, 'v, 'm) prometheus \<Rightarrow> ('v, 'm) collectors \<Rightarrow> string \<Rightarrow> string \<Rightarrow> ('r, unit outcome) state" where
  "RecordJobSubmitted p c priority jobType =
    or_panic (prom_WithLabelValues p (JobsSubmitted c) [priority, jobType]) (\<lambda>m. do { prom_Inc p m; ret (Returned ()) })"

definition RecordJobProcessed :: "('r, 'v, 'm) prometheus \<Rightarrow> ('v, 'm) collectors \<Rightarrow> string \<Rightarrow> string \<Rightarrow> ('r, unit outcome) state" where
  "RecordJobProcessed p c status jobType =
    or_panic (prom_WithLabelValues p (JobsProcessed c) [status, jobType]) (\<lambda>m. do { prom_Inc p m; ret (Returned ()) })"

definition RecordJobDuration :: "('r, 'v, 'm) prometheus \<Rightarrow> ('v, 'm) collectors \<Rightarrow> string \<Rightarrow> rat \<Rightarrow> ('r, unit outcome) state" where
  "RecordJobDuration p c jobType seconds =
    or_panic (prom_WithLabelValues p (JobDuration c) [jobType]) (\<lambda>m. do { prom_Observe p m seconds; ret (Returned ()) })"

definition SetQueueDepth :: "('r, 'v, 'm) prometheus \<Rightarrow> ('v, 'm) collectors \<Rightarrow> string \<Rightarrow> rat \<Rightarrow> ('r, unit outcome) state" where
  "SetQueueDepth p c priority depth =
    or_panic (prom_WithLabelValues p (QueueDepth c) [priority]) (\<lambda>m. do { prom_Set p m depth; ret (Returned ()) })"

definition SetWorkersActive :: "('r, 'v, 'm) prometheus \<Rightarrow> ('v, 'm) collectors \<Rightarrow> rat \<Rightarrow> ('r, unit outcome) state" where
  "SetWorkersActive p c count = do { prom_Set p (WorkersActive c) count; ret (Returned ()) }"

definition SetDLQSize :: "('r, 'v, 'm) prometheus \<Rightarrow> ('v, 'm) collectors \<Rightarrow> rat \<Rightarrow> ('r, unit outcome) state" where
  "SetDLQSize p c n = do { prom_Set p (DLQSize c) n; ret (Returned ()) }"

definition RecordRedisError :: "('r, 'v, 'm) prometheus \<Rightarrow> ('v, 'm) collectors \<Rightarrow> string \<Rightarrow> ('r, unit outcome) state" where
  "RecordRedisError p c operation =
    or_panic (prom_WithLabelValues p (RedisErrors c) [operation]) (\<lambda>m. do { prom_Inc p m; ret (Returned ()) })"

section \<open>The server\<close>

text \<open>\<open>http.ServeMux\<close> with patterns that are plain paths: a request goes to the handler of its path, or is not found.\<close>

record 'h metrics_http =
  mh_Addr :: string
  mh_Handler :: "(string \<times> 'h) list"

record 'h metrics_Server =
  ms_addr :: string
  ms_srv :: "'h metrics_http"

definition metrics_NewServer :: "'h \<Rightarrow> string \<Rightarrow> 'h metrics_Server" where
  "metrics_NewServer promhttp_Handler addr =
    (let mux = [(''/metrics'', promhttp_Handler)] in \<lparr>ms_addr = addr, ms_srv = \<lparr>mh_Addr = addr, mh_Handler = mux\<rparr>\<rparr>)"

definition serves :: "'h metrics_Server \<Rightarrow> string \<Rightarrow> 'h option" where
  "serves s path = map_of (mh_Handler (ms_srv s)) path"

text \<open>
  What \<open>http.Server\<close> keeps: whether it was closed, its open listeners, and here the goroutines of \<open>Start\<close> that have yet
  to call \<open>ListenAndServe\<close>. Whether the address can be bound is up to the operating system.
\<close>

record server_state =
  in_shutdown :: bool
  listeners :: nat
  goroutines :: nat

definition metrics_Start :: "(server_state, goerror option) state" where
  "metrics_Start = do { modify_state (\<lambda>s. s\<lparr>goroutines := goroutines s + 1\<rparr>); ret None }"

definition ListenAndServe :: "goerror option \<Rightarrow> (server_state, goerror option) state" where
  "ListenAndServe listen_err = do {
     s \<leftarrow> read_state;
     if in_shutdown s then ret (Some (Sentinel ''http: Server closed''))
     else case listen_err of
       Some err \<Rightarrow> ret (Some err)
     | None \<Rightarrow> do { modify_state (\<lambda>s. s\<lparr>listeners := listeners s + 1\<rparr>); ret None }
   }"

text \<open>A goroutine of \<open>Start\<close> gets to run. What \<open>ListenAndServe\<close> returns is dropped.\<close>

definition start_goroutine :: "goerror option \<Rightarrow> (server_state, unit) state" where
  "start_goroutine listen_err = do {
     s \<leftarrow> read_state;
     if goroutines s = 0 then ret ()
     else do { modify_state (\<lambda>s. s\<lparr>goroutines := goroutines s - 1\<rparr>); _ \<leftarrow> ListenAndServe listen_err; ret () }
   }"

definition metrics_Stop :: "goerror option \<Rightarrow> (server_state, goerror option) state" where
  "metrics_Stop close_err = do { modify_state (\<lambda>s. s\<lparr>in_shutdown := True, listeners := 0\<rparr>); ret close_err }"

datatype server_event = CallStart | RunGoroutine "goerror option" | CallStop "goerror option"

fun server_step :: "server_event \<Rightarrow> (server_state, goerror option) state" where
  "server_step CallStart = metrics_Start"
| "server_step (RunGoroutine listen_err) = do { start_goroutine listen_err; ret None }"
| "server_step (CallStop err) = metrics_Stop err"

definition server_run :: "server_event list \<Rightarrow> server_state \<Rightarrow> server_state" where
  "server_run es s = fold (\<lambda>ev s. snd (run_state (server_step ev) s)) es s"

text \<open>A server that was stopped never listens again, whatever goroutine of an earlier or later \<open>Start\<close> still runs.\<close>

lemma server_step_shutdown:
  "in_shutdown s \<Longrightarrow> listeners s = 0 \<Longrightarrow>
     in_shutdown (snd (run_state (server_step ev) s)) \<and> listeners (snd (run_state (server_step ev) s)) = 0"
  by (cases ev) (auto simp: metrics_Start_def start_goroutine_def ListenAndServe_def metrics_Stop_def)

lemma server_run_shutdown: "in_shutdown s \<Longrightarrow> listeners s = 0 \<Longrightarrow> listeners (server_run es s) = 0"
  using server_step_shutdown unfolding server_run_def by (induction es arbitrary: s) auto

lemma server_stopped_for_good: "listeners (server_run (es @ CallStop err # es') s) = 0"
  using server_run_shutdown [of "snd (run_state (metrics_Stop err) (server_run es s))" es']
  by (simp add: server_run_def metrics_Stop_def)

section \<open>What the client promises\<close>

text \<open>
  The registry as its families of metrics by name. A family has a kind, the names of its labels and one
  sample for each tuple of label values in use.
\<close>

datatype metric_kind = CounterKind | GaugeKind | HistogramKind "rat list"
datatype sample = Counter nat | Gauge rat | Observations "rat list"

record family =
  fam_kind :: metric_kind
  fam_labels :: "string list"
  fam_samples :: "string list \<Rightarrow> sample option"

type_synonym families = "string \<Rightarrow> family option"

fun zero_sample :: "metric_kind \<Rightarrow> sample" where
  "zero_sample CounterKind = Counter 0"
| "zero_sample GaugeKind = Gauge 0"
| "zero_sample (HistogramKind _) = Observations []"

definition put_sample :: "string \<Rightarrow> string list \<Rightarrow> sample \<Rightarrow> families \<Rightarrow> families" where
  "put_sample n lvs x F = F(n := map_option (\<lambda>f. f\<lparr>fam_samples := (fam_samples f)(lvs \<mapsto> x)\<rparr>) (F n))"

text \<open>The sample of a metric, zero before its first use.\<close>

definition reading :: "families \<Rightarrow> string \<Rightarrow> string list \<Rightarrow> sample option" where
  "reading F n lvs =
    map_option (\<lambda>f. case fam_samples f lvs of None \<Rightarrow> zero_sample (fam_kind f) | Some x \<Rightarrow> x) (F n)"

text \<open>A name of a metric: a letter, underscore or colon, and then digits too. A name of a label has no colon.\<close>

definition name_start :: "char \<Rightarrow> bool" where
  "name_start c \<longleftrightarrow> CHR ''a'' \<le> c \<and> c \<le> CHR ''z'' \<or> CHR ''A'' \<le> c \<and> c \<le> CHR ''Z'' \<or> c = CHR ''_''"

definition label_name_ok :: "string \<Rightarrow> bool" where
  "label_name_ok n \<longleftrightarrow> n \<noteq> [] \<and> name_start (hd n) \<and> list_all (\<lambda>c. name_start c \<or> CHR ''0'' \<le> c \<and> c \<le> CHR ''9'') (tl n)"

definition metric_name_ok :: "string \<Rightarrow> bool" where
  "metric_name_ok n \<longleftrightarrow> label_name_ok (filter (\<lambda>c. c \<noteq> CHR '':'') n)"

definition registrable :: "families \<Rightarrow> Opts \<Rightarrow> string list \<Rightarrow> bool" where
  "registrable F opts ls \<longleftrightarrow> F (mo_Name opts) = None \<and> metric_name_ok (mo_Name opts) \<and> list_all label_name_ok ls \<and> distinct ls"

definition new_family :: "metric_kind \<Rightarrow> string list \<Rightarrow> family" where
  "new_family kd ls = \<lparr>fam_kind = kd, fam_labels = ls, fam_samples = Map.empty\<rparr>"

text \<open>The sample of a kind, and how a metric is used.\<close>

fun fits :: "metric_kind \<Rightarrow> sample \<Rightarrow> bool" where
  "fits CounterKind x \<longleftrightarrow> (\<exists>k. x = Counter k)"
| "fits GaugeKind x \<longleftrightarrow> (\<exists>y. x = Gauge y)"
| "fits (HistogramKind _) x \<longleftrightarrow> (\<exists>ys. x = Observations ys)"

fun inc_sample :: "sample \<Rightarrow> sample" where
  "inc_sample (Counter k) = Counter (k + 1)"
| "inc_sample x = x"

fun observe_sample :: "rat \<Rightarrow> sample \<Rightarrow> sample" where
  "observe_sample y (Observations ys) = Observations (ys @ [y])"
| "observe_sample y x = x"

definition bump :: "string \<Rightarrow> string list \<Rightarrow> (sample \<Rightarrow> sample) \<Rightarrow> families \<Rightarrow> families" where
  "bump n lvs f F = (case reading F n lvs of None \<Rightarrow> F | Some x \<Rightarrow> put_sample n lvs (f x) F)"

definition typed :: "families \<Rightarrow> string \<Rightarrow> metric_kind \<Rightarrow> string list \<Rightarrow> bool" where
  "typed F n kd ls \<longleftrightarrow>
    (\<exists>f. F n = Some f \<and> fam_kind f = kd \<and> fam_labels f = ls \<and> (\<forall>lvs x. fam_samples f lvs = Some x \<longrightarrow> fits kd x))"

definition plain_gauge :: "families \<Rightarrow> string \<Rightarrow> string list \<Rightarrow> bool" where
  "plain_gauge F n lvs \<longleftrightarrow> (\<exists>f x. F n = Some f \<and> fam_samples f lvs = Some x)"

lemma fits_zero [simp]: "fits kd (zero_sample kd)"
  by (cases kd) auto

lemma typed_reading:
  assumes "typed F n kd ls"
  obtains x where "reading F n lvs = Some x" "fits kd x"
  using assms that by (auto simp: typed_def reading_def split: option.splits)

lemma reading_bump:
  "reading (bump n lvs f F) n' lvs' = (if n' = n \<and> lvs' = lvs then map_option f (reading F n lvs) else reading F n' lvs')"
  by (auto simp: bump_def reading_def put_sample_def split: option.splits)

lemma typed_bump: "typed F n' kd ls \<Longrightarrow> (\<And>x. n' = n \<Longrightarrow> fits kd x \<Longrightarrow> fits kd (f x)) \<Longrightarrow> typed (bump n lvs f F) n' kd ls"
  by (auto simp: typed_def bump_def put_sample_def reading_def split: option.splits)

lemma plain_gauge_bump [simp]: "plain_gauge F n' lvs' \<Longrightarrow> plain_gauge (bump n lvs f F) n' lvs'"
  by (auto simp: plain_gauge_def bump_def put_sample_def reading_def split: option.splits)

section \<open>Recordings\<close>

text \<open>A call of one of the functions of the package, the metric it is about and what it does to the sample.\<close>

datatype recording = JobSubmitted string string | JobProcessed string string | JobTook string rat | DepthSet string rat
  | WorkersSet rat | DLQSet rat | RedisFailed string

fun record_metric :: "('r, 'v, 'm) prometheus \<Rightarrow> ('v, 'm) collectors \<Rightarrow> recording \<Rightarrow> ('r, unit outcome) state" where
  "record_metric p c (JobSubmitted priority jobType) = RecordJobSubmitted p c priority jobType"
| "record_metric p c (JobProcessed status jobType) = RecordJobProcessed p c status jobType"
| "record_metric p c (JobTook jobType seconds) = RecordJobDuration p c jobType seconds"
| "record_metric p c (DepthSet priority depth) = SetQueueDepth p c priority depth"
| "record_metric p c (WorkersSet n) = SetWorkersActive p c n"
| "record_metric p c (DLQSet n) = SetDLQSize p c n"
| "record_metric p c (RedisFailed operation) = RecordRedisError p c operation"

fun record_all :: "('r, 'v, 'm) prometheus \<Rightarrow> ('v, 'm) collectors \<Rightarrow> recording list \<Rightarrow> ('r, unit outcome) state" where
  "record_all p c [] = ret (Returned ())"
| "record_all p c (ev # evs) = or_panic (record_metric p c ev) (\<lambda>_. record_all p c evs)"

fun metric_of :: "recording \<Rightarrow> string \<times> string list" where
  "metric_of (JobSubmitted priority jobType) = (mo_Name JobsSubmitted_opts, [priority, jobType])"
| "metric_of (JobProcessed status jobType) = (mo_Name JobsProcessed_opts, [status, jobType])"
| "metric_of (JobTook jobType seconds) = (mo_Name JobDuration_opts, [jobType])"
| "metric_of (DepthSet priority depth) = (mo_Name QueueDepth_opts, [priority])"
| "metric_of (WorkersSet n) = (mo_Name WorkersActive_opts, [])"
| "metric_of (DLQSet n) = (mo_Name DLQSize_opts, [])"
| "metric_of (RedisFailed operation) = (mo_Name RedisErrors_opts, [operation])"

fun effect :: "recording \<Rightarrow> sample \<Rightarrow> sample" where
  "effect (JobSubmitted _ _) = inc_sample"
| "effect (JobProcessed _ _) = inc_sample"
| "effect (JobTook _ seconds) = observe_sample seconds"
| "effect (DepthSet _ depth) = (\<lambda>_. Gauge depth)"
| "effect (WorkersSet n) = (\<lambda>_. Gauge n)"
| "effect (DLQSet n) = (\<lambda>_. Gauge n)"
| "effect (RedisFailed _) = inc_sample"

definition recorded :: "recording \<Rightarrow> families \<Rightarrow> families" where
  "recorded ev = bump (fst (metric_of ev)) (snd (metric_of ev)) (effect ev)"

text \<open>The families that the package declares.\<close>

definition declared :: "rat list \<Rightarrow> families \<Rightarrow> bool" where
  "declared bs F \<longleftrightarrow>
     typed F (mo_Name JobsSubmitted_opts) CounterKind [''priority'', ''type''] \<and>
     typed F (mo_Name JobsProcessed_opts) CounterKind [''status'', ''type''] \<and>
     typed F (mo_Name JobDuration_opts) (HistogramKind bs) [''type''] \<and>
     typed F (mo_Name QueueDepth_opts) GaugeKind [''priority''] \<and>
     typed F (mo_Name WorkersActive_opts) GaugeKind [] \<and> plain_gauge F (mo_Name WorkersActive_opts) [] \<and>
     typed F (mo_Name DLQSize_opts) GaugeKind [] \<and> plain_gauge F (mo_Name DLQSize_opts) [] \<and>
     typed F (mo_Name RedisErrors_opts) CounterKind [''operation'']"

definition titan_names :: "string list" where
  "titan_names = map mo_Name [JobsSubmitted_opts, JobsProcessed_opts, JobDuration_opts, QueueDepth_opts, WorkersActive_opts,
     DLQSize_opts, RedisConnections_opts, RedisErrors_opts]"

lemma titan_names_distinct: "distinct titan_names"
  by (simp add: titan_names_def opts_defs)

lemma declared_recorded: "declared bs F \<Longrightarrow> declared bs (recorded ev F)"
  unfolding declared_def recorded_def opts_defs by (cases ev) (auto simp: opts_defs intro!: typed_bump)

lemma names_ok:
  "n \<in> set titan_names \<Longrightarrow> metric_name_ok n"
  "n \<in> {''priority'', ''type'', ''status'', ''operation''} \<Longrightarrow> label_name_ok n"
  by (auto simp: titan_names_def opts_defs metric_name_ok_def label_name_ok_def name_start_def less_eq_char_def)

text \<open>The registry after the initialisation of the package.\<close>

definition with_gauge :: "Opts \<Rightarrow> families \<Rightarrow> families" where
  "with_gauge opts F = put_sample (mo_Name opts) [] (Gauge 0) (F(mo_Name opts \<mapsto> new_family GaugeKind []))"

definition with_collectors :: "rat list \<Rightarrow> families \<Rightarrow> families" where
  "with_collectors bs F =
    (let F = F(mo_Name JobsSubmitted_opts \<mapsto> new_family CounterKind [''priority'', ''type'']);
         F = F(mo_Name JobsProcessed_opts \<mapsto> new_family CounterKind [''status'', ''type'']);
         F = F(mo_Name JobDuration_opts \<mapsto> new_family (HistogramKind bs) [''type'']);
         F = F(mo_Name QueueDepth_opts \<mapsto> new_family GaugeKind [''priority'']);
         F = with_gauge RedisConnections_opts (with_gauge DLQSize_opts (with_gauge WorkersActive_opts F))
     in F(mo_Name RedisErrors_opts \<mapsto> new_family CounterKind [''operation'']))"

locale prometheus_client =
  fixes p :: "('r, 'v, 'm) prometheus" and view :: "'r \<Rightarrow> families" and vec :: "'v \<Rightarrow> string" and metric :: "'m \<Rightarrow> string \<times> string list"
  assumes NewCounterVec: "registrable (view r) opts ls \<Longrightarrow>
      \<exists>v r'. run_state (prom_NewCounterVec p opts ls) r = (Returned v, r') \<and> vec v = mo_Name opts \<and>
        view r' = (view r)(mo_Name opts \<mapsto> new_family CounterKind ls)"
    and NewHistogramVec: "registrable (view r) opts ls \<Longrightarrow>
      \<exists>v r'. run_state (prom_NewHistogramVec p opts bs ls) r = (Returned v, r') \<and> vec v = mo_Name opts \<and>
        view r' = (view r)(mo_Name opts \<mapsto> new_family (HistogramKind bs) ls)"
    and NewGaugeVec: "registrable (view r) opts ls \<Longrightarrow>
      \<exists>v r'. run_state (prom_NewGaugeVec p opts ls) r = (Returned v, r') \<and> vec v = mo_Name opts \<and>
        view r' = (view r)(mo_Name opts \<mapsto> new_family GaugeKind ls)"
    and NewGauge: "registrable (view r) opts [] \<Longrightarrow>
      \<exists>m r'. run_state (prom_NewGauge p opts) r = (Returned m, r') \<and> metric m = (mo_Name opts, []) \<and>
        view r' = put_sample (mo_Name opts) [] (Gauge 0) ((view r)(mo_Name opts \<mapsto> new_family GaugeKind []))"
    and WithLabelValues: "view r (vec v) = Some f \<Longrightarrow> length lvs = length (fam_labels f) \<Longrightarrow> list_all valid_utf8 lvs \<Longrightarrow>
      reading (view r) (vec v) lvs = Some sm \<Longrightarrow>
      \<exists>m r'. run_state (prom_WithLabelValues p v lvs) r = (Returned m, r') \<and> metric m = (vec v, lvs) \<and>
        view r' = put_sample (vec v) lvs sm (view r)"
    and Inc: "metric m = (n, lvs) \<Longrightarrow> view r n = Some f \<Longrightarrow> fam_samples f lvs = Some (Counter k) \<Longrightarrow>
      view (snd (run_state (prom_Inc p m) r)) = put_sample n lvs (Counter (k + 1)) (view r)"
    and Set: "metric m = (n, lvs) \<Longrightarrow> view r n = Some f \<Longrightarrow> fam_samples f lvs = Some (Gauge y) \<Longrightarrow>
      view (snd (run_state (prom_Set p m x) r)) = put_sample n lvs (Gauge x) (view r)"
    and Observe: "metric m = (n, lvs) \<Longrightarrow> view r n = Some f \<Longrightarrow> fam_samples f lvs = Some (Observations xs) \<Longrightarrow>
      view (snd (run_state (prom_Observe p m x) r)) = put_sample n lvs (Observations (xs @ [x])) (view r)"
begin

text \<open>One use of a metric: a function \<open>f\<close> of its sample.\<close>

lemma use_metric:
  assumes t: "typed (view r) (vec v) kd ls" and l: "length lvs = length ls" "list_all valid_utf8 lvs"
    and upd: "\<And>m n lvs r fam x. metric m = (n, lvs) \<Longrightarrow> view r n = Some fam \<Longrightarrow> fam_samples fam lvs = Some x \<Longrightarrow> fits kd x \<Longrightarrow>
      view (snd (run_state (act m) r)) = put_sample n lvs (f x) (view r)"
  shows "\<exists>r'. run_state (or_panic (prom_WithLabelValues p v lvs) (\<lambda>m. do { act m; ret (Returned ()) })) r = (Returned (), r') \<and>
    view r' = bump (vec v) lvs f (view r)"
proof -
  obtain x where x: "reading (view r) (vec v) lvs = Some x" "fits kd x" by (rule typed_reading [OF t])
  obtain fam where fam: "view r (vec v) = Some fam" "fam_labels fam = ls" using t by (auto simp: typed_def)
  then obtain m r1 where m: "run_state (prom_WithLabelValues p v lvs) r = (Returned m, r1)" "metric m = (vec v, lvs)"
      "view r1 = put_sample (vec v) lvs x (view r)"
    using WithLabelValues [OF fam(1) _ l(2) x(1)] l(1) by auto
  have "view (snd (run_state (act m) r1)) = bump (vec v) lvs f (view r)"
    using upd [OF m(2), of r1] x fam by (simp add: m(3) bump_def put_sample_def)
  then show ?thesis by (cases "run_state (act m) r1") (simp add: run_simps m(1))
qed

lemma inc_metric:
  assumes "typed (view r) (vec v) CounterKind ls" "length lvs = length ls" "list_all valid_utf8 lvs"
  shows "\<exists>r'. run_state (or_panic (prom_WithLabelValues p v lvs) (\<lambda>m. do { prom_Inc p m; ret (Returned ()) })) r = (Returned (), r') \<and>
    view r' = bump (vec v) lvs inc_sample (view r)"
  by (rule use_metric [OF assms]) (auto simp: Inc)

lemma observe_metric:
  assumes "typed (view r) (vec v) (HistogramKind bs) ls" "length lvs = length ls" "list_all valid_utf8 lvs"
  shows "\<exists>r'. run_state (or_panic (prom_WithLabelValues p v lvs) (\<lambda>m. do { prom_Observe p m y; ret (Returned ()) })) r = (Returned (), r') \<and>
    view r' = bump (vec v) lvs (observe_sample y) (view r)"
  by (rule use_metric [OF assms]) (auto simp: Observe)

lemma set_metric:
  assumes "typed (view r) (vec v) GaugeKind ls" "length lvs = length ls" "list_all valid_utf8 lvs"
  shows "\<exists>r'. run_state (or_panic (prom_WithLabelValues p v lvs) (\<lambda>m. do { prom_Set p m y; ret (Returned ()) })) r = (Returned (), r') \<and>
    view r' = bump (vec v) lvs (\<lambda>_. Gauge y) (view r)"
  by (rule use_metric [OF assms]) (auto simp: Set)

lemma set_gauge:
  assumes t: "typed (view r) n GaugeKind ls" and m: "metric m = (n, lvs)" and x: "plain_gauge (view r) n lvs"
  shows "view (snd (run_state (prom_Set p m y) r)) = bump n lvs (\<lambda>_. Gauge y) (view r)"
proof -
  obtain fam x where "view r n = Some fam" "fam_samples fam lvs = Some x" "fits GaugeKind x"
    using t x by (auto simp: typed_def plain_gauge_def)
  then show ?thesis using Set [OF m] by (cases x) (auto simp: bump_def reading_def)
qed

text \<open>The handles of the package denote the collectors it declares, and these are registered with their kinds and labels.\<close>

definition collected :: "('v, 'm) collectors \<Rightarrow> families \<Rightarrow> bool" where
  "collected c F \<longleftrightarrow>
     vec (JobsSubmitted c) = mo_Name JobsSubmitted_opts \<and> vec (JobsProcessed c) = mo_Name JobsProcessed_opts \<and>
     vec (JobDuration c) = mo_Name JobDuration_opts \<and> vec (QueueDepth c) = mo_Name QueueDepth_opts \<and>
     metric (WorkersActive c) = (mo_Name WorkersActive_opts, []) \<and> metric (DLQSize c) = (mo_Name DLQSize_opts, []) \<and>
     vec (RedisErrors c) = mo_Name RedisErrors_opts \<and> declared (prom_DefBuckets p) F"

lemma record_metric_run:
  assumes "collected c (view r)" "list_all valid_utf8 (snd (metric_of ev))"
  shows "\<exists>r'. run_state (record_metric p c ev) r = (Returned (), r') \<and> view r' = recorded ev (view r)"
proof (cases ev)
  case (JobSubmitted pr t)
  then show ?thesis using inc_metric [of r "JobsSubmitted c" "[''priority'', ''type'']" "[pr, t]"] assms
    by (auto simp: RecordJobSubmitted_def collected_def declared_def recorded_def)
next
  case (JobProcessed st t)
  then show ?thesis using inc_metric [of r "JobsProcessed c" "[''status'', ''type'']" "[st, t]"] assms
    by (auto simp: RecordJobProcessed_def collected_def declared_def recorded_def)
next
  case (JobTook t y)
  then show ?thesis using observe_metric [of r "JobDuration c" _ "[''type'']" "[t]" y] assms
    by (auto simp: RecordJobDuration_def collected_def declared_def recorded_def)
next
  case (DepthSet pr y)
  then show ?thesis using set_metric [of r "QueueDepth c" "[''priority'']" "[pr]" y] assms
    by (auto simp: SetQueueDepth_def collected_def declared_def recorded_def)
next
  case (WorkersSet y)
  then show ?thesis using set_gauge [of r "mo_Name WorkersActive_opts" "[]" "WorkersActive c" "[]" y] assms
    by (auto simp: SetWorkersActive_def collected_def declared_def recorded_def split: prod.split)
next
  case (DLQSet y)
  then show ?thesis using set_gauge [of r "mo_Name DLQSize_opts" "[]" "DLQSize c" "[]" y] assms
    by (auto simp: SetDLQSize_def collected_def declared_def recorded_def split: prod.split)
next
  case (RedisFailed opn)
  then show ?thesis using inc_metric [of r "RedisErrors c" "[''operation'']" "[opn]"] assms
    by (auto simp: RecordRedisError_def collected_def declared_def recorded_def)
qed

lemma record_all_run:
  assumes "collected c (view r)" "list_all (\<lambda>ev. list_all valid_utf8 (snd (metric_of ev))) evs"
  shows "\<exists>r'. run_state (record_all p c evs) r = (Returned (), r') \<and> view r' = fold recorded evs (view r)"
  using assms
proof (induction evs arbitrary: r)
  case Nil
  then show ?case by simp
next
  case (Cons ev evs)
  then obtain r1 where r1: "run_state (record_metric p c ev) r = (Returned (), r1)" "view r1 = recorded ev (view r)"
    using record_metric_run [of c r ev] by auto
  then have "collected c (view r1)" using Cons.prems declared_recorded by (auto simp: collected_def)
  then show ?case using Cons.IH [of r1] Cons.prems(2) r1 by (auto simp: run_simps)
qed

lemma collectors_init_run:
  assumes new: "\<forall>n \<in> set titan_names. view r n = None"
  shows "\<exists>c r'. run_state (collectors_init p) r = (Returned c, r') \<and> collected c (view r') \<and>
    view r' = with_collectors (prom_DefBuckets p) (view r)"
proof -
  have reg: "registrable F opts ls" if "F (mo_Name opts) = None" "distinct ls" "mo_Name opts \<in> set titan_names"
      "set ls \<subseteq> {''priority'', ''type'', ''status'', ''operation''}" for F opts ls
    using names_ok that by (auto simp: registrable_def list_all_iff)
  have fresh: "list_all (\<lambda>n. view r n = None) titan_names" using new by (simp add: list_all_iff)
  note n = fresh [unfolded titan_names_def opts_defs, simplified] titan_names_def opts_defs put_sample_def
  show ?thesis
    unfolding collectors_init_def
    by (((rule or_panic_returns, rule NewCounterVec NewHistogramVec NewGaugeVec NewGauge, rule reg), simp_all add: n)+)
      (auto simp: n collected_def declared_def typed_def plain_gauge_def new_family_def with_collectors_def with_gauge_def)
qed

end

section \<open>What the metrics say\<close>

text \<open>The sample of one metric after a sequence of recordings.\<close>

fun tally :: "string \<Rightarrow> string list \<Rightarrow> recording list \<Rightarrow> sample \<Rightarrow> sample" where
  "tally n lvs [] x = x"
| "tally n lvs (ev # evs) x = tally n lvs evs (if metric_of ev = (n, lvs) then effect ev x else x)"

lemma reading_fold_recorded:
  "reading F n lvs = Some x \<Longrightarrow> reading (fold recorded evs F) n lvs = Some (tally n lvs evs x)"
proof (induction n lvs evs x arbitrary: F rule: tally.induct)
  case (2 n lvs ev evs x)
  have "reading (recorded ev F) n lvs = Some (if metric_of ev = (n, lvs) then effect ev x else x)"
    using "2.prems" by (auto simp: recorded_def reading_bump)
  from "2.IH" [OF this] show ?case by simp
qed simp

lemma fold_recorded_other: "n \<notin> set titan_names \<Longrightarrow> fold recorded evs F n = F n"
proof (induction evs arbitrary: F)
  case (Cons ev evs)
  then have "recorded ev F n = F n"
    by (cases ev) (auto simp: recorded_def bump_def put_sample_def titan_names_def split: option.split)
  then show ?case using Cons by simp
qed simp

text \<open>Counters count, a gauge has the last of the values that were set, if any was, a histogram has all values.\<close>

definition last_set :: "rat list \<Rightarrow> rat" where
  "last_set ys = (if ys = [] then 0 else last ys)"

fun duration_of :: "string \<Rightarrow> recording \<Rightarrow> rat option" where
  "duration_of t (JobTook t' y) = (if t' = t then Some y else None)"
| "duration_of t _ = None"

fun depth_of :: "string \<Rightarrow> recording \<Rightarrow> rat option" where
  "depth_of pr (DepthSet pr' y) = (if pr' = pr then Some y else None)"
| "depth_of pr _ = None"

fun workers_of :: "recording \<Rightarrow> rat option" where
  "workers_of (WorkersSet y) = Some y"
| "workers_of _ = None"

fun dlq_of :: "recording \<Rightarrow> rat option" where
  "dlq_of (DLQSet y) = Some y"
| "dlq_of _ = None"

lemma tally_counter:
  assumes "\<And>ev. metric_of ev = (n, lvs) \<longleftrightarrow> ev = e0" "effect e0 = inc_sample"
  shows "tally n lvs evs (Counter k) = Counter (k + count_list evs e0)"
  using assms by (induction evs arbitrary: k) auto

lemma tally_gauge:
  assumes "\<And>ev. metric_of ev = (n, lvs) \<longleftrightarrow> sel ev \<noteq> None" "\<And>ev y. sel ev = Some y \<Longrightarrow> effect ev = (\<lambda>_. Gauge y)"
  shows "tally n lvs evs (Gauge (last_set ys)) = Gauge (last_set (ys @ List.map_filter sel evs))"
proof (induction evs arbitrary: ys)
  case Nil
  then show ?case by (simp add: List.map_filter_def)
next
  case (Cons ev evs)
  show ?case
  proof (cases "sel ev")
    case None
    then show ?thesis using Cons [of ys] assms(1) by (simp add: List.map_filter_def)
  next
    case (Some y)
    then have "tally n lvs (ev # evs) (Gauge (last_set ys)) = tally n lvs evs (Gauge (last_set (ys @ [y])))"
      using assms by (simp add: last_set_def)
    then show ?thesis using Cons [of "ys @ [y]"] Some by (simp add: List.map_filter_def)
  qed
qed

lemma tally_observed:
  assumes "\<And>ev. metric_of ev = (n, lvs) \<longleftrightarrow> sel ev \<noteq> None" "\<And>ev y. sel ev = Some y \<Longrightarrow> effect ev = observe_sample y"
  shows "tally n lvs evs (Observations ys) = Observations (ys @ List.map_filter sel evs)"
proof (induction evs arbitrary: ys)
  case Nil
  then show ?case by (simp add: List.map_filter_def)
next
  case (Cons ev evs)
  then show ?case using assms by (cases "sel ev") (auto simp: List.map_filter_def)
qed

lemma metric_of_iff:
  "metric_of ev = (mo_Name JobsSubmitted_opts, [pr, t]) \<longleftrightarrow> ev = JobSubmitted pr t"
  "metric_of ev = (mo_Name JobsProcessed_opts, [st, t]) \<longleftrightarrow> ev = JobProcessed st t"
  "metric_of ev = (mo_Name RedisErrors_opts, [opn]) \<longleftrightarrow> ev = RedisFailed opn"
  "metric_of ev = (mo_Name JobDuration_opts, [t]) \<longleftrightarrow> duration_of t ev \<noteq> None"
  "metric_of ev = (mo_Name QueueDepth_opts, [pr]) \<longleftrightarrow> depth_of pr ev \<noteq> None"
  "metric_of ev = (mo_Name WorkersActive_opts, []) \<longleftrightarrow> workers_of ev \<noteq> None"
  "metric_of ev = (mo_Name DLQSize_opts, []) \<longleftrightarrow> dlq_of ev \<noteq> None"
  by (cases ev; simp add: opts_defs)+

lemma effect_of:
  "duration_of t ev = Some y \<Longrightarrow> effect ev = observe_sample y"
  "depth_of pr ev = Some y \<Longrightarrow> effect ev = (\<lambda>_. Gauge y)"
  "workers_of ev = Some y \<Longrightarrow> effect ev = (\<lambda>_. Gauge y)"
  "dlq_of ev = Some y \<Longrightarrow> effect ev = (\<lambda>_. Gauge y)"
  by (cases ev; simp split: if_splits)+

lemmas tallies =
  tally_counter [OF metric_of_iff(1), simplified] tally_counter [OF metric_of_iff(2), simplified]
  tally_counter [OF metric_of_iff(3), simplified] tally_observed [OF metric_of_iff(4) effect_of(1)]
  tally_gauge [OF metric_of_iff(5) effect_of(2)] tally_gauge [OF metric_of_iff(6) effect_of(3)]
  tally_gauge [OF metric_of_iff(7) effect_of(4)]

text \<open>What the registry shows after the recordings \<open>evs\<close>.\<close>

definition reports :: "recording list \<Rightarrow> families \<Rightarrow> bool" where
  "reports evs F \<longleftrightarrow>
     (\<forall>pr t. reading F ''titan_jobs_submitted_total'' [pr, t] = Some (Counter (count_list evs (JobSubmitted pr t)))) \<and>
     (\<forall>st t. reading F ''titan_jobs_processed_total'' [st, t] = Some (Counter (count_list evs (JobProcessed st t)))) \<and>
     (\<forall>t. reading F ''titan_jobs_duration_seconds'' [t] = Some (Observations (List.map_filter (duration_of t) evs))) \<and>
     (\<forall>pr. reading F ''titan_queue_depth'' [pr] = Some (Gauge (last_set (List.map_filter (depth_of pr) evs)))) \<and>
     reading F ''titan_workers_active'' [] = Some (Gauge (last_set (List.map_filter workers_of evs))) \<and>
     reading F ''titan_dlq_size'' [] = Some (Gauge (last_set (List.map_filter dlq_of evs))) \<and>
     reading F ''titan_redis_connections'' [] = Some (Gauge 0) \<and>
     (\<forall>opn. reading F ''titan_redis_errors_total'' [opn] = Some (Counter (count_list evs (RedisFailed opn))))"

lemma tally_none: "(\<And>ev. ev \<in> set evs \<Longrightarrow> metric_of ev \<noteq> (n, lvs)) \<Longrightarrow> tally n lvs evs x = x"
  by (induction n lvs evs x rule: tally.induct) auto

lemma reports_recorded: "reports evs (fold recorded evs (with_collectors bs F))"
proof -
  let ?F = "with_collectors bs F"
  have z: "last_set [] = 0" by (simp add: last_set_def)
  have "reading ?F ''titan_jobs_submitted_total'' [pr, t] = Some (Counter 0)"
    "reading ?F ''titan_jobs_processed_total'' [pr, t] = Some (Counter 0)"
    "reading ?F ''titan_jobs_duration_seconds'' [t] = Some (Observations [])"
    "reading ?F ''titan_queue_depth'' [t] = Some (Gauge 0)" "reading ?F ''titan_workers_active'' [] = Some (Gauge 0)"
    "reading ?F ''titan_dlq_size'' [] = Some (Gauge 0)" "reading ?F ''titan_redis_connections'' [] = Some (Gauge 0)"
    "reading ?F ''titan_redis_errors_total'' [t] = Some (Counter 0)" for pr t
    by (simp_all add: reading_def with_collectors_def with_gauge_def put_sample_def new_family_def opts_defs)
  note r = this [THEN reading_fold_recorded, where evs = evs]
  have "tally ''titan_redis_connections'' [] evs (Gauge 0) = Gauge 0"
    by (rule tally_none) (case_tac ev; simp add: opts_defs)
  then show ?thesis
    using r tallies(1-3) [where k = 0 and evs = evs] tallies(4-7) [where ys = "[]" and evs = evs]
    by (simp add: reports_def opts_defs z)
qed


text \<open>A client that keeps the registry in memory.\<close>

definition mem_register :: "metric_kind \<Rightarrow> Opts \<Rightarrow> string list \<Rightarrow> (families, string outcome) state" where
  "mem_register kd opts ls = State (\<lambda>F.
     if registrable F opts ls then (Returned (mo_Name opts), F(mo_Name opts \<mapsto> new_family kd ls))
     else (Panicked (PanicError (Extern ''duplicate metrics collector registration attempted'')), F))"

definition mem_labelled :: "string \<Rightarrow> string list \<Rightarrow> (families, (string \<times> string list) outcome) state" where
  "mem_labelled v lvs = State (\<lambda>F.
     case F v of
       Some f \<Rightarrow>
         if length lvs = length (fam_labels f) \<and> list_all valid_utf8 lvs then (Returned (v, lvs), bump v lvs id F)
         else (Panicked (PanicError (Extern ''inconsistent label cardinality'')), F)
     | None \<Rightarrow> (Panicked (PanicError (Extern ''unknown'')), F))"

definition mem_use :: "string \<times> string list \<Rightarrow> (sample \<Rightarrow> sample) \<Rightarrow> (families, unit) state" where
  "mem_use m f = modify_state (bump (fst m) (snd m) f)"

definition mem_prometheus :: "(families, string, string \<times> string list) prometheus" where
  "mem_prometheus = \<lparr>prom_NewCounterVec = mem_register CounterKind, prom_NewHistogramVec = (\<lambda>opts bs. mem_register (HistogramKind bs) opts),
     prom_NewGaugeVec = mem_register GaugeKind,
     prom_NewGauge = (\<lambda>opts. or_panic (mem_register GaugeKind opts []) (\<lambda>n. mem_labelled n [])),
     prom_WithLabelValues = mem_labelled, prom_Inc = (\<lambda>m. mem_use m inc_sample), prom_Set = (\<lambda>m y. mem_use m (\<lambda>_. Gauge y)),
     prom_Observe = (\<lambda>m y. mem_use m (observe_sample y)), prom_DefBuckets = [5 / 1000, 1 / 100, 10]\<rparr>"

interpretation mem_metrics: prometheus_client mem_prometheus "\<lambda>F. F" "\<lambda>v. v" "\<lambda>m. m"
proof
  fix F opts
  assume "registrable F opts []"
  then show "\<exists>m r'. run_state (prom_NewGauge mem_prometheus opts) F = (Returned m, r') \<and> m = (mo_Name opts, []) \<and>
      r' = put_sample (mo_Name opts) [] (Gauge 0) (F(mo_Name opts \<mapsto> new_family GaugeKind []))"
    by (simp add: mem_prometheus_def run_simps mem_register_def mem_labelled_def bump_def reading_def new_family_def)
qed (auto simp: mem_prometheus_def mem_register_def mem_labelled_def mem_use_def bump_def reading_def)


end
