(* ===== verification/Spec2Isabelle.thy ===== *)
theory Spec2Isabelle
  imports Queue_Ack_Theorems Interleaving_Theorems Scheduler_Theorems Worker_Theorems Dedup Api_Theorems Database_Theorems Health Processes Metrics
begin

text \<open>
  Titan, a distributed job queue in Go on Redis: the model of its packages and the theorems about them.

  \<^bold>\<open>The program.\<close> Clients submit jobs over HTTP (\<open>internal/api\<close>, started by \<open>cmd/api\<close>). A job (\<open>internal/job\<close>) is stored as
  JSON text in Redis and its identifier pushed to one of three priority lists (\<open>internal/queue\<close>). Workers (\<open>internal/worker\<close>,
  started by \<open>cmd/worker\<close>) claim jobs by Lua scripts, run the handler of the job's type (\<open>internal/handlers\<close>) and acknowledge or
  fail them; failed jobs go back to their list or to the dead letters. A watchdog and a scheduler (\<open>internal/watchdog\<close>,
  \<open>internal/scheduler\<close>) recover stuck jobs and move delayed jobs when they are due, one instance at a time by a lock in Redis.
  All of them talk to Redis through one client with a circuit breaker (\<open>internal/redis\<close>). Beside them stand deduplication,
  rate limiting, the job history in PostgreSQL, health checks, logging, metrics and the configuration (\<open>internal/dedup\<close>, \<open>ratelimit\<close>,
  \<open>database\<close>, \<open>health\<close>, \<open>logging\<close>, \<open>metrics\<close>, \<open>config\<close>).

  \<^bold>\<open>How code becomes definitions.\<close> A struct is a record, a method that changes state a program of the state monad, a Go result
  \<open>(value, error)\<close> a sum with \<open>Inl\<close> for the error, a panic a value of \<open>outcome\<close>. An error keeps its identity and what it
  wraps (\<open>goerror\<close>), because the code compares errors by identity. Integers are \<open>int\<close> with the wrap of 64 bits written out where
  the code adds (\<open>i64\<close>), the breaker's counter is a 32-bit word, \<open>float64\<close> values are rationals rounded after every operation
  (\<open>Go_Float\<close>), strings are lists of bytes. A definition has the name of its Go function where Isabelle allows it, with the
  package before it where two packages share a name (\<open>worker_New\<close>, \<open>queue_New\<close>). A loop of the code is a recursive function of its
  own; a \<open>select\<close> loop takes the list of the events that it finds, and the checks that run at the same time the order in which
  they happen to run.

  \<^bold>\<open>The theories.\<close>
  \<^item> \<open>Prelude\<close>: the rewrite collections and generic facts. \<open>Go_Base\<close>, \<open>Go_Time\<close>, \<open>Go_Text\<close>, \<open>Go_Json\<close>, \<open>Go_Float\<close>: errors and integers,
    the calendar with RFC 3339, UTF-8 and base64, \<open>encoding/json\<close>, \<open>float64\<close>.
  \<^item> \<open>Job\<close>, \<open>Job_Wf\<close>: \<open>job/job.go\<close> and \<open>job/status.go\<close>. Writing and reading a job is a round trip, and whatever is read is well-formed.
  \<^item> \<open>Redis_Base\<close>, \<open>Redis_Client\<close>: commands, replies, and \<open>redis/client.go\<close>, \<open>redis/options.go\<close> with the invariant of the breaker.
    \<open>Lua_Scripts\<close>: the scripts of \<open>queue/lua_scripts.go\<close> and \<open>ratelimit/redis_limiter.go\<close>. \<open>Redis_Server\<close>: what the documentation of Redis
    says of the commands, with the locale \<open>redis_server\<close>; \<open>Redis_Memory\<close> interprets it.
  \<^item> \<open>Queue\<close>, \<open>Queue_Ack\<close>: \<open>queue/queue.go\<close>, \<open>priority.go\<close>, \<open>ack.go\<close>, \<open>retry.go\<close>, \<open>dlq.go\<close>. \<open>Queue_Spec\<close>: the abstract queue (three lists, the
    running and the dead jobs, stored texts). \<open>Queue_Correct\<close>: each operation refines it on a working link (locale \<open>queue_on_redis\<close>).
    \<open>Queue_Theorems\<close>, \<open>Queue_Ack_Theorems\<close>: the properties, among them that no sequence of operations loses or doubles a job.
  \<^item> \<open>Leader\<close>, \<open>Watchdog\<close>, \<open>Watchdog_Theorems\<close>: \<open>watchdog/leader.go\<close>, \<open>watchdog.go\<close>; one leader at a time as an invariant of a step
    relation over any number of instances, recovery as a refinement of retry and burial (locale \<open>watchdog_on_redis\<close>).
  \<^item> \<open>Interleaving\<close>, \<open>Interleaving_Theorems\<close>: many clients of one server, command by command. Which commands the operations of the queue, the
    watchdog and the scheduler can send (\<open>sends\<close>, for every answer they may get), what each command does to the lists, and what holds after
    every interleaving of them (locale \<open>shared_redis\<close>): the server's log accounts for every identifier and claims are exclusive; and a
    race between recovery and acknowledgement.
  \<^item> \<open>Scheduler\<close>, \<open>Scheduler_Theorems\<close>: \<open>scheduler/scheduler.go\<close>; a poll moves exactly the due jobs (locale \<open>scheduler_on_redis\<close>).
  \<^item> \<open>Worker\<close>, \<open>Handlers\<close>, \<open>Worker_Theorems\<close>: \<open>worker/*.go\<close>, \<open>handlers/*.go\<close>; what becomes of a job for every outcome of its handler.
  \<^item> \<open>Dedup\<close>, \<open>Ratelimit\<close>: \<open>dedup/deduplication.go\<close>, \<open>ratelimit/*.go\<close> with their properties.
  \<^item> \<open>Logging\<close>, \<open>Api\<close>, \<open>Api_Router\<close>, \<open>Api_Theorems\<close>: \<open>logging/*.go\<close>, \<open>api/handlers/handlers.go\<close>, \<open>api/middleware/*.go\<close>, \<open>api/router.go\<close>; the
    answers of the handlers, and the way of a request through the middleware.
  \<^item> \<open>Database\<close>, \<open>Database_Theorems\<close>: \<open>database/*.go\<close> (locale \<open>job_table\<close>). \<open>Health\<close>: \<open>health/*.go\<close>.
  \<^item> \<open>Configuration\<close>: \<open>config/config.go\<close> (locale \<open>viper_sources\<close>). \<open>Cmd\<close>: the setup of \<open>cmd/api/main.go\<close> and
    \<open>cmd/worker/main.go\<close>; \<open>Processes\<close>: the two processes from there to their end, as step relations over their goroutines.
  \<^item> \<open>Metrics\<close>: \<open>metrics/metrics.go\<close>, \<open>metrics/server.go\<close> (locale \<open>prometheus_client\<close>); the metrics say what was recorded.
  \<^item> This theory: a property that spans the API, the queue and the watchdog.

  \<^bold>\<open>What is outside.\<close> Third-party code is a parameter: go-redis with the server, the clock, uuid and random numbers are the record
  \<open>env\<close> of a client, pgx is \<open>pg_env\<close>, viper is \<open>viper\<close>, the prometheus client is \<open>prometheus\<close>, chi is a function from a request to
  a route. What the theorems need of them
  are the laws of the locales named above, and each locale is interpreted on an environment in memory, on which the witnesses run.
  \<open>up\<close> says that the link works and that no other client writes during the operation; where clients do interleave, the leader
  election is a step relation, and \<open>shared_redis\<close> lets others run any commands of the queue between two commands of an operation, which
  may themselves get lost or be repeated. \<open>single_leader\<close> and the theorems on failures do not assume that operations succeed.

  \<^bold>\<open>Bounds.\<close> The JSON parser runs with the length of its input as fuel, which every step shortens, and refuses documents nested deeper
  than 10000, as \<open>encoding/json\<close> does. \<open>time_wf\<close> asks for years 0 to 9999, the range that \<open>Time.MarshalJSON\<close> accepts; \<open>Unmarshal\<close> gives
  nothing else. The other loops are structurally recursive or have a measure, and are total.

  \<^bold>\<open>Not modelled.\<close> Log lines of the components are left out (the helpers of \<open>internal/logging\<close> and the request log are modelled).
  Connection pools, timeouts of contexts, sockets and the delivery of signals belong to the libraries and the operating system; in
  \<open>Processes\<close> and \<open>Metrics\<close> they are steps that may happen. In \<open>Processes\<close> a round of a processing loop, a tick of the watchdog and the
  answer to a request are one step each. \<open>TxPipeline\<close> and \<open>Close\<close> of the client only forward to go-redis. The interleavings cover the
  operations of the queue, the watchdog and the scheduler but for emptying the dead letters (\<open>Purge\<close>), whose \<open>DEL\<close> does not say what it
  removed. The SQL migrations and the deployment files are
  not Go.
\<close>

section \<open>A submitted job\<close>

text \<open>C18. A job of the highest priority that the API accepts is lost with the first claim. The client is told 201 and the job is
  queued; the claim of a worker moves it to processing, writes its lock over the stored text and fails. From then on the API
  answers 404 for the job, and the watchdog cannot recover it.\<close>

theorem submitted_job_is_lost:
  assumes wd: "watchdog_on_redis c view stime up sha rnd q wd" and w: "queue_ready view up q w"
    and n: "0 < whole_seconds (LockTTL (qopts q))" and e: "pend (queue_view q (db view w)) High = []"
    and req: "read_CreateJobRequest (req_Body r) = Inr req" "rq_Type req \<noteq> []" "rq_Priority req = 10" "rq_UniqueKey req = []"
    and w1: "run_state (CreateJob q r) w = (resp, w1)" and w2: "run_state (Claim q timeout) w1 = (claim, w2)"
  shows "\<exists>j err. resp = created j \<and> claim = Inl err \<and>
    running (queue_view q (db view w2)) = ID j # running (queue_view q (db view w)) \<and>
    (\<forall>r'. URLParam r' ''id'' = ID j \<longrightarrow> resp_status (fst (run_state (api_GetJob q r') w2)) = StatusNotFound) \<and>
    (\<exists>e' w3. run_state (recoverJob wd (ID j)) w2 = (Inl e', w3) \<and> db view w3 = db view w2)"
proof -
  note q = watchdog_on_redis.axioms(1) [OF wd]
  let ?j = "new_job c w req"
  have "rq_Priority req \<le> 10" and lv: "level_of (Priority ?j) = High" using req(3) by (simp_all add: new_job_def level_of_def)
  from queue_on_redis.CreateJob_run [OF q w req(1,2) this(1) req(4)] w1
  have c: "resp = created ?j" "queue_ready view up q w1"
    "queue_view q (db view w1) = a_enqueue High (ID ?j) (job_text ?j) (queue_view q (db view w))"
    unfolding lv by auto
  have p: "pend (queue_view q (db view w1)) High = [ID ?j]" using e by (simp add: c(3) a_enqueue_def del: queue_view_sel)
  obtain m err ex s where k: "claim = Inl (Wrapf m err)" "queue_ready view up q w2"
    "queue_view q (db view w2) = a_claim High s (queue_view q (db view w1))"
    "db view w2 (jobKey q (ID ?j)) = Some (VStr (format_int s), Some ex)"
  proof (rule queue_on_redis.claim_nonempty [OF q c(2) n])
    show "pend (queue_view q (db view w1)) High \<noteq> []" by (simp add: p del: queue_view_sel)
  qed (use w2 queue_on_redis.Claim_first_queue [OF q] p in \<open>fastforce simp del: queue_view_sel\<close>)
  obtain m' err' w3 where g: "run_state (GetJob q (ID ?j)) w2 = (Inl (Wrapf m' err'), w3)" "db view w3 = db view w2"
    using queue_on_redis.GetJob_clobbered [OF q k(2,4)] by blast
  have "running (queue_view q (db view w2)) = ID ?j # running (queue_view q (db view w))"
    using p by (simp add: k(3) c(3) a_claim_def a_enqueue_def Let_def del: queue_view_sel)
  moreover have "resp_status (fst (run_state (api_GetJob q r') w2)) = StatusNotFound" if "URLParam r' ''id'' = ID ?j" for r'
    using g(1) that queue_on_redis.uuid_laws(4) [OF q] by (simp add: api_GetJob_def run_simps writeError_def writeJSON_def new_job_def)
  moreover have "run_state (recoverJob wd (ID ?j)) w2 = (Inl (Wrapf m' err'), w3)"
    using g(1) by (simp add: recoverJob_def watchdog_on_redis.wd_parts(2) [OF wd] run_simps)
  ultimately show ?thesis using c(1) k(1) g(2) by blast
qed

definition urgent_body :: string where
  "urgent_body = json_text (json_map [(''type'', encode_string ''echo''), (''priority'', encode_int 10)])"

lemma read_urgent_body:
  "read_CreateJobRequest urgent_body = Inr (zero_CreateJobRequest\<lparr>rq_Type := ''echo'', rq_Priority := 10\<rparr>)"
proof -
  let ?v = "json_map [(''type'', encode_string ''echo''), (''priority'', encode_int 10)]"
  have "json_ok 10000 ?v" by (rule json_ok_flat) (auto simp del: json_ok.simps)
  then have "read_CreateJobRequest urgent_body = decode_struct request_field_names put_request_field zero_CreateJobRequest ?v"
    using decode_body_text [of ?v "[]"] by (simp add: read_CreateJobRequest_def urgent_body_def)
  also have "\<dots> = Inr (zero_CreateJobRequest\<lparr>rq_Type := ''echo'', rq_Priority := 10\<rparr>)" by code_simp
  finally show ?thesis .
qed

theorem submitted_job_is_lost_witness:
  "\<exists>j w1 err w2. run_state (CreateJob mem_queue (sample_request urgent_body)) (mem_with empty_db) = (created j, w1) \<and>
     run_state (Claim mem_queue 1000) w1 = (Inl err, w2) \<and> running (queue_view mem_queue (db mem w2)) = [ID j] \<and>
     resp_status (fst (run_state (api_GetJob mem_queue (sample_request []\<lparr>URLParam := (\<lambda>_. ID j)\<rparr>)) w2)) = StatusNotFound"
proof -
  obtain resp w1 where w1: "run_state (CreateJob mem_queue (sample_request urgent_body)) (mem_with empty_db) = (resp, w1)"
    by (rule prod.exhaust)
  obtain claim w2 where w2: "run_state (Claim mem_queue 1000) w1 = (claim, w2)" by (rule prod.exhaust)
  let ?req = "zero_CreateJobRequest\<lparr>rq_Type := ''echo'', rq_Priority := 10\<rparr>"
  have r: "read_CreateJobRequest (req_Body (sample_request urgent_body)) = Inr ?req" by (simp add: sample_request_def read_urgent_body)
  have p: "rq_Type ?req \<noteq> []" "rq_Priority ?req = 10" "rq_UniqueKey ?req = []" by (simp_all add: zero_CreateJobRequest_def)
  have e: "pend (queue_view mem_queue (db mem (mem_with empty_db))) High = []" "running (queue_view mem_queue (db mem (mem_with empty_db))) = []"
    by (simp_all del: queue_view_sel)
  obtain j err where "resp = created j" "claim = Inl err" "running (queue_view mem_queue (db mem w2)) = [ID j]"
    "\<forall>r'. URLParam r' ''id'' = ID j \<longrightarrow> resp_status (fst (run_state (api_GetJob mem_queue r') w2)) = StatusNotFound"
    using submitted_job_is_lost [OF mem_watchdog_contract mem_with_ready [OF empty_queue(1)] _ e(1) r p w1 w2]
    unfolding e(2) by auto
  then show ?thesis using w1 w2 by fastforce
qed

end
